theory Spec2Isabelle
  imports Complex_Main "HOL-Library.Multiset" "HOL-Library.Product_Lexorder"
    "HOL-Library.DAList"
begin

section \<open>Data model of the clustered k-nearest-neighbour recommender\<close>

text \<open>
  The embedding follows \<^verbatim>\<open>Methods/Vectorized_Clustered_KNN.py\<close>. Data frames are
  lists of rows in row order, Python dictionaries are association lists with distinct
  keys in insertion order (\<open>DAList\<close>), numpy float arrays are lists of reals (the exact
  idealisation of float64), and every place where the interpreter would raise is a
  value of type \<open>error\<close>.
\<close>

datatype error = ValueError | IndexError | KeyError

type_synonym vector = "real list"

text \<open>A row of \<^verbatim>\<open>content_df\<close>: the content id and its embedding.\<close>
type_synonym content_row = "int \<times> vector"

text \<open>A row of \<^verbatim>\<open>interactions_df\<close>: user id, content id, rating.\<close>
type_synonym interaction = "int \<times> int \<times> int"

text \<open>An entry of \<^verbatim>\<open>user_recommendations\<close>: user id, content id, score.\<close>
type_synonym candidate = "int \<times> int \<times> real"

text \<open>A row of \<^verbatim>\<open>recommendations_df\<close>: user id, content id, rank, module source.\<close>
type_synonym recommendation = "int \<times> int \<times> nat \<times> string"

text \<open>
  The numeric kernels of scikit-learn are not code of the repository. The cosine
  similarity of two vectors and the label HDBSCAN gives to the i-th point of a distance
  matrix are parameters of the model; everything proved holds for every choice of them.
\<close>
record sklearn =
  cosine_similarity :: "vector \<Rightarrow> vector \<Rightarrow> real"
  HDBSCAN_fit_predict :: "real list list \<Rightarrow> nat \<Rightarrow> int"

text \<open>The dictionary stored per user in \<^verbatim>\<open>self.user_profiles\<close>.\<close>
record profile =
  content :: "content_row list"
  clusters :: "int list"
  previous_interactions :: "int set"

text \<open>The attributes of a \<^verbatim>\<open>ClusteredKNN\<close> object.\<close>
record ClusteredKNN =
  content_df :: "content_row list"
  interactions_df :: "interaction list"
  users_df :: "int list"
  all_vectors :: "vector list"
  user_profiles :: "(int, profile) alist"
  cosine_scores :: "(int, real list) alist"
  recommendations_df :: "recommendation list"

text \<open>
  Modelled from the spec: the constructor of the base class \<^verbatim>\<open>Recommender\<close> (its
  file is not part of the sources). It stores the three tables; profiles are built
  fresh each run, so both dictionaries start empty.
\<close>
definition ClusteredKNN_init ::
  "content_row list \<Rightarrow> interaction list \<Rightarrow> int list \<Rightarrow> ClusteredKNN" where
  "ClusteredKNN_init content_rows interaction_rows user_rows =
     \<lparr>content_df = content_rows, interactions_df = interaction_rows, users_df = user_rows,
      all_vectors = [], user_profiles = DAList.empty, cosine_scores = DAList.empty,
      recommendations_df = []\<rparr>"

section \<open>Library functions used by the source\<close>

subsection \<open>Indexing and numpy helpers\<close>

text \<open>\<^verbatim>\<open>df.iloc[idx]\<close> and \<^verbatim>\<open>array[idx]\<close> for a non-negative index.\<close>
definition iloc :: "'a list \<Rightarrow> nat \<Rightarrow> error + 'a" where
  "iloc df idx = (if idx < length df then Inr (df ! idx) else Inl IndexError)"

text \<open>\<^verbatim>\<open>np.vstack\<close> of a list of one-dimensional arrays: it raises on an empty
  list and on rows of different lengths.\<close>
definition vstack :: "vector list \<Rightarrow> error + vector list" where
  "vstack vs =
     (case vs of
        [] \<Rightarrow> Inl ValueError
      | v # rest \<Rightarrow>
          if list_all (\<lambda>w. length w = length v) rest then Inr vs else Inl ValueError)"

text \<open>\<^verbatim>\<open>matrix.shape[1]\<close> of a stacked matrix.\<close>
definition shape1 :: "vector list \<Rightarrow> nat" where
  "shape1 m = (case m of [] \<Rightarrow> 0 | v # _ \<Rightarrow> length v)"

text \<open>\<^verbatim>\<open>np.mean(matrix, axis=0)\<close> of a non-empty matrix: the column sums divided
  by the number of rows.\<close>
definition mean_axis0 :: "vector list \<Rightarrow> vector" where
  "mean_axis0 m =
     (case m of
        [] \<Rightarrow> []
      | v # rest \<Rightarrow>
          map (\<lambda>x. x / real (length m)) (foldl (\<lambda>acc w. map2 (+) acc w) v rest))"

text \<open>\<^verbatim>\<open>np.argsort\<close>: the indices in ascending order of the values. numpy leaves the
  order of equal values open; the model keeps them in index order.\<close>
definition argsort :: "real list \<Rightarrow> nat list" where
  "argsort xs = map snd (sort_key fst (zip xs [0..<length xs]))"

text \<open>\<^verbatim>\<open>pd.unique\<close>: the distinct values in order of first appearance.\<close>
definition unique :: "'a list \<Rightarrow> 'a list" where
  "unique xs = rev (remdups (rev xs))"

text \<open>\<^verbatim>\<open>pd.Series(labels).value_counts(normalize=True)\<close>: each distinct label with its
  relative frequency, most frequent first (equal frequencies in order of first
  appearance).\<close>
definition value_counts_normalize :: "int list \<Rightarrow> (int \<times> real) list" where
  "value_counts_normalize labels =
     sort_key (\<lambda>lp. - snd lp)
       (map (\<lambda>l. (l, real (count_list labels l) / real (length labels))) (unique labels))"

text \<open>Python's \<^verbatim>\<open>round\<close> of a float: to the nearest integer, halves to the even
  neighbour.\<close>
definition py_round :: "real \<Rightarrow> int" where
  "py_round x =
     (if frac x < 1 / 2 then \<lfloor>x\<rfloor>
      else if frac x > 1 / 2 then \<lfloor>x\<rfloor> + 1
      else if even \<lfloor>x\<rfloor> then \<lfloor>x\<rfloor> else \<lfloor>x\<rfloor> + 1)"

text \<open>Slices \<^verbatim>\<open>xs[:k]\<close> and \<^verbatim>\<open>xs[k:]\<close>; a negative bound counts from the end.\<close>
definition slice_to :: "'a list \<Rightarrow> int \<Rightarrow> 'a list" where
  "slice_to xs k = (if 0 \<le> k then take (nat k) xs else take (length xs - nat (- k)) xs)"

definition slice_from :: "'a list \<Rightarrow> int \<Rightarrow> 'a list" where
  "slice_from xs k = (if 0 \<le> k then drop (nat k) xs else drop (length xs - nat (- k)) xs)"

subsection \<open>scikit-learn on top of the two kernels\<close>

text \<open>\<^verbatim>\<open>cosine_similarity([u], matrix)[0]\<close>. scikit-learn validates its two
  arguments first and raises a \<^verbatim>\<open>ValueError\<close> when the matrix has no row, when there is
  no feature, or when the vector and the rows of the matrix differ in length.\<close>
definition cosine_similarity_row :: "sklearn \<Rightarrow> vector \<Rightarrow> vector list \<Rightarrow> error + real list" where
  "cosine_similarity_row lib u m =
     (if m = [] \<or> u = [] \<or> \<not> list_all (\<lambda>v. length v = length u) m then Inl ValueError
      else Inr (map (cosine_similarity lib u) m))"

text \<open>The cosine distance: one minus the similarity, clipped to the interval from 0
  to 2.\<close>
definition cosine_distance :: "sklearn \<Rightarrow> vector \<Rightarrow> vector \<Rightarrow> real" where
  "cosine_distance lib u v = min 2 (max 0 (1 - cosine_similarity lib u v))"

text \<open>\<^verbatim>\<open>cosine_distances(vectors)\<close>: the pairwise distance matrix, with its diagonal
  set to zero.\<close>
definition cosine_distances :: "sklearn \<Rightarrow> vector list \<Rightarrow> real list list" where
  "cosine_distances lib vs =
     map (\<lambda>i. map (\<lambda>j. if i = j then 0 else cosine_distance lib (vs ! i) (vs ! j))
                [0..<length vs])
         [0..<length vs]"

text \<open>\<^verbatim>\<open>NearestNeighbors(n_neighbors, metric='cosine', algorithm='brute').fit(X)\<close>
  followed by \<^verbatim>\<open>kneighbors([q])\<close>, as the list \<^verbatim>\<open>zip(distances[0], indices[0])\<close>:
  the brute-force search computes every distance and returns the nearest ones in
  increasing distance. A neighbour count that is not between 1 and the number of fitted
  rows raises, and so does the validation of the fitted matrix and of the query: no
  feature, or a query whose length is not that of the fitted rows.\<close>
definition kneighbors ::
  "sklearn \<Rightarrow> nat \<Rightarrow> vector list \<Rightarrow> vector \<Rightarrow> error + (real \<times> nat) list" where
  "kneighbors lib n_neighbors fit_X q =
     (if n_neighbors = 0 \<or> length fit_X < n_neighbors \<or> q = []
           \<or> \<not> list_all (\<lambda>v. length v = length q) fit_X
      then Inl ValueError
      else Inr (take n_neighbors
                  (sort_key fst (zip (map (cosine_distance lib q) fit_X) [0..<length fit_X]))))"

subsection \<open>heapq\<close>

text \<open>The while loop of \<^verbatim>\<open>heapq._siftdown\<close>: parents larger than the new item move
  down.\<close>
function siftdown_loop :: "'a::linorder list \<Rightarrow> nat \<Rightarrow> nat \<Rightarrow> 'a \<Rightarrow> 'a list \<times> nat" where
  "siftdown_loop heap startpos pos newitem =
     (if startpos < pos then
        (if newitem < heap ! ((pos - 1) div 2)
         then siftdown_loop (heap[pos := heap ! ((pos - 1) div 2)]) startpos
                ((pos - 1) div 2) newitem
         else (heap, pos))
      else (heap, pos))"
  by pat_completeness auto
termination
  by (relation "measure (\<lambda>(heap, startpos, pos, newitem). pos)") auto

definition siftdown :: "'a::linorder list \<Rightarrow> nat \<Rightarrow> nat \<Rightarrow> 'a list" where
  "siftdown heap startpos pos =
     (let newitem = heap ! pos;
          (heap', pos') = siftdown_loop heap startpos pos newitem
      in heap'[pos' := newitem])"

text \<open>The index of the smaller child, as \<^verbatim>\<open>heapq._siftup\<close> chooses it.\<close>
definition smaller_child :: "'a::linorder list \<Rightarrow> nat \<Rightarrow> nat" where
  "smaller_child heap childpos =
     (if childpos + 1 < length heap \<and> \<not> heap ! childpos < heap ! (childpos + 1)
      then childpos + 1 else childpos)"

text \<open>The while loop of \<^verbatim>\<open>heapq._siftup\<close>: the smaller child moves up until a leaf is
  reached.\<close>
function siftup_loop :: "'a::linorder list \<Rightarrow> nat \<Rightarrow> 'a list \<times> nat" where
  "siftup_loop heap pos =
     (if 2 * pos + 1 < length heap then
        siftup_loop (heap[pos := heap ! smaller_child heap (2 * pos + 1)])
          (smaller_child heap (2 * pos + 1))
      else (heap, pos))"
  by pat_completeness auto
termination
  by (relation "measure (\<lambda>(heap, pos). length heap - pos)")
    (auto simp: smaller_child_def)

definition siftup :: "'a::linorder list \<Rightarrow> nat \<Rightarrow> 'a list" where
  "siftup heap pos =
     (let newitem = heap ! pos;
          (heap', pos') = siftup_loop heap pos
      in siftdown (heap'[pos' := newitem]) pos pos')"

text \<open>\<^verbatim>\<open>heapq.heapify(x)\<close>: sift every inner node, from the last one to the root.\<close>
definition heapify :: "'a::linorder list \<Rightarrow> 'a list" where
  "heapify x = foldl siftup x (rev [0..<length x div 2])"

text \<open>\<^verbatim>\<open>sorted(xs, key=key, reverse=True)\<close>: descending by key, equal keys in their
  original order.\<close>
definition sorted_reverse :: "('a \<Rightarrow> real) \<Rightarrow> 'a list \<Rightarrow> 'a list" where
  "sorted_reverse key xs = sort_key (\<lambda>x. - key x) xs"

text \<open>\<^verbatim>\<open>heapq.nlargest(n, xs, key=key)\<close>, by the equivalence its documentation
  states: \<^verbatim>\<open>sorted(xs, key=key, reverse=True)[:n]\<close>.\<close>
definition nlargest :: "nat \<Rightarrow> 'a list \<Rightarrow> ('a \<Rightarrow> real) \<Rightarrow> 'a list" where
  "nlargest n xs key = take n (sorted_reverse key xs)"

section \<open>Recommendation generation\<close>

text \<open>The local constant of \<^verbatim>\<open>generate_recommendations\<close>.\<close>
definition total_recommendations :: nat where
  "total_recommendations = 50"

text \<open>
  The loop over \<^verbatim>\<open>top_indices\<close>. The source has it twice with the same body: as the
  few-interest path (lines 58 to 64) and as the supplement (lines 94 to 100). It checks
  the cap before every index, skips content ids in \<^verbatim>\<open>user_previous_interactions\<close>
  and appends the others with their cosine score.
\<close>
fun fallback_loop ::
  "nat \<Rightarrow> ClusteredKNN \<Rightarrow> int \<Rightarrow> int set \<Rightarrow> real list \<Rightarrow> nat list \<Rightarrow> candidate list
     \<Rightarrow> error + candidate list" where
  "fallback_loop cap st user_id prev scores [] recs = Inr recs"
| "fallback_loop cap st user_id prev scores (idx # rest) recs =
     (if cap \<le> length recs then Inr recs
      else
        (case iloc (content_df st) idx of
           Inl e \<Rightarrow> Inl e
         | Inr row \<Rightarrow>
             if fst row \<notin> prev then
               (case iloc scores idx of
                  Inl e \<Rightarrow> Inl e
                | Inr recommendation_score \<Rightarrow>
                    fallback_loop cap st user_id prev scores rest
                      (recs @ [(user_id, fst row, recommendation_score)]))
             else fallback_loop cap st user_id prev scores rest recs))"

text \<open>
  The loop over the neighbours of one cluster (lines 85 to 91): the cap is checked only
  after an append, and the \<^verbatim>\<open>break\<close> leaves this loop only.
\<close>
fun neighbor_loop ::
  "nat \<Rightarrow> ClusteredKNN \<Rightarrow> int \<Rightarrow> int set \<Rightarrow> (real \<times> nat) list \<Rightarrow> candidate list
     \<Rightarrow> error + candidate list" where
  "neighbor_loop cap st user_id prev [] recs = Inr recs"
| "neighbor_loop cap st user_id prev ((distance, idx) # rest) recs =
     (case iloc (content_df st) idx of
        Inl e \<Rightarrow> Inl e
      | Inr row \<Rightarrow>
          if fst row \<notin> prev then
            (if cap \<le> length (recs @ [(user_id, fst row, 1 - distance)])
             then Inr (recs @ [(user_id, fst row, 1 - distance)])
             else neighbor_loop cap st user_id prev rest
                    (recs @ [(user_id, fst row, 1 - distance)]))
          else neighbor_loop cap st user_id prev rest recs)"

text \<open>\<^verbatim>\<open>max(1, int(round(total_recommendations * proportion)))\<close>.\<close>
definition cluster_recommendation_count :: "nat \<Rightarrow> real \<Rightarrow> nat" where
  "cluster_recommendation_count cap proportion =
     nat (max 1 (py_round (real cap * proportion)))"

text \<open>\<^verbatim>\<open>min(cluster_recommendation_count, len(self.all_vectors))\<close>.\<close>
definition n_neighbors :: "nat \<Rightarrow> real \<Rightarrow> ClusteredKNN \<Rightarrow> nat" where
  "n_neighbors cap proportion st =
     min (cluster_recommendation_count cap proportion) (length (all_vectors st))"

text \<open>The mean embedding of the rows of \<^verbatim>\<open>user_content\<close> whose label is the
  cluster; a boolean mask of the wrong length raises.\<close>
definition cluster_vector :: "content_row list \<Rightarrow> int list \<Rightarrow> int \<Rightarrow> error + vector" where
  "cluster_vector user_content user_clusters cluster =
     (if length user_clusters \<noteq> length user_content then Inl ValueError
      else
        (case vstack (map (\<lambda>lr. snd (snd lr))
                        (filter (\<lambda>lr. fst lr = cluster) (zip user_clusters user_content))) of
           Inl e \<Rightarrow> Inl e
         | Inr m \<Rightarrow> Inr (mean_axis0 m)))"

text \<open>The loop over \<^verbatim>\<open>cluster_counts.items()\<close> (lines 67 to 91).\<close>
fun cluster_loop ::
  "sklearn \<Rightarrow> nat \<Rightarrow> ClusteredKNN \<Rightarrow> int \<Rightarrow> int set \<Rightarrow> content_row list \<Rightarrow> int list
     \<Rightarrow> (int \<times> real) list \<Rightarrow> candidate list \<Rightarrow> error + candidate list" where
  "cluster_loop lib cap st user_id prev user_content user_clusters [] recs = Inr recs"
| "cluster_loop lib cap st user_id prev user_content user_clusters
       ((cluster, proportion) # rest) recs =
     (if cluster = - 1
      then cluster_loop lib cap st user_id prev user_content user_clusters rest recs
      else
        (case cluster_vector user_content user_clusters cluster of
           Inl e \<Rightarrow> Inl e
         | Inr centroid \<Rightarrow>
             (case kneighbors lib (n_neighbors cap proportion st) (all_vectors st) centroid of
                Inl e \<Rightarrow> Inl e
              | Inr neighbors \<Rightarrow>
                  (case neighbor_loop cap st user_id prev neighbors recs of
                     Inl e \<Rightarrow> Inl e
                   | Inr recs' \<Rightarrow>
                       cluster_loop lib cap st user_id prev user_content user_clusters
                         rest recs'))))"

text \<open>
  The candidate list of one user (lines 51 to 100): the few-interest path or the
  cluster path, and then the supplement, which stands after the \<^verbatim>\<open>if\<close> and so runs
  on both paths.
\<close>
definition user_candidates ::
  "sklearn \<Rightarrow> nat \<Rightarrow> ClusteredKNN \<Rightarrow> int \<Rightarrow> profile \<Rightarrow> real list \<Rightarrow> nat list
     \<Rightarrow> error + candidate list" where
  "user_candidates lib cap st user_id prof scores top_indices =
     (case
        (if length (unique (map fst (content prof))) < 5
         then fallback_loop cap st user_id (previous_interactions prof) scores top_indices []
         else cluster_loop lib cap st user_id (previous_interactions prof) (content prof)
                (clusters prof) (value_counts_normalize (clusters prof)) [])
      of
        Inl e \<Rightarrow> Inl e
      | Inr recs \<Rightarrow>
          fallback_loop cap st user_id (previous_interactions prof) scores top_indices recs)"

text \<open>
  Lines 103 to 108: \<^verbatim>\<open>heapify\<close> reorders the candidate list in place (by tuple
  comparison), \<^verbatim>\<open>nlargest\<close> takes the best by score, and the ranks are the positions
  of \<^verbatim>\<open>enumerate(sorted(...), start=1)\<close>.
\<close>
definition rank_recommendations :: "nat \<Rightarrow> candidate list \<Rightarrow> (int \<times> int \<times> nat) list" where
  "rank_recommendations cap user_recommendations =
     (let heap = heapify user_recommendations;
          top_recommendations = nlargest cap heap (\<lambda>x. snd (snd x));
          ordered = sorted_reverse (\<lambda>x. snd (snd x)) top_recommendations
      in map (\<lambda>(rank, x). (fst x, fst (snd x), rank)) (zip [1..<Suc (length ordered)] ordered))"

text \<open>The dictionary comprehension \<^verbatim>\<open>cosine_top_indices\<close> (lines 47 and 48), over
  the keys of \<^verbatim>\<open>user_profiles\<close>.\<close>
fun cosine_top_indices :: "ClusteredKNN \<Rightarrow> int list \<Rightarrow> error + (int \<times> nat list) list" where
  "cosine_top_indices st [] = Inr []"
| "cosine_top_indices st (user_id # rest) =
     (case DAList.lookup (cosine_scores st) user_id of
        None \<Rightarrow> Inl KeyError
      | Some scores \<Rightarrow>
          (case cosine_top_indices st rest of
             Inl e \<Rightarrow> Inl e
           | Inr d \<Rightarrow> Inr ((user_id, take 2000 (rev (argsort scores))) # d)))"

text \<open>The loop over the users (lines 50 to 109).\<close>
fun recommendation_loop ::
  "sklearn \<Rightarrow> nat \<Rightarrow> ClusteredKNN \<Rightarrow> (int \<times> nat list) list \<Rightarrow> (int \<times> int \<times> nat) list
     \<Rightarrow> error + (int \<times> int \<times> nat) list" where
  "recommendation_loop lib cap st [] all_recommendations = Inr all_recommendations"
| "recommendation_loop lib cap st ((user_id, top_indices) # rest) all_recommendations =
     (case DAList.lookup (user_profiles st) user_id of
        None \<Rightarrow> Inl KeyError
      | Some prof \<Rightarrow>
          (case DAList.lookup (cosine_scores st) user_id of
             None \<Rightarrow> Inl KeyError
           | Some scores \<Rightarrow>
               (case user_candidates lib cap st user_id prof scores top_indices of
                  Inl e \<Rightarrow> Inl e
                | Inr user_recommendations \<Rightarrow>
                    recommendation_loop lib cap st rest
                      (all_recommendations
                         @ rank_recommendations cap user_recommendations))))"

definition generate_recommendations :: "sklearn \<Rightarrow> ClusteredKNN \<Rightarrow> error + ClusteredKNN" where
  "generate_recommendations lib st =
     (case cosine_top_indices st (map fst (DAList.impl_of (user_profiles st))) of
        Inl e \<Rightarrow> Inl e
      | Inr d \<Rightarrow>
          (case recommendation_loop lib total_recommendations st d [] of
             Inl e \<Rightarrow> Inl e
           | Inr all_recommendations \<Rightarrow>
               Inr (st\<lparr>recommendations_df :=
                          map (\<lambda>r. (fst r, fst (snd r), snd (snd r), ''content_based''))
                            all_recommendations\<rparr>)))"

section \<open>User profiles\<close>

text \<open>Lines 171 to 174: the mean of the good vectors, or the zero vector of the width of
  the catalog matrix. \<^verbatim>\<open>np.array\<close> of a list of arrays raises when their lengths
  differ, as \<^verbatim>\<open>np.vstack\<close> does.\<close>
definition positive_vector :: "vector list \<Rightarrow> vector list \<Rightarrow> error + vector" where
  "positive_vector all_vecs good_vectors =
     (if good_vectors \<noteq> [] then
        (case vstack good_vectors of Inl e \<Rightarrow> Inl e | Inr m \<Rightarrow> Inr (mean_axis0 m))
      else Inr (replicate (shape1 all_vecs) 0))"

text \<open>Lines 184 to 196: one label per row of \<^verbatim>\<open>good_content\<close>.\<close>
definition cluster_labels :: "sklearn \<Rightarrow> content_row list \<Rightarrow> int list" where
  "cluster_labels lib good_content =
     (if length good_content < 5 then map int [0..<length good_content]
      else map (HDBSCAN_fit_predict lib (cosine_distances lib (map snd good_content)))
             [0..<length good_content])"

text \<open>The body of the loop over \<^verbatim>\<open>batch_interactions.groupby(user_id)\<close> (lines 158
  to 208). It raises where the mean of the good vectors or the cosine similarity
  raises; otherwise it stores the scores and the profile of the user.\<close>
definition process_user ::
  "sklearn \<Rightarrow> content_row list \<Rightarrow> ClusteredKNN \<Rightarrow> int \<times> interaction list
     \<Rightarrow> error + ClusteredKNN" where
  "process_user lib batch_content st grp =
     (let user_id = fst grp;
          interactions = snd grp;
          good_interactions = filter (\<lambda>r. snd (snd r) \<in> {4, 5}) interactions;
          negative_interactions = filter (\<lambda>r. snd (snd r) \<in> {1, 2}) interactions;
          good_content =
            filter (\<lambda>row. fst row \<in> set (map (\<lambda>r. fst (snd r)) good_interactions))
              batch_content;
          good_vectors = map snd good_content
      in case positive_vector (all_vectors st) good_vectors of
           Inl e \<Rightarrow> Inl e
         | Inr user_vector \<Rightarrow>
             (case cosine_similarity_row lib user_vector (all_vectors st) of
                Inl e \<Rightarrow> Inl e
              | Inr scores \<Rightarrow>
                  Inr (st\<lparr>cosine_scores := DAList.update user_id scores (cosine_scores st),
                          user_profiles :=
                            DAList.update user_id
                              \<lparr>content = good_content,
                               clusters = cluster_labels lib good_content,
                               previous_interactions =
                                 set (unique (map (\<lambda>r. fst (snd r)) good_interactions))
                                 \<union> set (unique (map (\<lambda>r. fst (snd r))
                                                negative_interactions))\<rparr>
                              (user_profiles st)\<rparr>)))"

text \<open>The loop over the groups of one batch (line 157); it ends at the first group that
  raises.\<close>
fun user_loop ::
  "sklearn \<Rightarrow> content_row list \<Rightarrow> ClusteredKNN \<Rightarrow> (int \<times> interaction list) list
     \<Rightarrow> error + ClusteredKNN" where
  "user_loop lib batch_content st [] = Inr st"
| "user_loop lib batch_content st (grp # groups) =
     (case process_user lib batch_content st grp of
        Inl e \<Rightarrow> Inl e
      | Inr st' \<Rightarrow> user_loop lib batch_content st' groups)"

text \<open>One batch (lines 150 to 208): the interactions of the users of the chunk, the
  content rows they mention, and the groups by user id in ascending key order.\<close>
definition process_batch :: "sklearn \<Rightarrow> ClusteredKNN \<Rightarrow> int list \<Rightarrow> error + ClusteredKNN" where
  "process_batch lib st user_id_chunk =
     (let batch_interactions = filter (\<lambda>r. fst r \<in> set user_id_chunk) (interactions_df st);
          batch_content =
            filter (\<lambda>row. fst row \<in> set (map (\<lambda>r. fst (snd r)) batch_interactions))
              (content_df st);
          groups =
            map (\<lambda>u. (u, filter (\<lambda>r. fst r = u) batch_interactions))
              (sort (unique (map fst batch_interactions)))
      in user_loop lib batch_content st groups)"

text \<open>The while loop over the batches (lines 142 to 208). With a batch size below 1 and
  a user left it never ends; not returning is the value \<open>None\<close>. A batch that raises
  ends the loop with that error.\<close>
partial_function (option) profile_loop ::
  "sklearn \<Rightarrow> int \<Rightarrow> ClusteredKNN \<Rightarrow> int list \<Rightarrow> int \<Rightarrow> (error + ClusteredKNN) option" where
  "profile_loop lib batch_size st user_ids remaining_users =
     (if 0 < remaining_users then
        (case process_batch lib st (slice_to user_ids (min batch_size remaining_users)) of
           Inl e \<Rightarrow> Some (Inl e)
         | Inr st' \<Rightarrow>
             profile_loop lib batch_size st'
               (slice_from user_ids (min batch_size remaining_users))
               (remaining_users - min batch_size remaining_users))
      else Some (Inr st))"

definition generate_user_profiles ::
  "sklearn \<Rightarrow> int \<Rightarrow> ClusteredKNN \<Rightarrow> (error + ClusteredKNN) option" where
  "generate_user_profiles lib batch_size st =
     profile_loop lib batch_size st (unique (map fst (interactions_df st)))
       (int (length (unique (map fst (interactions_df st)))))"

section \<open>The entry point\<close>

text \<open>\<^verbatim>\<open>get_recommendations\<close>: stack the embeddings, build the profiles with the
  default batch size 20, generate the recommendations. The model returns the object
  after the call; the table the method returns is its field \<open>recommendations_df\<close>.\<close>
definition get_recommendations :: "sklearn \<Rightarrow> ClusteredKNN \<Rightarrow> (error + ClusteredKNN) option" where
  "get_recommendations lib st =
     (case vstack (map snd (content_df st)) of
        Inl e \<Rightarrow> Some (Inl e)
      | Inr m \<Rightarrow>
          (case generate_user_profiles lib 20 (st\<lparr>all_vectors := m\<rparr>) of
             None \<Rightarrow> None
           | Some (Inl e) \<Rightarrow> Some (Inl e)
           | Some (Inr st') \<Rightarrow> Some (generate_recommendations lib st')))"

text \<open>The table that \<^verbatim>\<open>get_recommendations\<close> returns.\<close>
definition returned_table :: "sklearn \<Rightarrow> ClusteredKNN \<Rightarrow> (error + recommendation list) option" where
  "returned_table lib st = map_option (map_sum id recommendations_df) (get_recommendations lib st)"

section \<open>Reference definitions\<close>

text \<open>The ranking as section 4.3 of the specification words it: the best
  \<open>cap\<close> candidates by descending score, ranks from 1, equal scores in the order in
  which the candidates were appended.\<close>
definition rank_insertion_order :: "nat \<Rightarrow> candidate list \<Rightarrow> (int \<times> int \<times> nat) list" where
  "rank_insertion_order cap user_recommendations =
     (let ordered = take cap (sorted_reverse (\<lambda>x. snd (snd x)) user_recommendations)
      in map (\<lambda>(rank, x). (fst x, fst (snd x), rank)) (zip [1..<Suc (length ordered)] ordered))"

text \<open>The profile of one user as section 4.1 of the specification words it: built from
  that user's interactions and the full catalog, with no batch in sight.\<close>
definition good_ids :: "interaction list \<Rightarrow> int \<Rightarrow> int set" where
  "good_ids idf u =
     set (map (\<lambda>r. fst (snd r)) (filter (\<lambda>r. fst r = u \<and> snd (snd r) \<in> {4, 5}) idf))"

definition negative_ids :: "interaction list \<Rightarrow> int \<Rightarrow> int set" where
  "negative_ids idf u =
     set (map (\<lambda>r. fst (snd r)) (filter (\<lambda>r. fst r = u \<and> snd (snd r) \<in> {1, 2}) idf))"

definition good_content_of :: "content_row list \<Rightarrow> interaction list \<Rightarrow> int \<Rightarrow> content_row list" where
  "good_content_of cdf idf u = filter (\<lambda>row. fst row \<in> good_ids idf u) cdf"

definition profile_of :: "sklearn \<Rightarrow> content_row list \<Rightarrow> interaction list \<Rightarrow> int \<Rightarrow> profile" where
  "profile_of lib cdf idf u =
     \<lparr>content = good_content_of cdf idf u,
      clusters = cluster_labels lib (good_content_of cdf idf u),
      previous_interactions = good_ids idf u \<union> negative_ids idf u\<rparr>"

text \<open>The similarity scores of one user, computed from the full tables; they raise where
  the loop body raises.\<close>
definition user_scores ::
  "sklearn \<Rightarrow> content_row list \<Rightarrow> interaction list \<Rightarrow> vector list \<Rightarrow> int
     \<Rightarrow> error + real list" where
  "user_scores lib cdf idf av u =
     (case positive_vector av (map snd (good_content_of cdf idf u)) of
        Inl e \<Rightarrow> Inl e
      | Inr user_vector \<Rightarrow> cosine_similarity_row lib user_vector av)"

text \<open>The same scores as a plain list, for the case that they do not raise (the empty
  list stands in where they do).\<close>
definition scores_of ::
  "sklearn \<Rightarrow> content_row list \<Rightarrow> interaction list \<Rightarrow> vector list \<Rightarrow> int \<Rightarrow> real list" where
  "scores_of lib cdf idf av u =
     (case user_scores lib cdf idf av u of Inl e \<Rightarrow> [] | Inr scores \<Rightarrow> scores)"

text \<open>The users of a list, as far as they occur in the log, for whom the scores do not
  raise.\<close>
definition users_ok :: "sklearn \<Rightarrow> ClusteredKNN \<Rightarrow> int list \<Rightarrow> bool" where
  "users_ok lib st us =
     list_all (\<lambda>k. \<not> isl (user_scores lib (content_df st) (interactions_df st) (all_vectors st) k))
       (filter (\<lambda>k. k \<in> fst ` set (interactions_df st)) us)"

text \<open>The user ids of one batch, in the order in which \<^verbatim>\<open>groupby\<close> yields their groups.\<close>
definition batch_users :: "ClusteredKNN \<Rightarrow> int list \<Rightarrow> int list" where
  "batch_users st chunk =
     sort (unique (map fst (filter (\<lambda>r. fst r \<in> set chunk) (interactions_df st))))"

text \<open>Storing the profile and the scores of one user, computed from the full tables.\<close>
definition apply_user :: "sklearn \<Rightarrow> ClusteredKNN \<Rightarrow> int \<Rightarrow> ClusteredKNN" where
  "apply_user lib st u =
     st\<lparr>cosine_scores :=
          DAList.update u
            (scores_of lib (content_df st) (interactions_df st) (all_vectors st) u)
            (cosine_scores st),
        user_profiles :=
          DAList.update u (profile_of lib (content_df st) (interactions_df st) u)
            (user_profiles st)\<rparr>"

text \<open>What a finished run of the batch loop over the user ids \<open>us\<close> has stored: the
  tables are untouched, and each of these users that has interactions has its profile and
  scores as computed from the full tables.\<close>
definition profiles_done :: "sklearn \<Rightarrow> ClusteredKNN \<Rightarrow> int list \<Rightarrow> ClusteredKNN \<Rightarrow> bool" where
  "profiles_done lib st us st' \<longleftrightarrow>
     content_df st' = content_df st \<and> interactions_df st' = interactions_df st \<and>
     all_vectors st' = all_vectors st \<and> users_df st' = users_df st \<and>
     recommendations_df st' = recommendations_df st \<and>
     (\<forall>k. DAList.lookup (user_profiles st') k =
        (if k \<in> set us \<and> k \<in> fst ` set (interactions_df st)
         then Some (profile_of lib (content_df st) (interactions_df st) k)
         else DAList.lookup (user_profiles st) k)) \<and>
     (\<forall>k. DAList.lookup (cosine_scores st') k =
        (if k \<in> set us \<and> k \<in> fst ` set (interactions_df st)
         then Some (scores_of lib (content_df st) (interactions_df st) (all_vectors st) k)
         else DAList.lookup (cosine_scores st) k))"

text \<open>One pass of the loop over the users, as a function of the user id: the ranked rows
  of that user.\<close>
definition user_block :: "sklearn \<Rightarrow> nat \<Rightarrow> ClusteredKNN \<Rightarrow> int \<Rightarrow> error + (int \<times> int \<times> nat) list" where
  "user_block lib cap st user_id =
     (case DAList.lookup (user_profiles st) user_id of
        None \<Rightarrow> Inl KeyError
      | Some prof \<Rightarrow>
          (case DAList.lookup (cosine_scores st) user_id of
             None \<Rightarrow> Inl KeyError
           | Some scores \<Rightarrow>
               (case user_candidates lib cap st user_id prof scores
                       (take 2000 (rev (argsort scores))) of
                  Inl e \<Rightarrow> Inl e
                | Inr user_recommendations \<Rightarrow>
                    Inr (rank_recommendations cap user_recommendations))))"

text \<open>The cosine similarity in exact arithmetic, as scikit-learn computes it: each
  vector is divided by its norm (a zero norm is replaced by 1) before the dot
  product.\<close>
definition dot :: "vector \<Rightarrow> vector \<Rightarrow> real" where
  "dot u v = sum_list (map2 (*) u v)"

definition norm_or_one :: "vector \<Rightarrow> real" where
  "norm_or_one u = (if sqrt (dot u u) = 0 then 1 else sqrt (dot u u))"

definition cosine_similarity_exact :: "vector \<Rightarrow> vector \<Rightarrow> real" where
  "cosine_similarity_exact u v = dot u v / (norm_or_one u * norm_or_one v)"

text \<open>A library instance for concrete runs: the exact cosine similarity and a
  clustering given as a table of labels.\<close>
definition sklearn_exact :: "int list \<Rightarrow> sklearn" where
  "sklearn_exact labels =
     \<lparr>cosine_similarity = cosine_similarity_exact,
      HDBSCAN_fit_predict = (\<lambda>distance_matrix i. if i < length labels then labels ! i else - 1)\<rparr>"

text \<open>The loops are unfolded by hand, one step at a time.\<close>
declare siftdown_loop.simps [simp del] siftup_loop.simps [simp del]
declare profile_loop.simps [code]

text \<open>Example A of section 8 of the specification, with user U1 as user id 1.\<close>
definition example_A :: ClusteredKNN where
  "example_A =
     ClusteredKNN_init
       [(101, [1, 0]), (102, [0, 1]), (103, [1, 1]), (104, [- 1, 0])]
       [(1, 101, 5), (1, 102, 5), (1, 103, 1)]
       [1]"

text \<open>A small object for concrete runs of the cluster loop: three catalog rows, of
  which the first two are the good items of the user.\<close>
definition state_W :: ClusteredKNN where
  "state_W = (ClusteredKNN_init [(1, [3, 0]), (2, [0, 4]), (2000, [3, 4])] [] [])
               \<lparr>all_vectors := [[3, 0], [0, 4], [3, 4]]\<rparr>"

text \<open>A user with a 3, a 1 and a 5 for a content id that is not in the catalog: no good
  vector.\<close>
definition example_N :: ClusteredKNN where
  "example_N =
     ClusteredKNN_init [(101, [1, 0]), (102, [0, 1])] [(1, 101, 3), (1, 102, 1), (1, 999, 5)] []"

text \<open>The same user with a catalog whose embeddings have no component.\<close>
definition example_Z :: ClusteredKNN where
  "example_Z = ClusteredKNN_init [(101, []), (102, [])] [(1, 101, 3), (1, 102, 1)] []"

text \<open>A user with one good, one neutral and one negative rating; the catalog matrix is
  stacked.\<close>
definition example_R :: ClusteredKNN where
  "example_R =
     (ClusteredKNN_init [(101, [1, 0]), (102, [0, 1]), (103, [1, 1])]
        [(1, 101, 5), (1, 102, 3), (1, 103, 1)] [])
       \<lparr>all_vectors := [[1, 0], [0, 1], [1, 1]]\<rparr>"

text \<open>A catalog of one item, which the only user has rated 5.\<close>
definition example_S :: ClusteredKNN where
  "example_S = ClusteredKNN_init [(101, [1])] [(1, 101, 5)] [1]"

text \<open>Two users; the one with the larger id comes first in the interaction log. The
  catalog matrix is stacked.\<close>
definition example_T :: ClusteredKNN where
  "example_T =
     (ClusteredKNN_init [(101, [1])] [(2, 101, 5), (1, 101, 5)] [])\<lparr>all_vectors := [[1]]\<rparr>"

section \<open>The heap operations permute the list\<close>

lemma mset_update_hole:
  assumes "i < length xs" "j < length xs" "i \<noteq> j"
  shows "mset (xs[i := xs ! j, j := x]) = mset (xs[i := x])"
proof -
  have "mset ((xs[i := x])[i := (xs[i := x]) ! j, j := (xs[i := x]) ! i]) = mset (xs[i := x])"
    using assms by (intro mset_swap) auto
  then show ?thesis using assms by simp
qed

lemma siftdown_loop_inv:
  "pos < length heap \<Longrightarrow> siftdown_loop heap startpos pos newitem = (heap', pos') \<Longrightarrow>
     length heap' = length heap \<and> pos' < length heap \<and>
     mset (heap'[pos' := newitem]) = mset (heap[pos := newitem])"
proof (induction heap startpos pos newitem rule: siftdown_loop.induct)
  case (1 heap startpos pos newitem)
  show ?case
  proof (cases "startpos < pos \<and> newitem < heap ! ((pos - 1) div 2)")
    case True
    let ?pp = "(pos - 1) div 2"
    have pp: "?pp < pos" using True by auto
    have rec: "siftdown_loop (heap[pos := heap ! ?pp]) startpos ?pp newitem = (heap', pos')"
      using "1.prems"(2) True by (subst (asm) siftdown_loop.simps) simp
    have "length heap' = length (heap[pos := heap ! ?pp]) \<and> pos' < length (heap[pos := heap ! ?pp]) \<and>
          mset (heap'[pos' := newitem]) = mset (heap[pos := heap ! ?pp, ?pp := newitem])"
      using "1.IH"[OF _ _ _ rec] True pp "1.prems"(1) by simp
    moreover have "mset (heap[pos := heap ! ?pp, ?pp := newitem]) = mset (heap[pos := newitem])"
      using pp "1.prems"(1) by (intro mset_update_hole) auto
    ultimately show ?thesis by simp
  next
    case False
    then have "siftdown_loop heap startpos pos newitem = (heap, pos)"
      by (subst siftdown_loop.simps) auto
    then show ?thesis using "1.prems" by auto
  qed
qed

lemma siftdown_mset: "pos < length heap \<Longrightarrow> mset (siftdown heap startpos pos) = mset heap"
proof -
  assume p: "pos < length heap"
  obtain heap' pos' where lp: "siftdown_loop heap startpos pos (heap ! pos) = (heap', pos')"
    by force
  from siftdown_loop_inv[OF p lp]
  have "mset (heap'[pos' := heap ! pos]) = mset heap" by simp
  then show ?thesis using lp by (simp add: siftdown_def)
qed

lemma smaller_child_bounds:
  "c < length heap \<Longrightarrow> c \<le> smaller_child heap c \<and> smaller_child heap c < length heap"
  by (simp add: smaller_child_def)

lemma siftup_loop_inv:
  "pos < length heap \<Longrightarrow> siftup_loop heap pos = (heap', pos') \<Longrightarrow>
     length heap' = length heap \<and> pos' < length heap \<and>
     mset (heap'[pos' := x]) = mset (heap[pos := x])"
proof (induction heap pos rule: siftup_loop.induct)
  case (1 heap pos)
  show ?case
  proof (cases "2 * pos + 1 < length heap")
    case True
    let ?c = "smaller_child heap (2 * pos + 1)"
    have c: "pos < ?c" "?c < length heap"
      using smaller_child_bounds[OF True] by auto
    have rec: "siftup_loop (heap[pos := heap ! ?c]) ?c = (heap', pos')"
      using "1.prems"(2) True by (subst (asm) siftup_loop.simps) simp
    have "length heap' = length (heap[pos := heap ! ?c]) \<and> pos' < length (heap[pos := heap ! ?c]) \<and>
          mset (heap'[pos' := x]) = mset (heap[pos := heap ! ?c, ?c := x])"
      using "1.IH"[OF True _ rec] c by simp
    moreover have "mset (heap[pos := heap ! ?c, ?c := x]) = mset (heap[pos := x])"
      using c "1.prems"(1) by (intro mset_update_hole) auto
    ultimately show ?thesis by simp
  next
    case False
    then have "siftup_loop heap pos = (heap, pos)"
      by (subst siftup_loop.simps) auto
    then show ?thesis using "1.prems" by auto
  qed
qed

lemma siftup_mset: "pos < length heap \<Longrightarrow> mset (siftup heap pos) = mset heap"
proof -
  assume p: "pos < length heap"
  obtain heap' pos' where lp: "siftup_loop heap pos = (heap', pos')" by force
  from siftup_loop_inv[OF p lp, of "heap ! pos"]
  have "length heap' = length heap" "pos' < length heap"
       "mset (heap'[pos' := heap ! pos]) = mset heap" by auto
  then show ?thesis using lp by (simp add: siftup_def siftdown_mset)
qed

lemma foldl_siftup_mset:
  "list_all (\<lambda>p. p < length x) ps \<Longrightarrow> mset (foldl siftup x ps) = mset x"
proof (induction ps arbitrary: x)
  case Nil then show ?case by simp
next
  case (Cons p ps)
  have m: "mset (siftup x p) = mset x" using Cons.prems by (simp add: siftup_mset)
  then have "length (siftup x p) = length x" by (metis size_mset)
  then show ?case using Cons m by simp
qed

lemma heapify_mset: "mset (heapify x) = mset x"
  unfolding heapify_def by (rule foldl_siftup_mset) (auto simp: list_all_iff)

lemma heapify_length: "length (heapify x) = length x"
  by (metis heapify_mset size_mset)

lemma heapify_set: "set (heapify x) = set x"
  by (metis heapify_mset set_mset_mset)

section \<open>The ranking step\<close>

lemma sorted_reverse_idem_take:
  "sorted_reverse key (take n (sorted_reverse key xs)) = take n (sorted_reverse key xs)"
proof -
  have "sorted (map (\<lambda>x. - key x) (sort_key (\<lambda>x. - key x) xs))"
    by (rule sorted_sort_key)
  then have "sorted (take n (map (\<lambda>x. - key x) (sort_key (\<lambda>x. - key x) xs)))"
    by (rule sorted_wrt_take)
  then have "sorted (map (\<lambda>x. - key x) (take n (sort_key (\<lambda>x. - key x) xs)))"
    by (simp add: take_map)
  then show ?thesis
    unfolding sorted_reverse_def by (rule sort_key_id_if_sorted)
qed

lemma rank_recommendations_eq:
  "rank_recommendations cap recs = rank_insertion_order cap (heapify recs)"
  by (simp add: rank_recommendations_def rank_insertion_order_def nlargest_def
      sorted_reverse_idem_take Let_def del: upt_Suc)

lemma length_sorted_reverse [simp]: "length (sorted_reverse key xs) = length xs"
  by (simp add: sorted_reverse_def)

lemma set_sorted_reverse [simp]: "set (sorted_reverse key xs) = set xs"
  by (simp add: sorted_reverse_def)

lemma mset_sorted_reverse [simp]: "mset (sorted_reverse key xs) = mset xs"
  by (simp add: sorted_reverse_def)

lemma length_rank_insertion_order:
  "length (rank_insertion_order cap recs) = min cap (length recs)"
  by (simp add: rank_insertion_order_def Let_def min.commute del: upt_Suc)

lemma ranks_rank_insertion_order:
  "map (\<lambda>r. snd (snd r)) (rank_insertion_order cap recs) = [1..<Suc (min cap (length recs))]"
proof -
  define ordered where "ordered = take cap (sorted_reverse (\<lambda>x. snd (snd x)) recs)"
  have len: "length ordered = min cap (length recs)"
    by (simp add: ordered_def min.commute)
  have "map (\<lambda>r. snd (snd r))
          (map (\<lambda>(rank, x). (fst x, fst (snd x), rank)) (zip [1..<Suc (length ordered)] ordered))
        = map fst (zip [1..<Suc (length ordered)] ordered)"
    by (simp add: case_prod_unfold comp_def del: upt_Suc)
  also have "\<dots> = [1..<Suc (length ordered)]"
    by (simp add: map_fst_zip del: upt_Suc)
  finally have "map (\<lambda>r. snd (snd r))
          (map (\<lambda>(rank, x). (fst x, fst (snd x), rank)) (zip [1..<Suc (length ordered)] ordered))
        = [1..<Suc (min cap (length recs))]"
    by (simp only: len)
  then show ?thesis
    unfolding rank_insertion_order_def Let_def ordered_def .
qed

lemma length_rank_recommendations:
  "length (rank_recommendations cap recs) = min cap (length recs)"
  by (simp add: rank_recommendations_eq length_rank_insertion_order heapify_length)

lemma ranks_rank_recommendations:
  "map (\<lambda>r. snd (snd r)) (rank_recommendations cap recs) = [1..<Suc (min cap (length recs))]"
  by (simp add: rank_recommendations_eq ranks_rank_insertion_order heapify_length del: upt_Suc)

lemma set_rank_insertion_order:
  assumes "(u, c, r) \<in> set (rank_insertion_order cap recs)"
  shows "\<exists>s. (u, c, s) \<in> set recs"
proof -
  define ordered where "ordered = take cap (sorted_reverse (\<lambda>x. snd (snd x)) recs)"
  from assms have "(u, c, r) \<in> (\<lambda>(rank, x). (fst x, fst (snd x), rank)) `
      set (zip [1..<Suc (length ordered)] ordered)"
    by (simp add: rank_insertion_order_def Let_def ordered_def del: upt_Suc)
  then obtain k x where kx: "(k, x) \<in> set (zip [1..<Suc (length ordered)] ordered)"
    and u: "u = fst x" and c: "c = fst (snd x)"
    by auto
  from kx have "x \<in> set ordered"
    by (rule set_zip_rightD)
  then have "x \<in> set recs"
    unfolding ordered_def by (auto dest: in_set_takeD)
  then have "(u, c, snd (snd x)) \<in> set recs" using u c by simp
  then show ?thesis ..
qed

lemma set_rank_recommendations:
  "(u, c, r) \<in> set (rank_recommendations cap recs) \<Longrightarrow> \<exists>s. (u, c, s) \<in> set recs"
  using set_rank_insertion_order[of u c r cap "heapify recs"]
  by (simp add: rank_recommendations_eq heapify_set)

lemma filter_take_prefix: "\<exists>m. filter P (take n xs) = take m (filter P xs)"
proof (induction xs arbitrary: n)
  case Nil then show ?case by simp
next
  case (Cons x xs)
  show ?case
  proof (cases n)
    case 0 then show ?thesis by (intro exI[of _ 0]) simp
  next
    case (Suc k)
    obtain m where m: "filter P (take k xs) = take m (filter P xs)" using Cons.IH by blast
    show ?thesis
    proof (cases "P x")
      case True then show ?thesis using m Suc by (intro exI[of _ "Suc m"]) simp
    next
      case False then show ?thesis using m Suc by (intro exI[of _ m]) simp
    qed
  qed
qed

lemma sorted_reverse_sorted: "sorted (map (\<lambda>x. - key x) (sorted_reverse key xs))"
  unfolding sorted_reverse_def by (rule sorted_sort_key)

lemma sorted_reverse_stable:
  "filter (\<lambda>x. key x = k) (sorted_reverse key xs) = filter (\<lambda>x. key x = k) xs"
  using sort_key_stable[of "\<lambda>x. - key x" "- k" xs] by (simp add: sorted_reverse_def)

lemma take_drop_sorted_le:
  assumes "sorted (map f xs)" "x \<in> set (take n xs)" "y \<in> set (drop n xs)"
  shows "f x \<le> f y"
proof -
  have "sorted (map f (take n xs) @ map f (drop n xs))"
    using assms(1) by (simp flip: map_append)
  then show ?thesis using assms(2,3) by (auto simp: sorted_append)
qed

lemma heapify_two: "heapify [(1::int, 20::int, 1 / 2::real), (1, 10, 1 / 2)] = [(1, 10, 1 / 2), (1, 20, 1 / 2)]"
  by (simp add: heapify_def siftup_def siftdown_def siftup_loop.simps siftdown_loop.simps
      smaller_child_def Let_def)

section \<open>What the candidate loops append\<close>

lemma iloc_Inr: "iloc df idx = Inr row \<longleftrightarrow> idx < length df \<and> row = df ! idx"
  by (auto simp: iloc_def)

lemma fallback_loop_extends:
  "fallback_loop cap st u prev scores idxs recs = Inr out \<Longrightarrow>
     \<exists>new. out = recs @ new \<and> list_all (\<lambda>x. fst x = u \<and> fst (snd x) \<notin> prev) new"
proof (induction idxs arbitrary: recs)
  case Nil
  then show ?case by simp
next
  case (Cons idx rest)
  show ?case
  proof (cases "cap \<le> length recs")
    case True
    then show ?thesis using Cons.prems by simp
  next
    case False
    note notfull = this
    then obtain row where row: "iloc (content_df st) idx = Inr row"
      using Cons.prems by (auto split: sum.splits)
    show ?thesis
    proof (cases "fst row \<in> prev")
      case True
      then have "fallback_loop cap st u prev scores rest recs = Inr out"
        using Cons.prems notfull row by simp
      then show ?thesis by (rule Cons.IH)
    next
      case False
      then obtain s where s: "iloc scores idx = Inr s"
        using Cons.prems notfull row by (auto split: sum.splits)
      then have "fallback_loop cap st u prev scores rest (recs @ [(u, fst row, s)]) = Inr out"
        using Cons.prems notfull row False by simp
      from Cons.IH[OF this] obtain new where
        "out = (recs @ [(u, fst row, s)]) @ new"
        "list_all (\<lambda>x. fst x = u \<and> fst (snd x) \<notin> prev) new" by blast
      then have "out = recs @ ((u, fst row, s) # new) \<and>
          list_all (\<lambda>x. fst x = u \<and> fst (snd x) \<notin> prev) ((u, fst row, s) # new)"
        using False by simp
      then show ?thesis by blast
    qed
  qed
qed

lemma neighbor_loop_extends:
  "neighbor_loop cap st u prev nbs recs = Inr out \<Longrightarrow>
     \<exists>new. out = recs @ new \<and> list_all (\<lambda>x. fst x = u \<and> fst (snd x) \<notin> prev) new"
proof (induction nbs arbitrary: recs)
  case Nil
  then show ?case by simp
next
  case (Cons nb rest)
  obtain distance idx where nb: "nb = (distance, idx)" by (cases nb)
  obtain row where row: "iloc (content_df st) idx = Inr row"
    using Cons.prems nb by (auto split: sum.splits)
  show ?case
  proof (cases "fst row \<in> prev")
    case True
    then have "neighbor_loop cap st u prev rest recs = Inr out"
      using Cons.prems nb row by simp
    then show ?thesis by (rule Cons.IH)
  next
    case False
    note unseen = this
    let ?c = "(u, fst row, 1 - distance)"
    show ?thesis
    proof (cases "cap \<le> length (recs @ [?c])")
      case True
      then have "out = recs @ [?c]"
        using Cons.prems nb row unseen by simp
      then have "out = recs @ [?c] \<and> list_all (\<lambda>x. fst x = u \<and> fst (snd x) \<notin> prev) [?c]"
        using unseen by simp
      then show ?thesis by blast
    next
      case False
      then have "neighbor_loop cap st u prev rest (recs @ [?c]) = Inr out"
        using Cons.prems nb row unseen by simp
      from Cons.IH[OF this] obtain new where
        "out = (recs @ [?c]) @ new"
        "list_all (\<lambda>x. fst x = u \<and> fst (snd x) \<notin> prev) new" by blast
      then have "out = recs @ (?c # new) \<and>
          list_all (\<lambda>x. fst x = u \<and> fst (snd x) \<notin> prev) (?c # new)"
        using unseen by simp
      then show ?thesis by blast
    qed
  qed
qed

lemma cluster_loop_extends:
  "cluster_loop lib cap st u prev uc ucl counts recs = Inr out \<Longrightarrow>
     \<exists>new. out = recs @ new \<and> list_all (\<lambda>x. fst x = u \<and> fst (snd x) \<notin> prev) new"
proof (induction counts arbitrary: recs)
  case Nil
  then show ?case by simp
next
  case (Cons cp rest)
  obtain cluster proportion where cp: "cp = (cluster, proportion)" by (cases cp)
  show ?case
  proof (cases "cluster = - 1")
    case True
    then have "cluster_loop lib cap st u prev uc ucl rest recs = Inr out"
      using Cons.prems cp by simp
    then show ?thesis by (rule Cons.IH)
  next
    case False
    then obtain centroid nbs recs' where
      "neighbor_loop cap st u prev nbs recs = Inr recs'"
      "cluster_loop lib cap st u prev uc ucl rest recs' = Inr out"
      using Cons.prems cp by (auto split: sum.splits)
    from neighbor_loop_extends[OF this(1)] Cons.IH[OF this(2)]
    obtain n1 n2 where "recs' = recs @ n1" "out = recs' @ n2"
      "list_all (\<lambda>x. fst x = u \<and> fst (snd x) \<notin> prev) n1"
      "list_all (\<lambda>x. fst x = u \<and> fst (snd x) \<notin> prev) n2" by blast
    then have "out = recs @ (n1 @ n2) \<and> list_all (\<lambda>x. fst x = u \<and> fst (snd x) \<notin> prev) (n1 @ n2)"
      by simp
    then show ?thesis by blast
  qed
qed

lemma user_candidates_unseen:
  assumes "user_candidates lib cap st u prof scores top_indices = Inr out"
  shows "list_all (\<lambda>x. fst x = u \<and> fst (snd x) \<notin> previous_interactions prof) out"
proof -
  from assms obtain recs where
    first: "(if length (unique (map fst (content prof))) < 5
         then fallback_loop cap st u (previous_interactions prof) scores top_indices []
         else cluster_loop lib cap st u (previous_interactions prof) (content prof)
                (clusters prof) (value_counts_normalize (clusters prof)) []) = Inr recs"
    and second: "fallback_loop cap st u (previous_interactions prof) scores top_indices recs = Inr out"
    by (auto simp: user_candidates_def split: sum.splits)
  have "list_all (\<lambda>x. fst x = u \<and> fst (snd x) \<notin> previous_interactions prof) recs"
    using first fallback_loop_extends[of cap st u "previous_interactions prof" scores top_indices "[]" recs]
      cluster_loop_extends[of lib cap st u "previous_interactions prof" "content prof" "clusters prof"
        "value_counts_normalize (clusters prof)" "[]" recs]
    by (auto split: if_splits)
  then show ?thesis
    using fallback_loop_extends[OF second] by auto
qed

lemma user_block_rows:
  assumes "user_block lib cap st u = Inr rows"
  shows "\<exists>prof. DAList.lookup (user_profiles st) u = Some prof \<and>
           list_all (\<lambda>r. fst r = u \<and> fst (snd r) \<notin> previous_interactions prof) rows"
    and "length rows \<le> cap"
    and "map (\<lambda>r. snd (snd r)) rows = [1..<Suc (length rows)]"
proof -
  from assms obtain prof scores recs where
    p: "DAList.lookup (user_profiles st) u = Some prof"
    and c: "user_candidates lib cap st u prof scores (take 2000 (rev (argsort scores))) = Inr recs"
    and r: "rows = rank_recommendations cap recs"
    by (auto simp: user_block_def split: option.splits sum.splits)
  have ok: "list_all (\<lambda>x. fst x = u \<and> fst (snd x) \<notin> previous_interactions prof) recs"
    using user_candidates_unseen[OF c] .
  have "list_all (\<lambda>r. fst r = u \<and> fst (snd r) \<notin> previous_interactions prof) rows"
    unfolding list_all_iff
  proof
    fix x assume "x \<in> set rows"
    then have "(fst x, fst (snd x), snd (snd x)) \<in> set (rank_recommendations cap recs)"
      using r by simp
    from set_rank_recommendations[OF this] obtain s where "(fst x, fst (snd x), s) \<in> set recs" ..
    then show "fst x = u \<and> fst (snd x) \<notin> previous_interactions prof"
      using ok by (auto simp: list_all_iff)
  qed
  then show "\<exists>prof. DAList.lookup (user_profiles st) u = Some prof \<and>
           list_all (\<lambda>r. fst r = u \<and> fst (snd r) \<notin> previous_interactions prof) rows"
    using p by blast
  show "length rows \<le> cap" by (simp add: r length_rank_recommendations)
  show "map (\<lambda>r. snd (snd r)) rows = [1..<Suc (length rows)]"
    by (simp only: r ranks_rank_recommendations length_rank_recommendations)
qed

section \<open>The output table is the concatenation of the users' blocks\<close>

lemma cosine_top_indices_Inr:
  "cosine_top_indices st keys = Inr d \<longleftrightarrow>
     list_all (\<lambda>u. DAList.lookup (cosine_scores st) u \<noteq> None) keys \<and>
     d = map (\<lambda>u. (u, take 2000 (rev (argsort (the (DAList.lookup (cosine_scores st) u)))))) keys"
proof (induction keys arbitrary: d)
  case Nil
  then show ?case by auto
next
  case (Cons u rest)
  show ?case
  proof (cases "DAList.lookup (cosine_scores st) u")
    case None
    then show ?thesis by simp
  next
    case (Some scores)
    show ?thesis
    proof (cases "cosine_top_indices st rest")
      case (Inl e)
      then have "\<not> list_all (\<lambda>u. DAList.lookup (cosine_scores st) u \<noteq> None) rest"
        using Cons.IH by (metis sum.distinct(1))
      then show ?thesis using Some Inl by simp
    next
      case (Inr d')
      then show ?thesis using Some Cons.IH[of d'] by auto
    qed
  qed
qed

lemma user_block_unfold:
  "user_block lib cap st u =
     (case DAList.lookup (user_profiles st) u of
        None \<Rightarrow> Inl KeyError
      | Some prof \<Rightarrow>
          (case DAList.lookup (cosine_scores st) u of
             None \<Rightarrow> Inl KeyError
           | Some scores \<Rightarrow>
               (case user_candidates lib cap st u prof scores
                       (take 2000 (rev (argsort scores))) of
                  Inl e \<Rightarrow> Inl e
                | Inr recs \<Rightarrow> Inr (rank_recommendations cap recs))))"
  by (simp add: user_block_def)

lemma recommendation_loop_step:
  "recommendation_loop lib cap st
      ((u, take 2000 (rev (argsort (the (DAList.lookup (cosine_scores st) u))))) # d) acc =
     (case user_block lib cap st u of
        Inl e \<Rightarrow> Inl e
      | Inr rows \<Rightarrow> recommendation_loop lib cap st d (acc @ rows))"
  by (simp add: user_block_def split: option.splits sum.splits)

lemma recommendation_loop_blocks:
  "recommendation_loop lib cap st
      (map (\<lambda>u. (u, take 2000 (rev (argsort (the (DAList.lookup (cosine_scores st) u)))))) keys) acc
     = Inr out \<longleftrightarrow>
   list_all (\<lambda>u. \<not> isl (user_block lib cap st u)) keys \<and>
   out = acc @ concat (map (\<lambda>u. projr (user_block lib cap st u)) keys)"
proof (induction keys arbitrary: acc)
  case Nil
  then show ?case by auto
next
  case (Cons u rest)
  show ?case
  proof (cases "user_block lib cap st u")
    case (Inl e)
    then show ?thesis by (simp add: recommendation_loop_step del: recommendation_loop.simps)
  next
    case (Inr rows)
    then show ?thesis
      using Cons.IH[of "acc @ rows"]
      by (simp add: recommendation_loop_step del: recommendation_loop.simps)
  qed
qed

lemma user_block_needs_scores:
  "\<not> isl (user_block lib cap st u) \<Longrightarrow> DAList.lookup (cosine_scores st) u \<noteq> None"
  by (auto simp: user_block_def split: option.splits)

lemma generate_recommendations_Inr:
  "generate_recommendations lib st = Inr st' \<longleftrightarrow>
     list_all (\<lambda>u. \<not> isl (user_block lib total_recommendations st u))
        (map fst (DAList.impl_of (user_profiles st))) \<and>
     st' = st\<lparr>recommendations_df :=
               map (\<lambda>r. (fst r, fst (snd r), snd (snd r), ''content_based''))
                 (concat (map (\<lambda>u. projr (user_block lib total_recommendations st u))
                            (map fst (DAList.impl_of (user_profiles st)))))\<rparr>"
  (is "?L \<longleftrightarrow> ?A \<and> ?B")
proof
  assume L: ?L
  then obtain d allr where d: "cosine_top_indices st (map fst (DAList.impl_of (user_profiles st))) = Inr d"
    and l: "recommendation_loop lib total_recommendations st d [] = Inr allr"
    and s: "st' = st\<lparr>recommendations_df :=
               map (\<lambda>r. (fst r, fst (snd r), snd (snd r), ''content_based'')) allr\<rparr>"
    by (auto simp: generate_recommendations_def split: sum.splits)
  from d have dd: "d = map (\<lambda>u. (u, take 2000 (rev (argsort (the (DAList.lookup (cosine_scores st) u))))))
      (map fst (DAList.impl_of (user_profiles st)))"
    by (simp add: cosine_top_indices_Inr)
  from l[unfolded dd] show "?A \<and> ?B"
    unfolding recommendation_loop_blocks s by simp
next
  assume AB: "?A \<and> ?B"
  define keys where "keys = map fst (DAList.impl_of (user_profiles st))"
  define d where "d = map (\<lambda>u. (u, take 2000 (rev (argsort (the (DAList.lookup (cosine_scores st) u)))))) keys"
  have A: "list_all (\<lambda>u. \<not> isl (user_block lib total_recommendations st u)) keys"
    using AB unfolding keys_def by blast
  have "list_all (\<lambda>u. DAList.lookup (cosine_scores st) u \<noteq> None) keys"
    using A user_block_needs_scores[of lib total_recommendations st]
    by (auto simp: list_all_iff)
  then have dd: "cosine_top_indices st keys = Inr d"
    unfolding cosine_top_indices_Inr d_def by blast
  have l: "recommendation_loop lib total_recommendations st d [] =
      Inr ([] @ concat (map (\<lambda>u. projr (user_block lib total_recommendations st u)) keys))"
    unfolding d_def recommendation_loop_blocks using A by blast
  have "generate_recommendations lib st =
      Inr (st\<lparr>recommendations_df :=
               map (\<lambda>r. (fst r, fst (snd r), snd (snd r), ''content_based''))
                 (concat (map (\<lambda>u. projr (user_block lib total_recommendations st u)) keys))\<rparr>)"
    unfolding generate_recommendations_def keys_def[symmetric] dd using l by simp
  then show ?L using AB unfolding keys_def by simp
qed

lemma filter_concat_blocks:
  assumes "distinct keys" "list_all (\<lambda>k. list_all (\<lambda>r. fst r = k) (B k)) keys"
  shows "filter (\<lambda>r. fst r = u) (concat (map B keys)) = (if u \<in> set keys then B u else [])"
  using assms
proof (induction keys)
  case Nil
  then show ?case by simp
next
  case (Cons k keys)
  have own: "filter (\<lambda>r. fst r = u) (B k) = (if u = k then B k else [])"
    using Cons.prems(2) by (auto simp: list_all_iff filter_empty_conv filter_id_conv)
  show ?case using Cons own by auto
qed

lemma user_rows:
  assumes "generate_recommendations lib st = Inr st'"
  shows "filter (\<lambda>r. fst r = u) (recommendations_df st') =
     (if u \<in> fst ` set (DAList.impl_of (user_profiles st))
      then map (\<lambda>r. (fst r, fst (snd r), snd (snd r), ''content_based''))
             (projr (user_block lib total_recommendations st u))
      else [])"
    and "u \<in> fst ` set (DAList.impl_of (user_profiles st)) \<Longrightarrow>
           \<not> isl (user_block lib total_recommendations st u)"
proof -
  let ?keys = "map fst (DAList.impl_of (user_profiles st))"
  let ?B = "\<lambda>u. projr (user_block lib total_recommendations st u)"
  let ?tag = "\<lambda>r::int \<times> int \<times> nat. (fst r, fst (snd r), snd (snd r), ''content_based'')"
  from assms have ok: "list_all (\<lambda>u. \<not> isl (user_block lib total_recommendations st u)) ?keys"
    and df: "recommendations_df st' = map ?tag (concat (map ?B ?keys))"
    by (simp_all add: generate_recommendations_Inr)
  have own: "list_all (\<lambda>k. list_all (\<lambda>r. fst r = k) (?B k)) ?keys"
    unfolding list_all_iff
  proof
    fix k assume "k \<in> set ?keys"
    then have "\<not> isl (user_block lib total_recommendations st k)"
      using ok by (auto simp: list_all_iff)
    then obtain rows where rows: "user_block lib total_recommendations st k = Inr rows"
      by (cases "user_block lib total_recommendations st k") auto
    from user_block_rows(1)[OF rows] show "\<forall>r\<in>set (?B k). fst r = k"
      using rows by (auto simp: list_all_iff)
  qed
  have "filter (\<lambda>r. fst r = u) (recommendations_df st') =
      map ?tag (filter (\<lambda>r. fst r = u) (concat (map ?B ?keys)))"
    unfolding df by (simp add: filter_map comp_def)
  also have "\<dots> = map ?tag (if u \<in> set ?keys then ?B u else [])"
    using filter_concat_blocks[OF _ own, of u] by simp
  finally show "filter (\<lambda>r. fst r = u) (recommendations_df st') =
     (if u \<in> fst ` set (DAList.impl_of (user_profiles st))
      then map ?tag (?B u) else [])"
    by simp
  show "u \<in> fst ` set (DAList.impl_of (user_profiles st)) \<Longrightarrow>
           \<not> isl (user_block lib total_recommendations st u)"
    using ok by (auto simp: list_all_iff)
qed

section \<open>Profile building: what each batch stores, and termination\<close>

lemma set_unique [simp]: "set (unique xs) = set xs"
  by (simp add: unique_def)

lemma distinct_unique [simp]: "distinct (unique xs)"
  by (simp add: unique_def)

lemma apply_user_frames [simp]:
  "content_df (apply_user lib st u) = content_df st"
  "interactions_df (apply_user lib st u) = interactions_df st"
  "all_vectors (apply_user lib st u) = all_vectors st"
  "users_df (apply_user lib st u) = users_df st"
  "recommendations_df (apply_user lib st u) = recommendations_df st"
  by (simp_all add: apply_user_def)

lemma apply_user_lookup:
  "DAList.lookup (user_profiles (apply_user lib st u)) k =
     (if k = u then Some (profile_of lib (content_df st) (interactions_df st) k)
      else DAList.lookup (user_profiles st) k)"
  "DAList.lookup (cosine_scores (apply_user lib st u)) k =
     (if k = u then Some (scores_of lib (content_df st) (interactions_df st) (all_vectors st) k)
      else DAList.lookup (cosine_scores st) k)"
  by (auto simp: apply_user_def DAList.lookup_update)

lemma filter_filter_imp:
  "(\<And>x. P x \<Longrightarrow> Q x) \<Longrightarrow> filter P (filter Q xs) = filter P xs"
  by (induction xs) auto

lemma user_scores_error:
  "user_scores lib cdf idf av u = Inl e \<Longrightarrow> e = ValueError"
  by (auto simp: user_scores_def positive_vector_def vstack_def cosine_similarity_row_def
      split: sum.splits if_splits list.splits)

lemma user_scores_isl:
  "isl (user_scores lib cdf idf av u) \<longleftrightarrow> user_scores lib cdf idf av u = Inl ValueError"
  using user_scores_error[of lib cdf idf av u] by (cases "user_scores lib cdf idf av u") auto

lemma scores_of_Inr:
  "user_scores lib cdf idf av u = Inr scores \<Longrightarrow> scores_of lib cdf idf av u = scores"
  by (simp add: scores_of_def)

lemma process_user_eq_apply_user:
  assumes u: "u \<in> set chunk"
    and bi: "bi = filter (\<lambda>r. fst r \<in> set chunk) (interactions_df st)"
    and bc: "bc = filter (\<lambda>row. fst row \<in> set (map (\<lambda>r. fst (snd r)) bi)) (content_df st)"
  shows "process_user lib bc st (u, filter (\<lambda>r. fst r = u) bi) =
     (if isl (user_scores lib (content_df st) (interactions_df st) (all_vectors st) u)
      then Inl ValueError else Inr (apply_user lib st u))"
proof -
  let ?idf = "interactions_df st"
  have ints: "filter (\<lambda>r. fst r = u) bi = filter (\<lambda>r. fst r = u) ?idf"
    unfolding bi using u by (intro filter_filter_imp) simp
  have good: "set (map (\<lambda>r. fst (snd r))
                 (filter (\<lambda>r. snd (snd r) \<in> {4, 5}) (filter (\<lambda>r. fst r = u) ?idf))) = good_ids ?idf u"
    by (auto simp: good_ids_def)
  have neg: "set (map (\<lambda>r. fst (snd r))
                 (filter (\<lambda>r. snd (snd r) \<in> {1, 2}) (filter (\<lambda>r. fst r = u) ?idf))) = negative_ids ?idf u"
    by (auto simp: negative_ids_def)
  have sub: "\<And>row. fst row \<in> good_ids ?idf u \<Longrightarrow> fst row \<in> set (map (\<lambda>r. fst (snd r)) bi)"
    unfolding bi good_ids_def using u by auto
  have gc: "filter (\<lambda>row. fst row \<in> good_ids ?idf u) bc = good_content_of (content_df st) ?idf u"
    unfolding bc good_content_of_def using sub by (intro filter_filter_imp) simp
  have pu: "process_user lib bc st (u, filter (\<lambda>r. fst r = u) bi) =
     (case user_scores lib (content_df st) ?idf (all_vectors st) u of
        Inl e \<Rightarrow> Inl e
      | Inr scores \<Rightarrow>
          Inr (st\<lparr>cosine_scores := DAList.update u scores (cosine_scores st),
                  user_profiles := DAList.update u (profile_of lib (content_df st) ?idf u)
                                     (user_profiles st)\<rparr>))"
    unfolding process_user_def Let_def fst_conv snd_conv ints
    unfolding good set_unique neg gc
    by (simp add: user_scores_def profile_of_def split: sum.splits)
  show ?thesis
  proof (cases "user_scores lib (content_df st) ?idf (all_vectors st) u")
    case (Inl e)
    then show ?thesis using user_scores_error[OF Inl] by (simp add: pu)
  next
    case (Inr scores)
    then show ?thesis by (simp add: pu apply_user_def scores_of_Inr)
  qed
qed

lemma user_loop_eq:
  assumes "set us \<subseteq> set chunk"
    and "bi = filter (\<lambda>r. fst r \<in> set chunk) (interactions_df st)"
    and "bc = filter (\<lambda>row. fst row \<in> set (map (\<lambda>r. fst (snd r)) bi)) (content_df st)"
    and "content_df s = content_df st" "interactions_df s = interactions_df st"
    and "all_vectors s = all_vectors st"
  shows "user_loop lib bc s (map (\<lambda>u. (u, filter (\<lambda>r. fst r = u) bi)) us) =
     (if list_all (\<lambda>k. \<not> isl (user_scores lib (content_df st) (interactions_df st)
                               (all_vectors st) k)) us
      then Inr (foldl (apply_user lib) s us) else Inl ValueError)"
  using assms
proof (induction us arbitrary: s)
  case Nil
  then show ?case by simp
next
  case (Cons u us)
  have pu: "process_user lib bc s (u, filter (\<lambda>r. fst r = u) bi) =
     (if isl (user_scores lib (content_df st) (interactions_df st) (all_vectors st) u)
      then Inl ValueError else Inr (apply_user lib s u))"
    using Cons.prems process_user_eq_apply_user[of u chunk bi s bc lib] by auto
  show ?case
  proof (cases "isl (user_scores lib (content_df st) (interactions_df st) (all_vectors st) u)")
    case True
    then show ?thesis by (simp add: pu)
  next
    case False
    have "user_loop lib bc (apply_user lib s u) (map (\<lambda>u. (u, filter (\<lambda>r. fst r = u) bi)) us) =
       (if list_all (\<lambda>k. \<not> isl (user_scores lib (content_df st) (interactions_df st)
                               (all_vectors st) k)) us
        then Inr (foldl (apply_user lib) (apply_user lib s u) us) else Inl ValueError)"
      using Cons.prems by (intro Cons.IH) auto
    then show ?thesis using False by (simp add: pu)
  qed
qed

lemma set_batch_users:
  "set (batch_users st chunk) = {k \<in> set chunk. k \<in> fst ` set (interactions_df st)}"
  by (auto simp: batch_users_def)

lemma users_ok_batch_users:
  "list_all (\<lambda>k. \<not> isl (user_scores lib (content_df st) (interactions_df st) (all_vectors st) k))
     (batch_users st chunk) \<longleftrightarrow> users_ok lib st chunk"
  by (auto simp: users_ok_def list_all_iff set_batch_users)

lemma process_batch_eq:
  "process_batch lib st chunk =
     (if users_ok lib st chunk then Inr (foldl (apply_user lib) st (batch_users st chunk))
      else Inl ValueError)"
proof -
  have "process_batch lib st chunk =
     (if list_all (\<lambda>k. \<not> isl (user_scores lib (content_df st) (interactions_df st)
                               (all_vectors st) k)) (batch_users st chunk)
      then Inr (foldl (apply_user lib) st (batch_users st chunk)) else Inl ValueError)"
    unfolding process_batch_def Let_def batch_users_def
    by (rule user_loop_eq[where chunk = chunk]) auto
  then show ?thesis by (simp only: users_ok_batch_users)
qed

lemma foldl_apply_user_frames [simp]:
  "content_df (foldl (apply_user lib) s us) = content_df s"
  "interactions_df (foldl (apply_user lib) s us) = interactions_df s"
  "all_vectors (foldl (apply_user lib) s us) = all_vectors s"
  "users_df (foldl (apply_user lib) s us) = users_df s"
  "recommendations_df (foldl (apply_user lib) s us) = recommendations_df s"
  by (induction us arbitrary: s) simp_all

lemma foldl_apply_user_lookup:
  "DAList.lookup (user_profiles (foldl (apply_user lib) s us)) k =
     (if k \<in> set us then Some (profile_of lib (content_df s) (interactions_df s) k)
      else DAList.lookup (user_profiles s) k)"
  "DAList.lookup (cosine_scores (foldl (apply_user lib) s us)) k =
     (if k \<in> set us then Some (scores_of lib (content_df s) (interactions_df s) (all_vectors s) k)
      else DAList.lookup (cosine_scores s) k)"
  by (induction us arbitrary: s) (auto simp: apply_user_lookup)

lemma process_batch_frames:
  assumes "process_batch lib st chunk = Inr st1"
  shows "content_df st1 = content_df st" "interactions_df st1 = interactions_df st"
    "all_vectors st1 = all_vectors st" "users_df st1 = users_df st"
    "recommendations_df st1 = recommendations_df st"
  using assms by (auto simp: process_batch_eq split: if_splits)

lemma process_batch_lookup:
  assumes "process_batch lib st chunk = Inr st1"
  shows "DAList.lookup (user_profiles st1) k =
     (if k \<in> set chunk \<and> k \<in> fst ` set (interactions_df st)
      then Some (profile_of lib (content_df st) (interactions_df st) k)
      else DAList.lookup (user_profiles st) k)"
  "DAList.lookup (cosine_scores st1) k =
     (if k \<in> set chunk \<and> k \<in> fst ` set (interactions_df st)
      then Some (scores_of lib (content_df st) (interactions_df st) (all_vectors st) k)
      else DAList.lookup (cosine_scores st) k)"
proof -
  have st1: "st1 = foldl (apply_user lib) st (batch_users st chunk)"
    using assms by (simp add: process_batch_eq split: if_splits)
  have mem: "k \<in> set (batch_users st chunk) \<longleftrightarrow>
      k \<in> set chunk \<and> k \<in> fst ` set (interactions_df st)"
    by (simp add: set_batch_users)
  show "DAList.lookup (user_profiles st1) k =
     (if k \<in> set chunk \<and> k \<in> fst ` set (interactions_df st)
      then Some (profile_of lib (content_df st) (interactions_df st) k)
      else DAList.lookup (user_profiles st) k)"
    unfolding st1 foldl_apply_user_lookup mem ..
  show "DAList.lookup (cosine_scores st1) k =
     (if k \<in> set chunk \<and> k \<in> fst ` set (interactions_df st)
      then Some (scores_of lib (content_df st) (interactions_df st) (all_vectors st) k)
      else DAList.lookup (cosine_scores st) k)"
    unfolding st1 foldl_apply_user_lookup mem ..
qed

lemma users_ok_append:
  "users_ok lib st (xs @ ys) \<longleftrightarrow> users_ok lib st xs \<and> users_ok lib st ys"
  by (simp add: users_ok_def)

lemma users_ok_frames:
  assumes "content_df s = content_df st" "interactions_df s = interactions_df st"
    "all_vectors s = all_vectors st"
  shows "users_ok lib s us = users_ok lib st us"
  by (simp add: users_ok_def assms)

lemma profile_loop_terminates:
  assumes "1 \<le> batch_size"
  shows "\<exists>r. profile_loop lib batch_size st user_ids (int (length user_ids)) = Some r \<and>
           (if users_ok lib st user_ids
            then \<exists>st'. r = Inr st' \<and> profiles_done lib st user_ids st'
            else r = Inl ValueError)"
proof (induction "length user_ids" arbitrary: user_ids st rule: less_induct)
  case less
  show ?case
  proof (cases "user_ids = []")
    case True
    then show ?thesis
      by (subst profile_loop.simps) (simp add: profiles_done_def users_ok_def)
  next
    case False
    define k where "k = min batch_size (int (length user_ids))"
    have k: "1 \<le> k" "k \<le> int (length user_ids)"
      using assms False by (auto simp: k_def Suc_leI)
    define chunk where "chunk = take (nat k) user_ids"
    define rest where "rest = drop (nat k) user_ids"
    have sl: "slice_to user_ids k = chunk" "slice_from user_ids k = rest"
      using k by (simp_all add: slice_to_def slice_from_def chunk_def rest_def)
    have len: "int (length user_ids) - k = int (length rest)"
      using k by (simp add: rest_def)
    have shorter: "length rest < length user_ids"
      using k False by (simp add: rest_def)
    have ok: "users_ok lib st user_ids \<longleftrightarrow> users_ok lib st chunk \<and> users_ok lib st rest"
      using users_ok_append[of lib st chunk rest] by (simp add: chunk_def rest_def)
    have sets: "set user_ids = set chunk \<union> set rest"
      unfolding chunk_def rest_def by (metis append_take_drop_id set_append)
    show ?thesis
    proof (cases "users_ok lib st chunk")
      case bad: False
      have "profile_loop lib batch_size st user_ids (int (length user_ids)) = Some (Inl ValueError)"
        using False bad
        by (subst profile_loop.simps) (simp add: k_def[symmetric] sl len process_batch_eq)
      then show ?thesis using bad ok by simp
    next
      case good: True
      define st1 where "st1 = foldl (apply_user lib) st (batch_users st chunk)"
      have pb: "process_batch lib st chunk = Inr st1"
        using good by (simp add: process_batch_eq st1_def)
      have step: "profile_loop lib batch_size st user_ids (int (length user_ids)) =
          profile_loop lib batch_size st1 rest (int (length rest))"
        using False by (subst profile_loop.simps) (simp add: k_def[symmetric] sl len pb)
      have ok1: "users_ok lib st1 rest = users_ok lib st rest"
        by (rule users_ok_frames) (simp_all add: st1_def)
      from less[OF shorter, of st1] obtain r where
        r: "profile_loop lib batch_size st1 rest (int (length rest)) = Some r"
        and fin: "if users_ok lib st1 rest
            then \<exists>st'. r = Inr st' \<and> profiles_done lib st1 rest st' else r = Inl ValueError"
        by blast
      show ?thesis
      proof (cases "users_ok lib st rest")
        case False
        then show ?thesis using step r fin ok ok1 by simp
      next
        case True
        then obtain st' where st': "r = Inr st'" and pd: "profiles_done lib st1 rest st'"
          using fin ok1 by auto
        have "profiles_done lib st user_ids st'"
          using pd unfolding profiles_done_def sets
          by (simp add: process_batch_lookup[OF pb] process_batch_frames[OF pb])
        then show ?thesis using step r st' True good ok by simp
      qed
    qed
  qed
qed

lemma generate_user_profiles_terminates:
  assumes "1 \<le> batch_size"
  shows "\<exists>r. generate_user_profiles lib batch_size st = Some r \<and>
           (if users_ok lib st (unique (map fst (interactions_df st)))
            then \<exists>st'. r = Inr st' \<and>
                   profiles_done lib st (unique (map fst (interactions_df st))) st'
            else r = Inl ValueError)"
  unfolding generate_user_profiles_def using profile_loop_terminates[OF assms] by blast

lemma users_ok_unique:
  "users_ok lib st (unique (map fst (interactions_df st))) \<longleftrightarrow>
     (\<forall>k \<in> fst ` set (interactions_df st).
        \<not> isl (user_scores lib (content_df st) (interactions_df st) (all_vectors st) k))"
  by (auto simp: users_ok_def list_all_iff)

section \<open>Dimensions: when the scores of a user do not raise\<close>

lemma vstack_Inr: "vstack vs = Inr m \<longleftrightarrow> m = vs \<and> vs \<noteq> [] \<and> list_all (\<lambda>w. length w = length (hd vs)) vs"
  by (cases vs) (auto simp: vstack_def)

lemma length_foldl_map2:
  "list_all (\<lambda>w. length w = length v) rest \<Longrightarrow>
     length (foldl (\<lambda>acc w. map2 (+) acc w) v rest) = length v"
  by (induction rest arbitrary: v) auto

lemma length_mean_axis0:
  assumes "vs \<noteq> []" "list_all (\<lambda>w. length w = d) vs"
  shows "length (mean_axis0 vs) = d"
proof -
  obtain v rest where vs: "vs = v # rest" using assms(1) by (cases vs) auto
  have "list_all (\<lambda>w. length w = length v) rest" "length v = d"
    using assms(2) by (auto simp: vs list_all_iff)
  then show ?thesis by (simp add: mean_axis0_def vs length_foldl_map2)
qed

lemma vstack_uniform:
  assumes "vs \<noteq> []" "list_all (\<lambda>w. length w = d) vs"
  shows "vstack vs = Inr vs"
proof -
  obtain v rest where vs: "vs = v # rest" using assms(1) by (cases vs) auto
  then show ?thesis using assms(2) by (auto simp: vstack_def list_all_iff)
qed

lemma vstack_shape:
  assumes "vstack vs = Inr m"
  shows "m = vs" "vs \<noteq> []" "list_all (\<lambda>w. length w = shape1 m) vs"
  using assms by (auto simp: vstack_Inr shape1_def split: list.splits)

lemma positive_vector_uniform:
  assumes "list_all (\<lambda>w. length w = shape1 av) gv"
  shows "\<exists>v. positive_vector av gv = Inr v \<and> length v = shape1 av"
proof (cases "gv = []")
  case True
  then show ?thesis by (simp add: positive_vector_def)
next
  case False
  then show ?thesis
    using vstack_uniform[OF False assms] length_mean_axis0[OF False assms]
    by (simp add: positive_vector_def)
qed

lemma good_vectors_uniform:
  assumes "vstack (map snd cdf) = Inr av"
  shows "list_all (\<lambda>w. length w = shape1 av) (map snd (good_content_of cdf idf u))"
  using vstack_shape(3)[OF assms] by (auto simp: list_all_iff good_content_of_def)

lemma user_scores_Inr:
  assumes v: "vstack (map snd cdf) = Inr av" and d: "0 < shape1 av"
  shows "\<exists>v. positive_vector av (map snd (good_content_of cdf idf u)) = Inr v \<and>
             length v = shape1 av \<and>
             user_scores lib cdf idf av u = Inr (map (cosine_similarity lib v) av)"
proof -
  obtain uv where uv: "positive_vector av (map snd (good_content_of cdf idf u)) = Inr uv"
    and len: "length uv = shape1 av"
    using positive_vector_uniform[OF good_vectors_uniform[OF v]] by blast
  have av: "av \<noteq> []" "list_all (\<lambda>w. length w = length uv) av"
    using vstack_shape[OF v] len by auto
  have "uv \<noteq> []" using len d by auto
  then have "cosine_similarity_row lib uv av = Inr (map (cosine_similarity lib uv) av)"
    using av by (simp add: cosine_similarity_row_def)
  then show ?thesis using uv len by (auto simp: user_scores_def)
qed

lemma length_scores_of:
  assumes "vstack (map snd cdf) = Inr av" "0 < shape1 av"
  shows "length (scores_of lib cdf idf av u) = length cdf"
proof -
  from user_scores_Inr[OF assms, of idf u lib] obtain v where
    "user_scores lib cdf idf av u = Inr (map (cosine_similarity lib v) av)" by blast
  moreover have "length av = length cdf" using vstack_shape(1)[OF assms(1)] by simp
  ultimately show ?thesis by (simp add: scores_of_def)
qed

lemma users_ok_stacked:
  assumes "vstack (map snd (content_df st)) = Inr (all_vectors st)" "0 < shape1 (all_vectors st)"
  shows "users_ok lib st us"
  unfolding users_ok_def list_all_iff
proof
  fix k
  from user_scores_Inr[OF assms, of "interactions_df st" k lib]
  show "\<not> isl (user_scores lib (content_df st) (interactions_df st) (all_vectors st) k)"
    by auto
qed

text \<open>Without a feature nobody's scores can be computed: the similarity raises for
  every user.\<close>
lemma user_scores_no_feature:
  assumes "shape1 av = 0" "list_all (\<lambda>w. length w = shape1 av) (map snd cdf)"
  shows "user_scores lib cdf idf av u = Inl ValueError"
proof -
  have "list_all (\<lambda>w. length w = shape1 av) (map snd (good_content_of cdf idf u))"
    using assms(2) by (auto simp: list_all_iff good_content_of_def)
  from positive_vector_uniform[OF this] obtain v where
    "positive_vector av (map snd (good_content_of cdf idf u)) = Inr v" "length v = 0"
    using assms(1) by auto
  then show ?thesis by (simp add: user_scores_def cosine_similarity_row_def)
qed

lemma generate_user_profiles_Inr:
  assumes "1 \<le> batch_size" "generate_user_profiles lib batch_size st = Some (Inr st')"
  shows "profiles_done lib st (unique (map fst (interactions_df st))) st'"
    and "users_ok lib st (unique (map fst (interactions_df st)))"
  using generate_user_profiles_terminates[OF assms(1), of lib st] assms(2)
  by (auto split: if_splits)

lemma generate_user_profiles_stacked:
  assumes "1 \<le> batch_size"
    and "vstack (map snd (content_df st)) = Inr (all_vectors st)" "0 < shape1 (all_vectors st)"
  shows "\<exists>st'. generate_user_profiles lib batch_size st = Some (Inr st') \<and>
           profiles_done lib st (unique (map fst (interactions_df st))) st'"
  using generate_user_profiles_terminates[OF assms(1), of lib st]
    users_ok_stacked[OF assms(2,3), of lib "unique (map fst (interactions_df st))"]
  by auto

section \<open>The fallback pool and the entry point\<close>

lemma mset_argsort: "mset (argsort xs) = mset [0..<length xs]"
proof -
  have "mset (argsort xs) = image_mset snd (mset (sort_key fst (zip xs [0..<length xs])))"
    by (simp add: argsort_def)
  also have "\<dots> = image_mset snd (mset (zip xs [0..<length xs]))"
    by (simp only: mset_sort)
  also have "\<dots> = mset (map snd (zip xs [0..<length xs]))"
    by (simp only: mset_map)
  also have "map snd (zip xs [0..<length xs]) = [0..<length xs]"
    by (simp only: map_snd_zip length_upt diff_zero)
  finally show ?thesis .
qed

lemma set_argsort [simp]: "set (argsort xs) = {0..<length xs}"
  using mset_argsort[of xs] by (metis set_mset_mset set_upt)

lemma distinct_argsort [simp]: "distinct (argsort xs)"
  using mset_argsort[of xs] by (metis distinct_upt mset_eq_imp_distinct_iff)

lemma length_argsort [simp]: "length (argsort xs) = length xs"
  using mset_argsort[of xs] by (metis size_mset length_upt diff_zero)

lemma top_indices_small:
  "length scores \<le> 2000 \<Longrightarrow> set (take 2000 (rev (argsort scores))) = {0..<length scores}"
  "distinct (take 2000 (rev (argsort scores)))"
  "list_all (\<lambda>i. i < length scores) (take 2000 (rev (argsort scores)))"
  by (auto simp: list_all_iff dest: in_set_takeD)

lemma fallback_loop_filter:
  assumes "list_all (\<lambda>i. i < length (content_df st) \<and> i < length scores) idxs"
  shows "fallback_loop cap st u prev scores idxs recs =
     Inr (recs @ take (cap - length recs)
                   (map (\<lambda>i. (u, fst (content_df st ! i), scores ! i))
                      (filter (\<lambda>i. fst (content_df st ! i) \<notin> prev) idxs)))"
  using assms
proof (induction idxs arbitrary: recs)
  case Nil
  then show ?case by simp
next
  case (Cons idx rest)
  have v: "iloc (content_df st) idx = Inr (content_df st ! idx)" "iloc scores idx = Inr (scores ! idx)"
    using Cons.prems by (simp_all add: iloc_def)
  have r: "list_all (\<lambda>i. i < length (content_df st) \<and> i < length scores) rest"
    using Cons.prems by simp
  show ?case
  proof (cases "cap \<le> length recs")
    case True
    then show ?thesis by simp
  next
    case False
    then obtain n where n: "cap - length recs = Suc n"
      by (metis Suc_diff_Suc not_le)
    then have n': "cap - Suc (length recs) = n" by simp
    show ?thesis
      using False v Cons.IH[OF r] by (simp add: n n')
  qed
qed

lemma filter_single:
  assumes "distinct xs" "a \<in> set xs" "\<And>x. x \<in> set xs \<Longrightarrow> P x \<longleftrightarrow> x = a"
  shows "filter P xs = [a]"
proof -
  have "filter P xs = filter (\<lambda>x. x = a) xs"
    using assms(3) by (intro filter_cong) auto
  also have "\<dots> = [a]"
    using assms(1,2) by (induction xs) (auto simp: filter_empty_conv)
  finally show ?thesis .
qed

lemma get_recommendations_Some_Inr:
  "get_recommendations lib st = Some (Inr st') \<longleftrightarrow>
     (\<exists>m st1. vstack (map snd (content_df st)) = Inr m \<and>
        generate_user_profiles lib 20 (st\<lparr>all_vectors := m\<rparr>) = Some (Inr st1) \<and>
        generate_recommendations lib st1 = Inr st')"
  by (auto simp: get_recommendations_def split: sum.splits option.splits)

lemma alist_keys: "fst ` set (DAList.impl_of d) = {k. DAList.lookup d k \<noteq> None}"
  by (auto simp: DAList.lookup.rep_eq map_of_eq_None_iff image_iff)

lemma alist_keys_single:
  assumes "\<And>k. DAList.lookup d k \<noteq> None \<longleftrightarrow> k = a"
  shows "map fst (DAList.impl_of d) = [a]"
proof -
  have s: "set (map fst (DAList.impl_of d)) = {a}"
    using alist_keys[of d] assms by auto
  have di: "distinct (map fst (DAList.impl_of d))" by simp
  from s di show ?thesis
    by (metis distinct_card card_1_singleton_iff length_0_conv length_Suc_conv One_nat_def
        list.simps(15) set_empty singleton_insert_inj_eq' insert_absorb2 empty_set)
qed

section \<open>Example A, run for every library instance\<close>

lemma heapify_pair_same: "heapify [c, c] = [c, c]"
  by (simp add: heapify_def siftup_def siftdown_def siftup_loop.simps siftdown_loop.simps
      smaller_child_def Let_def)

lemma rank_pair_same:
  "rank_recommendations 50 [(u, c, s), (u, c, s)] = [(u, c, 1), (u, c, 2)]"
  by (simp add: rank_recommendations_eq heapify_pair_same rank_insertion_order_def
      sorted_reverse_def Let_def)

lemma user_candidates_few:
  assumes few: "length (unique (map fst (content prof))) < 5"
    and valid: "list_all (\<lambda>i. i < length (content_df st) \<and> i < length scores) idxs"
  shows "user_candidates lib cap st u prof scores idxs =
    (let pool = map (\<lambda>i. (u, fst (content_df st ! i), scores ! i))
                  (filter (\<lambda>i. fst (content_df st ! i) \<notin> previous_interactions prof) idxs)
     in Inr (take cap pool @ take (cap - length (take cap pool)) pool))"
  using few by (simp add: user_candidates_def fallback_loop_filter[OF valid] Let_def)

lemma example_A_block:
  assumes cdf: "content_df st = [(101, [1, 0]), (102, [0, 1]), (103, [1, 1]), (104, [- 1, 0])]"
    and p: "DAList.lookup (user_profiles st) 1 =
        Some (profile_of lib (content_df st) [(1, 101, 5), (1, 102, 5), (1, 103, 1)] 1)"
    and s: "DAList.lookup (cosine_scores st) 1 = Some scores"
    and len: "length scores = 4"
  shows "user_block lib 50 st 1 = Inr [(1, 104, 1), (1, 104, 2)]"
proof -
  let ?prof = "profile_of lib (content_df st) [(1, 101, 5), (1, 102, 5), (1, 103, 1)] 1"
  let ?top = "take 2000 (rev (argsort scores))"
  have prev: "\<And>X. previous_interactions
      (profile_of lib X [(1, 101, 5), (1, 102, 5), (1, 103, 1)] 1) = {101, 102, 103}"
    by (auto simp: profile_of_def good_ids_def negative_ids_def)
  have cont: "content ?prof = [(101, [1, 0]), (102, [0, 1])]"
    by (simp add: profile_of_def good_content_of_def good_ids_def cdf)
  have few: "length (unique (map fst (content ?prof))) < 5"
    by (simp add: cont unique_def)
  have tp: "set ?top = {0..<4}" "distinct ?top" "list_all (\<lambda>i. i < length scores) ?top"
    using top_indices_small[of scores] len by simp_all
  have valid: "list_all (\<lambda>i. i < length (content_df st) \<and> i < length scores) ?top"
    using tp(3) by (auto simp: cdf len list_all_iff)
  have "filter (\<lambda>i. fst (content_df st ! i) \<notin> previous_interactions ?prof) ?top = [3]"
  proof (rule filter_single)
    show "distinct ?top" by (rule tp(2))
    show "3 \<in> set ?top" unfolding tp(1) by simp
    fix x assume "x \<in> set ?top"
    then have "x < 4" unfolding tp(1) by simp
    then have "x = 0 \<or> x = 1 \<or> x = 2 \<or> x = 3" by arith
    then show "(fst (content_df st ! x) \<notin> previous_interactions ?prof) = (x = 3)"
      by (auto simp: prev cdf)
  qed
  then have "user_candidates lib 50 st 1 ?prof scores ?top =
      (let pool = map (\<lambda>i. (1, fst (content_df st ! i), scores ! i)) [3]
       in Inr (take 50 pool @ take (50 - length (take 50 pool)) pool))"
    using user_candidates_few[OF few valid, of lib 50 1] by simp
  then have "user_candidates lib 50 st 1 ?prof scores ?top =
      Inr [(1, 104, scores ! 3), (1, 104, scores ! 3)]"
    by (simp add: cdf)
  then show ?thesis
    by (simp add: user_block_def p s rank_pair_same)
qed

lemma example_A_evaluated:
  "returned_table lib example_A =
     Some (Inr [(1, 104, 1, ''content_based''), (1, 104, 2, ''content_based'')])"
proof -
  define m :: "vector list" where "m = [[1, 0], [0, 1], [1, 1], [- 1, 0]]"
  define st0 where "st0 = example_A\<lparr>all_vectors := m\<rparr>"
  have vs: "vstack (map snd (content_df example_A)) = Inr m"
    by (simp add: example_A_def ClusteredKNN_init_def vstack_def m_def)
  have stacked: "vstack (map snd (content_df st0)) = Inr (all_vectors st0)"
      "0 < shape1 (all_vectors st0)"
    using vs by (simp_all add: st0_def m_def shape1_def)
  obtain st1 where st1: "generate_user_profiles lib 20 st0 = Some (Inr st1)"
    and pd: "profiles_done lib st0 (unique (map fst (interactions_df st0))) st1"
    using generate_user_profiles_stacked[OF _ stacked, of 20 lib] by auto
  have idf: "interactions_df st0 = [(1, 101, 5), (1, 102, 5), (1, 103, 1)]"
    and cdf0: "content_df st0 = [(101, [1, 0]), (102, [0, 1]), (103, [1, 1]), (104, [- 1, 0])]"
    and av0: "all_vectors st0 = m"
    and e0: "user_profiles st0 = DAList.empty" "cosine_scores st0 = DAList.empty"
    by (simp_all add: st0_def example_A_def ClusteredKNN_init_def)
  have cdf: "content_df st1 = [(101, [1, 0]), (102, [0, 1]), (103, [1, 1]), (104, [- 1, 0])]"
    using pd cdf0 by (simp add: profiles_done_def)
  have lp: "\<And>k. DAList.lookup (user_profiles st1) k =
      (if k = 1 then Some (profile_of lib (content_df st1) [(1, 101, 5), (1, 102, 5), (1, 103, 1)] 1) else None)"
    using pd unfolding profiles_done_def idf e0 by auto
  have ls: "DAList.lookup (cosine_scores st1) 1 =
      Some (scores_of lib (content_df st0) (interactions_df st0) m 1)"
    using pd unfolding profiles_done_def idf e0 av0 by (auto simp: idf)
  have len: "length (scores_of lib (content_df st0) (interactions_df st0) m 1) = 4"
    using length_scores_of[OF stacked, of lib "interactions_df st0" 1] by (simp add: av0 cdf0)
  have keys: "map fst (DAList.impl_of (user_profiles st1)) = [1]"
    by (rule alist_keys_single) (simp add: lp)
  have block: "user_block lib 50 st1 1 = Inr [(1, 104, 1), (1, 104, 2)]"
    using example_A_block[OF cdf _ ls len] lp by simp
  have "generate_recommendations lib st1 =
      Inr (st1\<lparr>recommendations_df :=
                  [(1, 104, 1, ''content_based''), (1, 104, 2, ''content_based'')]\<rparr>)"
    unfolding generate_recommendations_Inr keys
    by (simp add: total_recommendations_def block)
  then show ?thesis
    unfolding returned_table_def get_recommendations_def vs
    using st1 by (simp add: st0_def)
qed

section \<open>Rows of one user in the returned table\<close>

lemma returned_table_Inr:
  "returned_table lib st = Some (Inr table) \<longleftrightarrow>
     (\<exists>st'. get_recommendations lib st = Some (Inr st') \<and> recommendations_df st' = table)"
  by (cases "get_recommendations lib st"; cases "the (get_recommendations lib st)")
     (auto simp: returned_table_def)

lemma generate_recommendations_keeps:
  assumes "generate_recommendations lib st = Inr st'"
  shows "user_profiles st' = user_profiles st" "cosine_scores st' = cosine_scores st"
    "content_df st' = content_df st" "interactions_df st' = interactions_df st"
    "all_vectors st' = all_vectors st" "users_df st' = users_df st"
  using assms by (simp_all add: generate_recommendations_Inr)

lemma table_rows_of_user:
  assumes "generate_recommendations lib st = Inr st'"
  shows "length (filter (\<lambda>r. fst r = u) (recommendations_df st')) \<le> total_recommendations"
    and "map (\<lambda>r. fst (snd (snd r))) (filter (\<lambda>r. fst r = u) (recommendations_df st'))
          = [1..<Suc (length (filter (\<lambda>r. fst r = u) (recommendations_df st')))]"
proof -
  let ?rows = "filter (\<lambda>r. fst r = u) (recommendations_df st')"
  let ?tag = "\<lambda>r::int \<times> int \<times> nat. (fst r, fst (snd r), snd (snd r), ''content_based'')"
  have "length ?rows \<le> total_recommendations \<and>
        map (\<lambda>r. fst (snd (snd r))) ?rows = [1..<Suc (length ?rows)]"
  proof (cases "u \<in> fst ` set (DAList.impl_of (user_profiles st))")
    case False
    then show ?thesis using user_rows(1)[OF assms, of u] by simp
  next
    case True
    then obtain rows where b: "user_block lib total_recommendations st u = Inr rows"
      using user_rows(2)[OF assms, of u]
      by (cases "user_block lib total_recommendations st u") auto
    have r: "?rows = map ?tag rows"
      using user_rows(1)[OF assms, of u] True b by simp
    have "map (\<lambda>r. fst (snd (snd r))) (map ?tag rows) = map (\<lambda>r. snd (snd r)) rows"
      by (simp add: comp_def)
    then show ?thesis
      unfolding r using user_block_rows(2,3)[OF b] by (simp del: upt_Suc)
  qed
  then show "length ?rows \<le> total_recommendations"
    and "map (\<lambda>r. fst (snd (snd r))) ?rows = [1..<Suc (length ?rows)]" by blast+
qed

lemma table_row_unseen:
  assumes "generate_recommendations lib st = Inr st'"
    and "(u, c, rank, src) \<in> set (recommendations_df st')"
  shows "\<exists>prof. DAList.lookup (user_profiles st) u = Some prof \<and> c \<notin> previous_interactions prof"
proof -
  let ?tag = "\<lambda>r::int \<times> int \<times> nat. (fst r, fst (snd r), snd (snd r), ''content_based'')"
  have mem: "(u, c, rank, src) \<in> set (filter (\<lambda>r. fst r = u) (recommendations_df st'))"
    using assms(2) by simp
  then have key: "u \<in> fst ` set (DAList.impl_of (user_profiles st))"
    using user_rows(1)[OF assms(1), of u] by (auto split: if_splits)
  then obtain rows where b: "user_block lib total_recommendations st u = Inr rows"
    using user_rows(2)[OF assms(1), of u]
    by (cases "user_block lib total_recommendations st u") auto
  have "(u, c, rank, src) \<in> set (map ?tag rows)"
    using mem user_rows(1)[OF assms(1), of u] key b by simp
  then obtain r where "r \<in> set rows" "c = fst (snd r)" by auto
  then show ?thesis
    using user_block_rows(1)[OF b] by (auto simp: list_all_iff)
qed

lemma pipeline_profiles:
  assumes "get_recommendations lib st = Some (Inr st')"
  shows "\<exists>m st1. vstack (map snd (content_df st)) = Inr m \<and>
           generate_user_profiles lib 20 (st\<lparr>all_vectors := m\<rparr>) = Some (Inr st1) \<and>
           users_ok lib (st\<lparr>all_vectors := m\<rparr>) (unique (map fst (interactions_df st))) \<and>
           profiles_done lib (st\<lparr>all_vectors := m\<rparr>) (unique (map fst (interactions_df st))) st1 \<and>
           generate_recommendations lib st1 = Inr st'"
proof -
  from assms obtain m st1 where
    m: "vstack (map snd (content_df st)) = Inr m"
    and g: "generate_user_profiles lib 20 (st\<lparr>all_vectors := m\<rparr>) = Some (Inr st1)"
    and r: "generate_recommendations lib st1 = Inr st'"
    unfolding get_recommendations_Some_Inr by blast
  from generate_user_profiles_Inr[of 20 lib "st\<lparr>all_vectors := m\<rparr>" st1] g
  have "profiles_done lib (st\<lparr>all_vectors := m\<rparr>) (unique (map fst (interactions_df st))) st1"
    and "users_ok lib (st\<lparr>all_vectors := m\<rparr>) (unique (map fst (interactions_df st)))"
    by auto
  then show ?thesis using m g r by blast
qed

section \<open>The cluster loop: neighbour counts, and what happens at the cap\<close>

lemma kneighbors_Inr:
  assumes "0 < n" "n \<le> length fit_X"
    and "q \<noteq> []" "list_all (\<lambda>v. length v = length q) fit_X"
  shows "\<exists>nbs. kneighbors lib n fit_X q = Inr nbs \<and> length nbs = n \<and>
           list_all (\<lambda>nb. snd nb < length fit_X) nbs"
proof -
  let ?all = "sort_key fst (zip (map (cosine_distance lib q) fit_X) [0..<length fit_X])"
  have k: "kneighbors lib n fit_X q = Inr (take n ?all)"
    using assms by (simp add: kneighbors_def)
  have l: "length (take n ?all) = n" using assms by simp
  have "list_all (\<lambda>nb. snd nb < length fit_X) (take n ?all)"
    unfolding list_all_iff
  proof
    fix nb assume "nb \<in> set (take n ?all)"
    then have "nb \<in> set ?all" by (rule in_set_takeD)
    then have "(fst nb, snd nb) \<in> set (zip (map (cosine_distance lib q) fit_X) [0..<length fit_X])"
      by simp
    then have "snd nb \<in> set [0..<length fit_X]" by (rule set_zip_rightD)
    then show "snd nb < length fit_X" by simp
  qed
  then show ?thesis using k l by blast
qed

lemma cluster_recommendation_count_pos: "1 \<le> cluster_recommendation_count cap p"
  by (simp add: cluster_recommendation_count_def)

lemma n_neighbors_bounds:
  "all_vectors st \<noteq> [] \<Longrightarrow> 1 \<le> n_neighbors cap p st \<and> n_neighbors cap p st \<le> length (all_vectors st)"
  using cluster_recommendation_count_pos[of cap p]
  by (cases "all_vectors st") (auto simp: n_neighbors_def)

lemma neighbor_loop_at_cap:
  assumes "cap \<le> length recs" "list_all (\<lambda>nb. snd nb < length (content_df st)) nbs"
  shows "neighbor_loop cap st u prev nbs recs =
     Inr (recs @ (case find (\<lambda>nb. fst (content_df st ! snd nb) \<notin> prev) nbs of
                    None \<Rightarrow> []
                  | Some nb \<Rightarrow> [(u, fst (content_df st ! snd nb), 1 - fst nb)]))"
  using assms(2)
proof (induction nbs)
  case Nil
  then show ?case by simp
next
  case (Cons nb rest)
  obtain distance idx where nb: "nb = (distance, idx)" by (cases nb)
  have v: "iloc (content_df st) idx = Inr (content_df st ! idx)"
    using Cons.prems nb by (simp add: iloc_def)
  show ?case using Cons assms(1) v nb by simp
qed

lemma sqrt_squares: "sqrt 9 = 3" "sqrt 16 = 4" "sqrt 25 = 5" "sqrt (25 / 4) = 5 / 2"
  by (rule real_sqrt_unique; simp add: power2_eq_square)+

lemma cosine_exact_345:
  "cosine_similarity_exact [3 / 2, 2] [3, 0] = 3 / 5"
  "cosine_similarity_exact [3 / 2, 2] [0, 4] = 4 / 5"
  "cosine_similarity_exact [3 / 2, 2] [3, 4] = 1"
  by (simp_all add: cosine_similarity_exact_def dot_def norm_or_one_def sqrt_squares)

lemma centroid_W: "cluster_vector [(1, [3, 0]), (2, [0, 4])] [1, 1] 1 = Inr [3 / 2, 2]"
  by (simp add: cluster_vector_def vstack_def mean_axis0_def)

lemma knn_W: "kneighbors (sklearn_exact []) (n_neighbors 50 (1 / 100) state_W) (all_vectors state_W) [3 / 2, 2]
   = Inr [(0, 2)]"
  by (simp add: kneighbors_def n_neighbors_def cluster_recommendation_count_def py_round_def frac_def
      state_W_def cosine_distance_def sklearn_exact_def cosine_exact_345)

section \<open>Dependence on the object, and runs that do not raise\<close>

subsection \<open>The loops read the object only through its catalog\<close>

lemma fallback_loop_cong:
  "content_df a = content_df b \<Longrightarrow>
     fallback_loop cap a u prev scores idxs recs = fallback_loop cap b u prev scores idxs recs"
  by (induction idxs arbitrary: recs) (auto split: sum.splits)

lemma neighbor_loop_cong:
  "content_df a = content_df b \<Longrightarrow>
     neighbor_loop cap a u prev nbs recs = neighbor_loop cap b u prev nbs recs"
  by (induction nbs arbitrary: recs) (auto split: sum.splits)

lemma n_neighbors_cong:
  "all_vectors a = all_vectors b \<Longrightarrow> n_neighbors cap p a = n_neighbors cap p b"
  by (simp add: n_neighbors_def)

lemma cluster_loop_cong:
  assumes "content_df a = content_df b" "all_vectors a = all_vectors b"
  shows "cluster_loop lib cap a u prev uc ucl counts recs =
         cluster_loop lib cap b u prev uc ucl counts recs"
proof (induction counts arbitrary: recs)
  case Nil
  then show ?case by simp
next
  case (Cons cp rest)
  obtain cluster p where cp: "cp = (cluster, p)" by (cases cp)
  show ?case
    unfolding cp
    by (simp add: Cons.IH n_neighbors_cong[OF assms(2)] assms(2)
        neighbor_loop_cong[OF assms(1)] split: sum.splits)
qed

lemma user_candidates_cong:
  assumes "content_df a = content_df b" "all_vectors a = all_vectors b"
  shows "user_candidates lib cap a u prof scores idxs = user_candidates lib cap b u prof scores idxs"
  unfolding user_candidates_def fallback_loop_cong[OF assms(1)] cluster_loop_cong[OF assms] ..

lemma user_block_cong:
  assumes "content_df a = content_df b" "all_vectors a = all_vectors b"
    and "DAList.lookup (user_profiles a) u = DAList.lookup (user_profiles b) u"
    and "DAList.lookup (cosine_scores a) u = DAList.lookup (cosine_scores b) u"
  shows "user_block lib cap a u = user_block lib cap b u"
  unfolding user_block_def assms(3,4) user_candidates_cong[OF assms(1,2)] ..

subsection \<open>With a stacked catalog and stored profiles, no loop raises\<close>

lemma neighbor_loop_total:
  "list_all (\<lambda>nb. snd nb < length (content_df st)) nbs \<Longrightarrow>
     \<exists>out. neighbor_loop cap st u prev nbs recs = Inr out"
proof (induction nbs arbitrary: recs)
  case Nil
  then show ?case by simp
next
  case (Cons nb rest)
  obtain distance idx where nb: "nb = (distance, idx)" by (cases nb)
  have v: "iloc (content_df st) idx = Inr (content_df st ! idx)"
    using Cons.prems nb by (simp add: iloc_def)
  have r: "list_all (\<lambda>nb. snd nb < length (content_df st)) rest"
    using Cons.prems by simp
  show ?case
    using Cons.IH[OF r] by (simp add: nb v)
qed

lemma cluster_vector_total:
  assumes len: "length ucl = length uc"
    and mem: "cluster \<in> set ucl"
    and dim: "list_all (\<lambda>row. length (snd row) = d) uc"
  shows "\<exists>centroid. cluster_vector uc ucl cluster = Inr centroid \<and> length centroid = d"
proof -
  let ?rows = "filter (\<lambda>lr. fst lr = cluster) (zip ucl uc)"
  let ?vs = "map (\<lambda>lr. snd (snd lr)) ?rows"
  from mem obtain i where i: "i < length ucl" "ucl ! i = cluster"
    by (auto simp: in_set_conv_nth)
  then have "(cluster, uc ! i) \<in> set (zip ucl uc)"
    using len by (auto simp: set_zip)
  then have "\<exists>x\<in>set (zip ucl uc). fst x = cluster"
    by (intro bexI[of _ "(cluster, uc ! i)"]) simp_all
  then have ne: "?vs \<noteq> []"
    by (simp add: filter_empty_conv)
  have "\<forall>v \<in> set ?vs. length v = d"
    using dim by (auto simp: list_all_iff dest!: set_zip_rightD)
  then have u: "list_all (\<lambda>w. length w = d) ?vs"
    by (simp only: list_all_iff)
  show ?thesis
    using len vstack_uniform[OF ne u] length_mean_axis0[OF ne u]
    by (simp add: cluster_vector_def)
qed

lemma cluster_loop_total:
  assumes len: "length ucl = length uc"
    and dim: "list_all (\<lambda>row. length (snd row) = d) uc"
    and cat: "all_vectors st \<noteq> []" "length (all_vectors st) = length (content_df st)"
    and feat: "0 < d" "list_all (\<lambda>v. length v = d) (all_vectors st)"
  shows "list_all (\<lambda>cp. fst cp \<in> set ucl) counts \<Longrightarrow>
     \<exists>out. cluster_loop lib cap st u prev uc ucl counts recs = Inr out"
proof (induction counts arbitrary: recs)
  case Nil
  then show ?case by simp
next
  case (Cons cp rest)
  obtain cluster p where cp: "cp = (cluster, p)" by (cases cp)
  have r: "list_all (\<lambda>cp. fst cp \<in> set ucl) rest" using Cons.prems by simp
  show ?case
  proof (cases "cluster = - 1")
    case True
    then show ?thesis using Cons.IH[OF r] by (simp add: cp)
  next
    case False
    have "cluster \<in> set ucl" using Cons.prems cp by simp
    from cluster_vector_total[OF len this dim]
    obtain centroid where c: "cluster_vector uc ucl cluster = Inr centroid"
      and lc: "length centroid = d" by blast
    have b: "0 < n_neighbors cap p st" "n_neighbors cap p st \<le> length (all_vectors st)"
      using n_neighbors_bounds[OF cat(1), of cap p] by auto
    have q: "centroid \<noteq> []" "list_all (\<lambda>v. length v = length centroid) (all_vectors st)"
      using feat lc by auto
    from kneighbors_Inr[OF b q, of lib]
    obtain nbs where k: "kneighbors lib (n_neighbors cap p st) (all_vectors st) centroid = Inr nbs"
      and v: "list_all (\<lambda>nb. snd nb < length (all_vectors st)) nbs" by blast
    from neighbor_loop_total[of st nbs cap u prev recs] v cat(2)
    obtain recs' where n: "neighbor_loop cap st u prev nbs recs = Inr recs'" by auto
    from Cons.IH[OF r, of recs'] obtain out where
      "cluster_loop lib cap st u prev uc ucl rest recs' = Inr out" by blast
    then show ?thesis using False c k n by (simp add: cp)
  qed
qed

lemma value_counts_labels: "fst ` set (value_counts_normalize labels) = set labels"
  by (auto simp: value_counts_normalize_def image_iff)

lemma length_cluster_labels [simp]: "length (cluster_labels lib gc) = length gc"
  by (simp add: cluster_labels_def)

lemma user_block_total:
  assumes vs: "vstack (map snd (content_df st)) = Inr (all_vectors st)"
    and feat: "0 < shape1 (all_vectors st)"
    and p: "DAList.lookup (user_profiles st) u = Some (profile_of lib (content_df st) idf u)"
    and s: "DAList.lookup (cosine_scores st) u = Some (scores_of lib (content_df st) idf (all_vectors st) u)"
  shows "\<exists>rows. user_block lib cap st u = Inr rows"
proof -
  let ?prof = "profile_of lib (content_df st) idf u"
  let ?scores = "scores_of lib (content_df st) idf (all_vectors st) u"
  let ?idxs = "take 2000 (rev (argsort ?scores))"
  from vs have av: "all_vectors st = map snd (content_df st)" "content_df st \<noteq> []"
    by (auto simp: vstack_Inr)
  have dims: "list_all (\<lambda>w. length w = shape1 (all_vectors st)) (map snd (content_df st))"
    by (rule vstack_shape(3)[OF vs])
  have ls: "length ?scores = length (content_df st)"
    by (rule length_scores_of[OF vs feat])
  have valid: "list_all (\<lambda>i. i < length (content_df st) \<and> i < length ?scores) ?idxs"
    using top_indices_small(3)[of ?scores] by (auto simp: list_all_iff ls)
  have second: "\<And>recs. \<exists>out. fallback_loop cap st u (previous_interactions ?prof) ?scores ?idxs recs = Inr out"
    by (simp add: fallback_loop_filter[OF valid])
  have first: "\<exists>recs. (if length (unique (map fst (content ?prof))) < 5
         then fallback_loop cap st u (previous_interactions ?prof) ?scores ?idxs []
         else cluster_loop lib cap st u (previous_interactions ?prof) (content ?prof)
                (clusters ?prof) (value_counts_normalize (clusters ?prof)) []) = Inr recs"
  proof (cases "length (unique (map fst (content ?prof))) < 5")
    case True
    then show ?thesis using second[of "[]"] by simp
  next
    case False
    have len: "length (clusters ?prof) = length (content ?prof)"
      by (simp add: profile_of_def)
    have "set (content ?prof) \<subseteq> set (content_df st)"
      by (auto simp: profile_of_def good_content_of_def)
    then have dim: "list_all (\<lambda>row. length (snd row) = shape1 (all_vectors st)) (content ?prof)"
      using dims by (auto simp: list_all_iff)
    have cat: "all_vectors st \<noteq> []" "length (all_vectors st) = length (content_df st)"
      using av by simp_all
    have uni: "list_all (\<lambda>v. length v = shape1 (all_vectors st)) (all_vectors st)"
      using dims av(1) by simp
    have cnt: "list_all (\<lambda>cp. fst cp \<in> set (clusters ?prof)) (value_counts_normalize (clusters ?prof))"
      using value_counts_labels[of "clusters ?prof"] by (auto simp: list_all_iff)
    from cluster_loop_total[OF len dim cat feat uni cnt]
    show ?thesis using False by simp
  qed
  then obtain recs where f: "(if length (unique (map fst (content ?prof))) < 5
         then fallback_loop cap st u (previous_interactions ?prof) ?scores ?idxs []
         else cluster_loop lib cap st u (previous_interactions ?prof) (content ?prof)
                (clusters ?prof) (value_counts_normalize (clusters ?prof)) []) = Inr recs" by blast
  from second[of recs] obtain out where
    "fallback_loop cap st u (previous_interactions ?prof) ?scores ?idxs recs = Inr out" by blast
  then have "user_candidates lib cap st u ?prof ?scores ?idxs = Inr out"
    unfolding user_candidates_def f by simp
  then show ?thesis
    by (simp add: user_block_def p s)
qed

section \<open>Rounding, cluster proportions, and the cluster loop on a split list\<close>

lemma py_round_cases:
  "py_round x = \<lfloor>x\<rfloor> \<or> py_round x = \<lfloor>x\<rfloor> + 1"
  by (simp add: py_round_def)

lemma py_round_nearest: "\<bar>real_of_int (py_round x) - x\<bar> \<le> 1 / 2"
proof -
  define r where "r = frac x"
  have x: "x = real_of_int \<lfloor>x\<rfloor> + r" by (simp add: frac_def r_def)
  have f: "0 \<le> r" "r < 1" by (simp_all add: frac_lt_1 r_def)
  consider "r < 1 / 2" | "r > 1 / 2" | "r = 1 / 2" by linarith
  then show ?thesis
  proof cases
    case 1
    then have "py_round x = \<lfloor>x\<rfloor>" by (simp add: py_round_def r_def)
    then have "real_of_int (py_round x) - x = - r" using x by simp
    then show ?thesis using f 1 by simp
  next
    case 2
    then have "py_round x = \<lfloor>x\<rfloor> + 1" by (simp add: py_round_def r_def)
    then have "real_of_int (py_round x) - x = 1 - r" using x by simp
    then show ?thesis using f 2 by simp
  next
    case 3
    have "py_round x = \<lfloor>x\<rfloor> \<or> py_round x = \<lfloor>x\<rfloor> + 1" by (simp add: py_round_def)
    then have "real_of_int (py_round x) - x = - r \<or> real_of_int (py_round x) - x = 1 - r"
      using x by auto
    then show ?thesis using 3 by auto
  qed
qed

lemma py_round_half_even:
  assumes "\<bar>real_of_int (py_round x) - x\<bar> = 1 / 2"
  shows "even (py_round x)"
proof -
  have x: "x = real_of_int \<lfloor>x\<rfloor> + frac x" by (simp add: frac_def)
  have f: "0 \<le> frac x" "frac x < 1" by (simp_all add: frac_lt_1)
  show ?thesis
  proof (cases "frac x = 1 / 2")
    case True
    then show ?thesis by (simp add: py_round_def)
  next
    case False
    then consider "frac x < 1 / 2" | "frac x > 1 / 2" by linarith
    then show ?thesis
    proof cases
      case 1
      then have "py_round x = \<lfloor>x\<rfloor>" by (simp add: py_round_def)
      then have "\<bar>real_of_int (py_round x) - x\<bar> = frac x" using f by (simp add: frac_def)
      then show ?thesis using assms False by simp
    next
      case 2
      then have "py_round x = \<lfloor>x\<rfloor> + 1" by (simp add: py_round_def)
      then have "\<bar>real_of_int (py_round x) - x\<bar> = 1 - frac x" using f by (simp add: frac_def)
      then show ?thesis using assms False by simp
    qed
  qed
qed

lemma py_round_unique:
  assumes "\<bar>real_of_int n - x\<bar> < 1 / 2 \<or> (\<bar>real_of_int n - x\<bar> = 1 / 2 \<and> even n)"
  shows "py_round x = n"
proof -
  have a: "\<bar>real_of_int n - x\<bar> \<le> 1 / 2" using assms by auto
  have b: "\<bar>real_of_int (py_round x) - x\<bar> \<le> 1 / 2" by (rule py_round_nearest)
  have "\<bar>real_of_int n - real_of_int (py_round x)\<bar> \<le> 1" using a b by linarith
  then have d: "\<bar>n - py_round x\<bar> \<le> 1" by linarith
  show ?thesis
  proof (rule ccontr)
    assume ne: "py_round x \<noteq> n"
    then have "\<bar>n - py_round x\<bar> = 1" using d by linarith
    then have one: "\<bar>real_of_int n - real_of_int (py_round x)\<bar> = 1" by linarith
    then have e1: "\<bar>real_of_int n - x\<bar> = 1 / 2" and e2: "\<bar>real_of_int (py_round x) - x\<bar> = 1 / 2"
      using a b by linarith+
    then have "even n" "even (py_round x)" using assms py_round_half_even by auto
    then have "even (n - py_round x)" by simp
    moreover define k where "k = n - py_round x"
    ultimately have ev: "even k" by simp
    have "k = 1 \<or> k = - 1"
      using \<open>\<bar>n - py_round x\<bar> = 1\<close> unfolding k_def by linarith
    then show False using ev by auto
  qed
qed

lemma value_counts_entry:
  assumes "(c, p) \<in> set (value_counts_normalize labels)"
  shows "c \<in> set labels" "p = real (count_list labels c) / real (length labels)"
    "0 < p" "p \<le> 1"
proof -
  show c: "c \<in> set labels" and p: "p = real (count_list labels c) / real (length labels)"
    using assms by (auto simp: value_counts_normalize_def)
  have l: "0 < length labels" using c by (cases labels) auto
  have "count_list labels c \<noteq> 0" using c by (simp add: count_list_0_iff)
  then have "0 < count_list labels c" by simp
  then show "0 < p" using l by (simp add: p)
  have "count_list labels c \<le> length labels" by (rule count_le_length)
  then show "p \<le> 1" using l by (simp add: p)
qed

lemma value_counts_distinct: "distinct (map fst (value_counts_normalize labels))"
proof -
  let ?f = "\<lambda>l. (l, real (count_list labels l) / real (length labels))"
  have "mset (map fst (value_counts_normalize labels)) = mset (map fst (map ?f (unique labels)))"
    unfolding value_counts_normalize_def by (simp only: mset_map mset_sort)
  also have "map fst (map ?f (unique labels)) = unique labels" by (simp add: comp_def)
  finally show ?thesis using distinct_unique[of labels] by (metis mset_eq_imp_distinct_iff)
qed

lemma value_counts_sorted:
  "sorted (rev (map snd (value_counts_normalize labels)))"
proof -
  have "sorted (map (\<lambda>lp. - snd lp) (value_counts_normalize labels))"
    unfolding value_counts_normalize_def by (rule sorted_sort_key)
  then show ?thesis
    by (simp add: sorted_wrt_rev sorted_map sorted_wrt_map del: sorted_wrt.simps) 
       
qed

lemma cluster_loop_append:
  "cluster_loop lib cap st u prev uc ucl (xs @ ys) recs =
     (case cluster_loop lib cap st u prev uc ucl xs recs of
        Inl e \<Rightarrow> Inl e
      | Inr r \<Rightarrow> cluster_loop lib cap st u prev uc ucl ys r)"
proof (induction xs arbitrary: recs)
  case Nil
  then show ?case by simp
next
  case (Cons cp xs)
  obtain c p where cp: "cp = (c, p)" by (cases cp)
  show ?case unfolding cp by (simp add: Cons.IH split: sum.splits)
qed

lemma cluster_loop_skips_noise:
  "cluster_loop lib cap st u prev uc ucl counts recs =
     cluster_loop lib cap st u prev uc ucl (filter (\<lambda>cp. fst cp \<noteq> - 1) counts) recs"
proof (induction counts arbitrary: recs)
  case Nil
  then show ?case by simp
next
  case (Cons cp counts)
  obtain c p where cp: "cp = (c, p)" by (cases cp)
  show ?case unfolding cp by (simp add: Cons.IH split: sum.splits)
qed

section \<open>A run from a fresh object raises only on a bad catalog\<close>

lemma profiles_done_fresh_keys:
  assumes "profiles_done lib st us st1" "user_profiles st = DAList.empty"
  shows "fst ` set (DAList.impl_of (user_profiles st1)) = set us \<inter> fst ` set (interactions_df st)"
  using assms by (auto simp: alist_keys profiles_done_def)

lemma blocks_after_profiles:
  assumes vs: "vstack (map snd (content_df st)) = Inr m"
    and feat: "0 < shape1 m"
    and pd: "profiles_done lib (st\<lparr>all_vectors := m\<rparr>) us st1"
    and u: "u \<in> set us" "u \<in> fst ` set (interactions_df st)"
  shows "\<exists>rows. user_block lib cap st1 u = Inr rows"
proof -
  have f: "content_df st1 = content_df st" "all_vectors st1 = m"
    using pd by (simp_all add: profiles_done_def)
  have p: "DAList.lookup (user_profiles st1) u = Some (profile_of lib (content_df st1) (interactions_df st) u)"
    and s: "DAList.lookup (cosine_scores st1) u =
             Some (scores_of lib (content_df st1) (interactions_df st) (all_vectors st1) u)"
    using pd u by (simp_all add: profiles_done_def)
  have "vstack (map snd (content_df st1)) = Inr (all_vectors st1)"
    using vs f by simp
  moreover have "0 < shape1 (all_vectors st1)" using feat f by simp
  ultimately show ?thesis by (rule user_block_total[OF _ _ p s])
qed

lemma pipeline_total:
  assumes vs: "vstack (map snd (content_df st)) = Inr m"
    and feat: "0 < shape1 m"
    and fresh: "user_profiles st = DAList.empty"
  shows "\<exists>st'. get_recommendations lib st = Some (Inr st')"
proof -
  let ?us = "unique (map fst (interactions_df st))"
  obtain st1 where g: "generate_user_profiles lib 20 (st\<lparr>all_vectors := m\<rparr>) = Some (Inr st1)"
    and pd: "profiles_done lib (st\<lparr>all_vectors := m\<rparr>) ?us st1"
    using generate_user_profiles_stacked[of 20 "st\<lparr>all_vectors := m\<rparr>" lib] vs feat by auto
  have keys: "fst ` set (DAList.impl_of (user_profiles st1)) = fst ` set (interactions_df st)"
    using profiles_done_fresh_keys[OF pd] fresh by auto
  have "list_all (\<lambda>u. \<not> isl (user_block lib total_recommendations st1 u))
          (map fst (DAList.impl_of (user_profiles st1)))"
    unfolding list_all_iff
  proof
    fix u assume "u \<in> set (map fst (DAList.impl_of (user_profiles st1)))"
    then have "u \<in> fst ` set (interactions_df st)" using keys by simp
    then have "\<exists>rows. user_block lib total_recommendations st1 u = Inr rows"
      by (intro blocks_after_profiles[OF vs feat pd]) auto
    then show "\<not> isl (user_block lib total_recommendations st1 u)" by auto
  qed
  then have "\<exists>st'. generate_recommendations lib st1 = Inr st'"
    unfolding generate_recommendations_Inr by blast
  then show ?thesis
    unfolding get_recommendations_Some_Inr using vs g by blast
qed

section \<open>Good, negative and neutral ratings\<close>

lemma good_ids_set:
  "good_ids idf u = {c. \<exists>r \<in> {4, 5}. (u, c, r) \<in> set idf}"
  by (auto simp: good_ids_def image_iff)

lemma negative_ids_set:
  "negative_ids idf u = {c. \<exists>r \<in> {1, 2}. (u, c, r) \<in> set idf}"
  by (auto simp: negative_ids_def image_iff)

lemma good_ids_drop_neutral:
  "good_ids (filter (\<lambda>r. snd (snd r) \<noteq> 3) idf) u = good_ids idf u"
  "negative_ids (filter (\<lambda>r. snd (snd r) \<noteq> 3) idf) u = negative_ids idf u"
  by (auto simp: good_ids_def negative_ids_def)

lemma process_user_drop_neutral:
  "process_user lib bc s (u, filter (\<lambda>r. snd (snd r) \<noteq> 3) ints) = process_user lib bc s (u, ints)"
proof -
  have g: "filter (\<lambda>r. snd (snd r) \<in> {4, 5}) (filter (\<lambda>r. snd (snd r) \<noteq> 3) ints)
         = filter (\<lambda>r. snd (snd r) \<in> {4, 5}) ints"
    by (intro filter_filter_imp) auto
  have n: "filter (\<lambda>r. snd (snd r) \<in> {1, 2}) (filter (\<lambda>r. snd (snd r) \<noteq> 3) ints)
         = filter (\<lambda>r. snd (snd r) \<in> {1, 2}) ints"
    by (intro filter_filter_imp) auto
  show ?thesis
    unfolding process_user_def Let_def fst_conv snd_conv g n ..
qed

section \<open>Unfolding the batch loop; the users table\<close>

subsection \<open>The users table is never read\<close>

lemma apply_user_users_df:
  "apply_user lib (s\<lparr>users_df := x\<rparr>) u = (apply_user lib s u)\<lparr>users_df := x\<rparr>"
  by (simp add: apply_user_def)

lemma foldl_apply_user_users_df:
  "foldl (apply_user lib) (s\<lparr>users_df := x\<rparr>) us = (foldl (apply_user lib) s us)\<lparr>users_df := x\<rparr>"
  by (induction us arbitrary: s) (simp_all add: apply_user_users_df)

lemma process_batch_users_df:
  "process_batch lib (s\<lparr>users_df := x\<rparr>) chunk =
     map_sum id (\<lambda>t. t\<lparr>users_df := x\<rparr>) (process_batch lib s chunk)"
proof -
  have ok: "users_ok lib (s\<lparr>users_df := x\<rparr>) chunk = users_ok lib s chunk"
    by (rule users_ok_frames) simp_all
  have bu: "batch_users (s\<lparr>users_df := x\<rparr>) chunk = batch_users s chunk"
    by (simp add: batch_users_def)
  show ?thesis
    by (simp add: process_batch_eq ok bu foldl_apply_user_users_df)
qed

lemma profile_loop_Nil: "profile_loop lib b st [] 0 = Some (Inr st)"
  by (subst profile_loop.simps) simp

lemma profile_loop_step:
  assumes "1 \<le> b" "ids \<noteq> []"
  shows "profile_loop lib b st ids (int (length ids)) =
     (case process_batch lib st (take (nat (min b (int (length ids)))) ids) of
        Inl e \<Rightarrow> Some (Inl e)
      | Inr st' \<Rightarrow>
          profile_loop lib b st' (drop (nat (min b (int (length ids)))) ids)
            (int (length (drop (nat (min b (int (length ids)))) ids))))"
proof -
  define k where "k = min b (int (length ids))"
  have k: "1 \<le> k" "k \<le> int (length ids)"
    using assms by (auto simp: k_def Suc_leI)
  have sl: "slice_to ids k = take (nat k) ids" "slice_from ids k = drop (nat k) ids"
    using k by (simp_all add: slice_to_def slice_from_def)
  have len: "int (length ids) - k = int (length (drop (nat k) ids))"
    using k by simp
  show ?thesis
    using assms(2) unfolding k_def[symmetric]
    by (subst profile_loop.simps) (simp add: k_def[symmetric] sl len split: sum.splits)
qed

lemma profile_loop_users_df:
  assumes "1 \<le> b"
  shows "profile_loop lib b (st\<lparr>users_df := x\<rparr>) ids (int (length ids)) =
         map_option (map_sum id (\<lambda>s. s\<lparr>users_df := x\<rparr>))
           (profile_loop lib b st ids (int (length ids)))"
proof (induction "length ids" arbitrary: ids st rule: less_induct)
  case less
  show ?case
  proof (cases "ids = []")
    case True
    then show ?thesis by (simp add: profile_loop_Nil)
  next
    case False
    let ?k = "nat (min b (int (length ids)))"
    have "0 < ?k" using assms False by auto
    then have shorter: "length (drop ?k ids) < length ids" using False by simp
    show ?thesis
    proof (cases "process_batch lib st (take ?k ids)")
      case (Inl e)
      then show ?thesis
        unfolding profile_loop_step[OF assms False] process_batch_users_df by simp
    next
      case (Inr st1)
      then show ?thesis
        unfolding profile_loop_step[OF assms False] process_batch_users_df
        using less[OF shorter, of st1] by simp
    qed
  qed
qed

lemma cosine_top_indices_cong:
  "cosine_scores a = cosine_scores b \<Longrightarrow> cosine_top_indices a keys = cosine_top_indices b keys"
  by (induction keys) (simp_all split: option.splits)

lemma recommendation_loop_cong:
  assumes "content_df a = content_df b" "all_vectors a = all_vectors b"
    and "user_profiles a = user_profiles b" "cosine_scores a = cosine_scores b"
  shows "recommendation_loop lib cap a d acc = recommendation_loop lib cap b d acc"
proof (induction d arbitrary: acc)
  case Nil
  then show ?case by simp
next
  case (Cons x d)
  obtain u idxs where x: "x = (u, idxs)" by (cases x)
  show ?case
    unfolding x recommendation_loop.simps assms(3,4) user_candidates_cong[OF assms(1,2)] Cons.IH ..
qed

lemma generate_recommendations_users_df:
  "generate_recommendations lib (s\<lparr>users_df := x\<rparr>) =
     map_sum id (\<lambda>t. t\<lparr>users_df := x\<rparr>) (generate_recommendations lib s)"
proof -
  have c: "cosine_top_indices (s\<lparr>users_df := x\<rparr>) = cosine_top_indices s"
    by (intro ext cosine_top_indices_cong) simp
  have r: "recommendation_loop lib total_recommendations (s\<lparr>users_df := x\<rparr>)
         = recommendation_loop lib total_recommendations s"
    by (intro ext recommendation_loop_cong) simp_all
  show ?thesis
    unfolding generate_recommendations_def c r
    by (simp split: sum.splits)
qed

lemma get_recommendations_users_df:
  "get_recommendations lib (st\<lparr>users_df := x\<rparr>) =
     map_option (map_sum id (\<lambda>t. t\<lparr>users_df := x\<rparr>)) (get_recommendations lib st)"
proof (cases "vstack (map snd (content_df st))")
  case (Inl e)
  then show ?thesis by (simp add: get_recommendations_def)
next
  case (Inr m)
  have sw: "st\<lparr>users_df := x, all_vectors := m\<rparr> = st\<lparr>all_vectors := m\<rparr>\<lparr>users_df := x\<rparr>"
    by simp
  have g: "generate_user_profiles lib 20 (st\<lparr>users_df := x, all_vectors := m\<rparr>) =
      map_option (map_sum id (\<lambda>s. s\<lparr>users_df := x\<rparr>))
        (generate_user_profiles lib 20 (st\<lparr>all_vectors := m\<rparr>))"
    unfolding sw generate_user_profiles_def
    using profile_loop_users_df[where b = 20 and lib = lib and st = "st\<lparr>all_vectors := m\<rparr>"
        and x = x and ids = "unique (map fst (interactions_df st))"]
    by simp
  show ?thesis
    unfolding get_recommendations_def
    by (simp add: Inr g generate_recommendations_users_df split: option.splits sum.splits)
qed

lemma returned_table_users_df:
  "returned_table lib (st\<lparr>users_df := x\<rparr>) = returned_table lib st"
  unfolding returned_table_def get_recommendations_users_df
  by (cases "get_recommendations lib st"; cases "the (get_recommendations lib st)")
     (simp_all add: map_sum.compositionality comp_def)

section \<open>A user who has rated the whole catalog\<close>

lemma heapify_Nil [simp]: "heapify [] = []"
  by (simp add: heapify_def)

lemma rank_recommendations_Nil [simp]: "rank_recommendations cap [] = []"
  by (simp add: rank_recommendations_eq rank_insertion_order_def sorted_reverse_def)

lemma example_S_evaluated: "returned_table lib example_S = Some (Inr [])"
proof -
  define m :: "vector list" where "m = [[1]]"
  define st0 where "st0 = example_S\<lparr>all_vectors := m\<rparr>"
  have vs: "vstack (map snd (content_df example_S)) = Inr m"
    by (simp add: example_S_def ClusteredKNN_init_def vstack_def m_def)
  have stacked: "vstack (map snd (content_df st0)) = Inr (all_vectors st0)"
      "0 < shape1 (all_vectors st0)"
    using vs by (simp_all add: st0_def m_def shape1_def)
  obtain st1 where st1: "generate_user_profiles lib 20 st0 = Some (Inr st1)"
    and pd: "profiles_done lib st0 (unique (map fst (interactions_df st0))) st1"
    using generate_user_profiles_stacked[OF _ stacked, of 20 lib] by auto
  have idf: "interactions_df st0 = [(1, 101, 5)]"
    and cdf0: "content_df st0 = [(101, [1])]"
    and av0: "all_vectors st0 = m"
    and e0: "user_profiles st0 = DAList.empty" "cosine_scores st0 = DAList.empty"
    by (simp_all add: st0_def example_S_def ClusteredKNN_init_def)
  have cdf: "content_df st1 = [(101, [1])]"
    using pd cdf0 by (simp add: profiles_done_def)
  let ?prof = "profile_of lib [(101, [1])] [(1, 101, 5)] 1"
  let ?scores = "scores_of lib [(101, [1])] [(1, 101, 5)] m 1"
  have lp: "\<And>k. DAList.lookup (user_profiles st1) k = (if k = 1 then Some ?prof else None)"
    using pd unfolding profiles_done_def idf e0 cdf0 by auto
  have ls: "DAList.lookup (cosine_scores st1) 1 = Some ?scores"
    using pd unfolding profiles_done_def idf e0 av0 cdf0 by auto
  have keys: "map fst (DAList.impl_of (user_profiles st1)) = [1]"
    by (rule alist_keys_single) (simp add: lp)
  have prev: "previous_interactions ?prof = {101}"
    by (auto simp: profile_of_def good_ids_def negative_ids_def)
  have few: "length (unique (map fst (content ?prof))) < 5"
    by (simp add: profile_of_def good_content_of_def good_ids_def unique_def)
  let ?idxs = "take 2000 (rev (argsort ?scores))"
  have len: "length ?scores = 1"
    using length_scores_of[OF stacked, of lib "[(1, 101, 5)]" 1] by (simp add: av0 cdf0)
  have tp: "set ?idxs = {0..<1}" "list_all (\<lambda>i. i < length ?scores) ?idxs"
    using top_indices_small[of ?scores] len by simp_all
  have valid: "list_all (\<lambda>i. i < length (content_df st1) \<and> i < length ?scores) ?idxs"
    using tp(2) by (auto simp: cdf len list_all_iff)
  have "filter (\<lambda>i. fst (content_df st1 ! i) \<notin> previous_interactions ?prof) ?idxs = []"
    unfolding filter_empty_conv tp(1) prev cdf by simp
  then have "user_candidates lib 50 st1 1 ?prof ?scores ?idxs = Inr []"
    using user_candidates_few[OF few valid, of lib 50 1] by simp
  then have block: "user_block lib 50 st1 1 = Inr []"
    by (simp add: user_block_def lp ls)
  have "generate_recommendations lib st1 = Inr (st1\<lparr>recommendations_df := []\<rparr>)"
    unfolding generate_recommendations_Inr keys
    by (simp add: total_recommendations_def block)
  then show ?thesis
    unfolding returned_table_def get_recommendations_def vs
    using st1 by (simp add: st0_def)
qed

section \<open>Tables built from the same blocks\<close>

lemma mset_concat_map:
  "mset (concat (map B keys)) = (\<Sum>k \<in># mset keys. mset (B k))"
  by (induction keys) simp_all

lemma same_blocks_same_rows:
  assumes g1: "generate_recommendations lib s1 = Inr t1"
    and g2: "generate_recommendations lib s2 = Inr t2"
    and keys: "fst ` set (DAList.impl_of (user_profiles s1)) = fst ` set (DAList.impl_of (user_profiles s2))"
    and blocks: "\<And>u. user_block lib total_recommendations s1 u = user_block lib total_recommendations s2 u"
  shows "mset (recommendations_df t1) = mset (recommendations_df t2)"
    and "filter (\<lambda>r. fst r = u) (recommendations_df t1) = filter (\<lambda>r. fst r = u) (recommendations_df t2)"
proof -
  let ?k1 = "map fst (DAList.impl_of (user_profiles s1))"
  let ?k2 = "map fst (DAList.impl_of (user_profiles s2))"
  let ?B = "\<lambda>u. projr (user_block lib total_recommendations s2 u)"
  let ?tag = "\<lambda>r::int \<times> int \<times> nat. (fst r, fst (snd r), snd (snd r), ''content_based'')"
  have sk: "set ?k1 = set ?k2" using keys by simp
  have dk: "distinct ?k1" "distinct ?k2" by simp_all
  have mk: "mset ?k1 = mset ?k2"
    using set_eq_iff_mset_eq_distinct[OF dk] sk by blast
  have d1: "recommendations_df t1 = map ?tag (concat (map ?B ?k1))"
    using g1 unfolding generate_recommendations_Inr blocks by simp
  have d2: "recommendations_df t2 = map ?tag (concat (map ?B ?k2))"
    using g2 unfolding generate_recommendations_Inr by simp
  have "mset (concat (map ?B ?k1)) = mset (concat (map ?B ?k2))"
    unfolding mset_concat_map mk ..
  then show "mset (recommendations_df t1) = mset (recommendations_df t2)"
    unfolding d1 d2 by (metis mset_map)
  show "filter (\<lambda>r. fst r = u) (recommendations_df t1) = filter (\<lambda>r. fst r = u) (recommendations_df t2)"
    unfolding user_rows(1)[OF g1] user_rows(1)[OF g2] keys blocks ..
qed

lemma generate_recommendations_isl:
  "isl (generate_recommendations lib st) \<longleftrightarrow>
     (\<exists>u \<in> fst ` set (DAList.impl_of (user_profiles st)). isl (user_block lib total_recommendations st u))"
proof -
  have "\<not> isl (generate_recommendations lib st) \<longleftrightarrow> (\<exists>st'. generate_recommendations lib st = Inr st')"
    by (cases "generate_recommendations lib st") auto
  also have "\<dots> \<longleftrightarrow> list_all (\<lambda>u. \<not> isl (user_block lib total_recommendations st u))
        (map fst (DAList.impl_of (user_profiles st)))"
    unfolding generate_recommendations_Inr by blast
  finally show ?thesis by (auto simp: list_all_iff)
qed

lemma example_T_key_order:
  "map_option (map_sum id (\<lambda>s. map fst (DAList.impl_of (user_profiles s))))
      (generate_user_profiles lib 1 example_T) = Some (Inr [2, 1])"
  "map_option (map_sum id (\<lambda>s. map fst (DAList.impl_of (user_profiles s))))
      (generate_user_profiles lib 2 example_T) = Some (Inr [1, 2])"
proof -
  have u: "unique (map fst (interactions_df example_T)) = [2, 1]"
    by (simp add: example_T_def ClusteredKNN_init_def unique_def)
  have st: "vstack (map snd (content_df example_T)) = Inr (all_vectors example_T)"
    "0 < shape1 (all_vectors example_T)"
    by (simp_all add: example_T_def ClusteredKNN_init_def vstack_def shape1_def)
  have ok: "\<And>s us. content_df s = content_df example_T \<Longrightarrow>
      interactions_df s = interactions_df example_T \<Longrightarrow>
      all_vectors s = all_vectors example_T \<Longrightarrow> users_ok lib s us"
    using users_ok_frames[of _ example_T lib] users_ok_stacked[OF st, of lib] by simp
  have bu: "\<And>s. interactions_df s = interactions_df example_T \<Longrightarrow>
      batch_users s [2] = [2] \<and> batch_users s [1] = [1] \<and> batch_users s [2, 1] = [1, 2]"
    by (simp add: batch_users_def example_T_def ClusteredKNN_init_def unique_def)
  show "map_option (map_sum id (\<lambda>s. map fst (DAList.impl_of (user_profiles s))))
      (generate_user_profiles lib 1 example_T) = Some (Inr [2, 1])"
    unfolding generate_user_profiles_def u
    by (simp add: profile_loop_step[where ids = "[2, 1]", simplified]
        profile_loop_step[where ids = "[1]", simplified] profile_loop_Nil
        process_batch_eq ok bu)
      (simp add: apply_user_def DAList.update.rep_eq DAList.empty.rep_eq
        example_T_def ClusteredKNN_init_def)
  show "map_option (map_sum id (\<lambda>s. map fst (DAList.impl_of (user_profiles s))))
      (generate_user_profiles lib 2 example_T) = Some (Inr [1, 2])"
    unfolding generate_user_profiles_def u
    by (simp add: profile_loop_step[where ids = "[2, 1]", simplified] profile_loop_Nil
        process_batch_eq ok bu)
      (simp add: apply_user_def DAList.update.rep_eq DAList.empty.rep_eq
        example_T_def ClusteredKNN_init_def)
qed

section \<open>Claim C1: clusters processed after the cap is reached\<close>

text \<open>
  Claim C1 states that once the candidate list has reached the cap, no cluster
  processed later contributes a candidate. The code does not do that: the \<^verbatim>\<open>break\<close>
  of line 91 leaves the loop over the neighbours only, and the loop over the clusters
  goes on. A cluster that is processed when the list already holds \<open>cap\<close> candidates or
  more still queries its neighbours and appends the first one whose content id is not
  in \<^verbatim>\<open>previous_interactions\<close>; only then is the cap tested again.
\<close>
theorem cluster_after_cap_still_emits:
  assumes "cap \<le> length recs"
    and "cluster \<noteq> - 1"
    and "cluster_vector uc ucl cluster = Inr centroid"
    and "kneighbors lib (n_neighbors cap p st) (all_vectors st) centroid = Inr nbs"
    and "list_all (\<lambda>nb. snd nb < length (content_df st)) nbs"
  shows "cluster_loop lib cap st u prev uc ucl ((cluster, p) # rest) recs =
     cluster_loop lib cap st u prev uc ucl rest
       (recs @ (case find (\<lambda>nb. fst (content_df st ! snd nb) \<notin> prev) nbs of
                  None \<Rightarrow> []
                | Some nb \<Rightarrow> [(u, fst (content_df st ! snd nb), 1 - fst nb)]))"
  using assms(2,3,4) by (simp add: neighbor_loop_at_cap[OF assms(1,5)])

text \<open>The theorem with a cap of 50 and a list that already holds 50 candidates: the next
  cluster appends a 51st candidate, content 2000.\<close>
theorem cluster_after_cap_still_emits_witness:
  "(50::nat) \<le> length (map (\<lambda>i. (7::int, 1000 + int i, 1::real)) [0..<50])
   \<and> (1::int) \<noteq> - 1
   \<and> cluster_vector [(1, [3, 0]), (2, [0, 4])] [1, 1] 1 = Inr [3 / 2, 2]
   \<and> kneighbors (sklearn_exact []) (n_neighbors 50 (1 / 100) state_W) (all_vectors state_W)
        [3 / 2, 2] = Inr [(0, 2)]
   \<and> list_all (\<lambda>nb. snd nb < length (content_df state_W)) [(0::real, 2::nat)]
   \<and> cluster_loop (sklearn_exact []) 50 state_W 7 {1, 2} [(1, [3, 0]), (2, [0, 4])] [1, 1]
        [(1, 1 / 100)] (map (\<lambda>i. (7, 1000 + int i, 1)) [0..<50])
       = Inr (map (\<lambda>i. (7, 1000 + int i, 1)) [0..<50] @ [(7, 2000, 1)])"
proof -
  define recs :: "candidate list" where "recs = map (\<lambda>i. (7, 1000 + int i, 1)) [0..<50]"
  have a: "(50::nat) \<le> length recs" by (simp add: recs_def)
  have b: "(1::int) \<noteq> - 1" by simp
  have e: "list_all (\<lambda>nb. snd nb < length (content_df state_W)) [(0::real, 2::nat)]"
    by (simp add: state_W_def ClusteredKNN_init_def)
  have "cluster_loop (sklearn_exact []) 50 state_W 7 {1, 2} [(1, [3, 0]), (2, [0, 4])] [1, 1]
        [(1, 1 / 100)] recs = Inr (recs @ [(7, 2000, 1)])"
    unfolding cluster_after_cap_still_emits[OF a b centroid_W knn_W e]
    by (simp add: state_W_def ClusteredKNN_init_def)
  then show ?thesis
    using a b e centroid_W knn_W unfolding recs_def by (intro conjI)
qed

section \<open>Claim C2: the ranking step\<close>

text \<open>
  Claim C2, as the code has it. The ranking step selects the \<open>cap\<close> best candidates by
  descending score and numbers them 1, 2, ... in that order; every candidate left out
  scores no more than every candidate selected. Candidates of equal score keep the order
  they have in the list after \<^verbatim>\<open>heapq.heapify\<close> has reordered it in place, which is a
  permutation of the candidate list and not the order of insertion: the ranking is the
  specified ranking of the heapified list.
\<close>
theorem ranking_ties_follow_heap_order:
  "let selected = take cap (sorted_reverse (\<lambda>x. snd (snd x)) (heapify recs)) in
     rank_recommendations cap recs = rank_insertion_order cap (heapify recs)
     \<and> rank_recommendations cap recs =
         map (\<lambda>(rank, x). (fst x, fst (snd x), rank)) (zip [1..<Suc (length selected)] selected)
     \<and> mset (heapify recs) = mset recs
     \<and> length selected = min cap (length recs)
     \<and> sorted (map (\<lambda>x. - snd (snd x)) selected)
     \<and> (\<forall>y \<in># mset recs - mset selected. \<forall>x \<in> set selected. snd (snd y) \<le> snd (snd x))
     \<and> (\<forall>k. \<exists>m. filter (\<lambda>x. snd (snd x) = k) selected
                   = take m (filter (\<lambda>x. snd (snd x) = k) (heapify recs)))"
proof -
  define S where "S = sorted_reverse (\<lambda>x. snd (snd x)) (heapify recs)"
  define selected where "selected = take cap S"
  have 1: "rank_recommendations cap recs = rank_insertion_order cap (heapify recs)"
    by (rule rank_recommendations_eq)
  have 2: "rank_recommendations cap recs =
         map (\<lambda>(rank, x). (fst x, fst (snd x), rank)) (zip [1..<Suc (length selected)] selected)"
    unfolding 1 rank_insertion_order_def Let_def selected_def S_def ..
  have 3: "mset (heapify recs) = mset recs" by (rule heapify_mset)
  have 4: "length selected = min cap (length recs)"
    by (simp add: selected_def S_def heapify_length min.commute)
  have sS: "sorted (map (\<lambda>x. - snd (snd x)) S)"
    unfolding S_def by (rule sorted_reverse_sorted)
  then have "sorted (take cap (map (\<lambda>x. - snd (snd x)) S))" by (rule sorted_wrt_take)
  then have 5: "sorted (map (\<lambda>x. - snd (snd x)) selected)"
    by (simp add: selected_def take_map)
  have "mset recs = mset S"
    by (simp add: S_def heapify_mset)
  also have "\<dots> = mset (take cap S) + mset (drop cap S)"
    by (simp flip: mset_append)
  finally have rest: "mset recs - mset selected = mset (drop cap S)"
    by (simp add: selected_def)
  have 6: "\<forall>y \<in># mset recs - mset selected. \<forall>x \<in> set selected. snd (snd y) \<le> snd (snd x)"
  proof (intro ballI)
    fix y x assume "y \<in># mset recs - mset selected" "x \<in> set selected"
    then have "y \<in> set (drop cap S)" "x \<in> set (take cap S)"
      unfolding rest by (simp_all add: selected_def)
    from take_drop_sorted_le[OF sS this(2) this(1)] show "snd (snd y) \<le> snd (snd x)" by simp
  qed
  have 7: "\<forall>k. \<exists>m. filter (\<lambda>x. snd (snd x) = k) selected
                   = take m (filter (\<lambda>x. snd (snd x) = k) (heapify recs))"
  proof
    fix k
    obtain m where "filter (\<lambda>x. snd (snd x) = k) (take cap S) = take m (filter (\<lambda>x. snd (snd x) = k) S)"
      using filter_take_prefix by blast
    then show "\<exists>m. filter (\<lambda>x. snd (snd x) = k) selected
                   = take m (filter (\<lambda>x. snd (snd x) = k) (heapify recs))"
      by (auto simp: selected_def S_def sorted_reverse_stable)
  qed
  show ?thesis
    unfolding Let_def selected_def[symmetric, unfolded S_def]
    using 1 2 3 4 5 6 7 unfolding selected_def S_def by blast
qed

text \<open>The theorem at a list of two candidates and a cap of 1: one candidate is left out,
  and it scores less than the one selected.\<close>
theorem ranking_ties_follow_heap_order_witness:
  "(1, 20, 1 / 2) \<in># mset [(1, 20, 1 / 2), (1, 10, 3 / 4)]
       - mset (take 1 (sorted_reverse (\<lambda>x. snd (snd x)) (heapify [(1::int, 20::int, 1 / 2::real), (1, 10, 3 / 4)])))
   \<and> (1, 10, 3 / 4) \<in> set (take 1 (sorted_reverse (\<lambda>x. snd (snd x)) (heapify [(1::int, 20::int, 1 / 2::real), (1, 10, 3 / 4)])))
   \<and> rank_recommendations 1 [(1, 20, 1 / 2), (1, 10, 3 / 4)] = [(1, 10, 1)]"
  using ranking_ties_follow_heap_order[of 1 "[(1, 20, 1 / 2), (1, 10, 3 / 4)]"]
  by (simp add: heapify_def siftup_def siftdown_def siftup_loop.simps siftdown_loop.simps
      smaller_child_def Let_def sorted_reverse_def rank_insertion_order_def)

text \<open>
  Claim C2 as stated fails: content 20 was appended before content 10 with the same
  score, and the code ranks content 10 first, where the stable order of insertion ranks
  content 20 first.
\<close>
theorem ranking_ties_counterexample:
  "rank_recommendations 50 [(1, 20, 1 / 2), (1, 10, 1 / 2)] = [(1, 10, 1), (1, 20, 2)]
   \<and> rank_insertion_order 50 [(1, 20, 1 / 2), (1, 10, 1 / 2)] = [(1, 20, 1), (1, 10, 2)]"
  by (simp add: rank_recommendations_eq heapify_two rank_insertion_order_def
      sorted_reverse_def Let_def)

section \<open>Claim C3: the few-interest path\<close>

text \<open>
  Claim C3 states that a user with fewer than five distinct good items gets exactly the
  best never-seen items by similarity, and that Example A yields the single row
  (U1, 104, rank 1). The code does not do that: the supplement loop stands after the
  \<^verbatim>\<open>if\<close> and walks the same pool a second time without excluding what the
  few-interest loop has already appended (lemma \<open>user_candidates_few\<close>). On Example A,
  for every library instance, content 104 is returned twice, with the ranks 1 and 2.
\<close>
theorem few_interest_example_emits_twice:
  "returned_table lib example_A =
     Some (Inr [(1, 104, 1, ''content_based''), (1, 104, 2, ''content_based'')])
   \<and> returned_table lib example_A \<noteq> Some (Inr [(1, 104, 1, ''content_based'')])"
  by (simp add: example_A_evaluated)

section \<open>Claim C4: row count and ranks per user\<close>

text \<open>
  Claim C4. Whenever \<^verbatim>\<open>get_recommendations\<close> returns a table, from any state of the
  object and for every library instance, the rows of each user id are at most
  \<open>total_recommendations\<close> (50) many, and their ranks, in table order, are exactly
  1, 2, ..., count: contiguous from 1 and without duplicates.
\<close>
theorem output_count_and_ranks:
  assumes "returned_table lib st = Some (Inr table)"
  shows "length (filter (\<lambda>r. fst r = u) table) \<le> total_recommendations
       \<and> map (\<lambda>r. fst (snd (snd r))) (filter (\<lambda>r. fst r = u) table)
           = [1..<Suc (length (filter (\<lambda>r. fst r = u) table))]"
proof -
  from assms obtain st' where "get_recommendations lib st = Some (Inr st')"
    and t: "recommendations_df st' = table"
    unfolding returned_table_Inr by blast
  then obtain st1 where "generate_recommendations lib st1 = Inr st'"
    unfolding get_recommendations_Some_Inr by blast
  from table_rows_of_user[OF this, of u] show ?thesis
    unfolding t by blast
qed

text \<open>The theorem at Example A: user 1 has two rows, with the ranks 1 and 2.\<close>
theorem output_count_and_ranks_witness:
  "returned_table (sklearn_exact []) example_A =
       Some (Inr [(1, 104, 1, ''content_based''), (1, 104, 2, ''content_based'')])
   \<and> length (filter (\<lambda>r. fst r = 1)
        [(1::int, 104::int, 1::nat, ''content_based''), (1, 104, 2, ''content_based'')]) = 2
   \<and> length (filter (\<lambda>r. fst r = 1)
        [(1::int, 104::int, 1::nat, ''content_based''), (1, 104, 2, ''content_based'')])
         \<le> total_recommendations
   \<and> map (\<lambda>r. fst (snd (snd r))) (filter (\<lambda>r. fst r = 1)
        [(1::int, 104::int, 1::nat, ''content_based''), (1, 104, 2, ''content_based'')]) = [1, 2]"
  using output_count_and_ranks[where lib = "sklearn_exact []" and st = example_A and u = 1,
      OF example_A_evaluated]
  by (simp add: example_A_evaluated)

section \<open>Claim C5: nothing already rated is emitted\<close>

text \<open>
  Claim C5. Whenever \<^verbatim>\<open>get_recommendations\<close> returns a table, no row of a user
  holds a content id of that user's \<^verbatim>\<open>previous_interactions\<close>, the set stored in the
  user's profile; for a user of the interaction log this set is the union of the
  content ids the user rated 4 or 5 and those the user rated 1 or 2. All three loops
  that append candidates (few-interest path, neighbours of a cluster, supplement) test
  membership in that set before they append, which is what the lemmas on the loops
  above establish.
\<close>
theorem no_previous_interaction_emitted:
  assumes "returned_table lib st = Some (Inr table)"
    and "(u, c, rank, src) \<in> set table"
  shows "(\<exists>st' prof. get_recommendations lib st = Some (Inr st') \<and>
            DAList.lookup (user_profiles st') u = Some prof \<and> c \<notin> previous_interactions prof)
       \<and> (u \<in> fst ` set (interactions_df st) \<longrightarrow>
            c \<notin> good_ids (interactions_df st) u \<union> negative_ids (interactions_df st) u)"
proof -
  from assms(1) obtain st' where run: "get_recommendations lib st = Some (Inr st')"
    and t: "recommendations_df st' = table"
    unfolding returned_table_Inr by blast
  from pipeline_profiles[OF run] obtain m st1 where
    pd: "profiles_done lib (st\<lparr>all_vectors := m\<rparr>) (unique (map fst (interactions_df st))) st1"
    and gr: "generate_recommendations lib st1 = Inr st'" by blast
  from table_row_unseen[OF gr, of u c rank src] assms(2) t
  obtain prof where prof: "DAList.lookup (user_profiles st1) u = Some prof"
    "c \<notin> previous_interactions prof" by blast
  have 1: "\<exists>st' prof. get_recommendations lib st = Some (Inr st') \<and>
            DAList.lookup (user_profiles st') u = Some prof \<and> c \<notin> previous_interactions prof"
    using run prof generate_recommendations_keeps(1)[OF gr] by auto
  have 2: "u \<in> fst ` set (interactions_df st) \<longrightarrow>
            c \<notin> good_ids (interactions_df st) u \<union> negative_ids (interactions_df st) u"
  proof
    assume "u \<in> fst ` set (interactions_df st)"
    then have "DAList.lookup (user_profiles st1) u =
        Some (profile_of lib (content_df st) (interactions_df st) u)"
      using pd by (simp add: profiles_done_def)
    then have "previous_interactions prof =
        good_ids (interactions_df st) u \<union> negative_ids (interactions_df st) u"
      using prof(1) by (auto simp: profile_of_def)
    then show "c \<notin> good_ids (interactions_df st) u \<union> negative_ids (interactions_df st) u"
      using prof(2) by simp
  qed
  show ?thesis using 1 2 by blast
qed

text \<open>The theorem at Example A: content 104 is emitted for user 1, whose previous
  interactions are 101, 102 and 103.\<close>
theorem no_previous_interaction_emitted_witness:
  "returned_table (sklearn_exact []) example_A =
       Some (Inr [(1, 104, 1, ''content_based''), (1, 104, 2, ''content_based'')])
   \<and> (1, 104, 1, ''content_based'')
        \<in> set [(1::int, 104::int, 1::nat, ''content_based''), (1, 104, 2, ''content_based'')]
   \<and> 1 \<in> fst ` set (interactions_df example_A)
   \<and> good_ids (interactions_df example_A) 1 \<union> negative_ids (interactions_df example_A) 1
        = {101, 102, 103}
   \<and> 104 \<notin> good_ids (interactions_df example_A) 1 \<union> negative_ids (interactions_df example_A) 1"
proof -
  have row: "(1, 104, 1, ''content_based'')
        \<in> set [(1::int, 104::int, 1::nat, ''content_based''), (1, 104, 2, ''content_based'')]"
    by simp
  have user: "1 \<in> fst ` set (interactions_df example_A)"
    by (simp add: example_A_def ClusteredKNN_init_def)
  have ids: "good_ids (interactions_df example_A) 1 \<union> negative_ids (interactions_df example_A) 1
        = {101, 102, 103}"
    by (auto simp: example_A_def ClusteredKNN_init_def good_ids_def negative_ids_def)
  from no_previous_interaction_emitted[where lib = "sklearn_exact []" and st = example_A,
      OF example_A_evaluated row] user
  have "104 \<notin> good_ids (interactions_df example_A) 1 \<union> negative_ids (interactions_df example_A) 1"
    by blast
  then show ?thesis
    using row user ids example_A_evaluated[of "sklearn_exact []"] by blast
qed

section \<open>Claim C6: neighbour counts per cluster\<close>

text \<open>
  Claim C6. Let the labels be one per row of the user's content, let these rows and the
  catalog matrix have embeddings of one length, at least 1, and let the catalog not be
  empty. Let \<open>(c, p)\<close> be an entry of \<^verbatim>\<open>value_counts(normalize=True)\<close> of the labels with
  \<open>c\<close> not the noise label -1. Then \<open>c\<close> is a label (it occurs once in the list of
  entries) and \<open>p\<close> is its membership proportion: the number of rows with label \<open>c\<close>
  divided by the number of rows, above 0 and at most 1. The rounded product of the cap
  and \<open>p\<close> is the integer nearest to it, the even one of the two when it lies half-way
  (Python's \<^verbatim>\<open>round\<close>). The cluster loop reaches this entry without an error, the
  centroid of the cluster exists, and the neighbour query is made with the maximum of 1
  and the rounded product, clamped to the catalog size: a number between 1 and the
  catalog size, so the query does not raise and returns exactly that many neighbours,
  with which the loop goes on. The whole loop over the entries does not raise, and
  entries with the label -1 contribute nothing. Ten labels, seven of them 0 and three
  of them 1, have the proportions 0.7 and 0.3; with a cap of 10 and the proportions
  0.7, 0.3 and 0.0 for the labels 0, 1 and -1 the slot counts are 7 and 3.
\<close>
theorem cluster_slots_clamped:
  assumes "length labels = length uc"
    and "list_all (\<lambda>row. length (snd row) = d) uc"
    and "0 < d"
    and "list_all (\<lambda>v. length v = d) (all_vectors st)"
    and "all_vectors st \<noteq> []"
    and "length (all_vectors st) = length (content_df st)"
    and "value_counts_normalize labels = pre @ (c, p) # post"
    and "c \<noteq> - 1"
  shows "c \<in> set labels
    \<and> c \<notin> fst ` set pre \<and> c \<notin> fst ` set post
    \<and> p = real (count_list labels c) / real (length labels)
    \<and> 0 < p \<and> p \<le> 1
    \<and> (\<forall>n. py_round (real cap * p) = n \<longleftrightarrow>
              \<bar>real_of_int n - real cap * p\<bar> < 1 / 2
            \<or> (\<bar>real_of_int n - real cap * p\<bar> = 1 / 2 \<and> even n))
    \<and> (\<exists>recs1 centroid nbs.
          cluster_loop lib cap st u prev uc labels pre recs = Inr recs1
        \<and> cluster_vector uc labels c = Inr centroid
        \<and> kneighbors lib
            (min (nat (max 1 (py_round (real cap * p)))) (length (all_vectors st)))
            (all_vectors st) centroid = Inr nbs
        \<and> length nbs = min (nat (max 1 (py_round (real cap * p)))) (length (all_vectors st))
        \<and> 1 \<le> length nbs \<and> length nbs \<le> length (all_vectors st)
        \<and> cluster_loop lib cap st u prev uc labels (value_counts_normalize labels) recs =
            (case neighbor_loop cap st u prev nbs recs1 of
               Inl e \<Rightarrow> Inl e
             | Inr recs2 \<Rightarrow> cluster_loop lib cap st u prev uc labels post recs2))
    \<and> (\<exists>out. cluster_loop lib cap st u prev uc labels (value_counts_normalize labels) recs
                = Inr out)
    \<and> cluster_loop lib cap st u prev uc labels (value_counts_normalize labels) recs =
        cluster_loop lib cap st u prev uc labels
          (filter (\<lambda>cp. fst cp \<noteq> - 1) (value_counts_normalize labels)) recs
    \<and> value_counts_normalize [0, 0, 0, 0, 0, 0, 0, 1, 1, 1] = [(0, 7 / 10), (1, 3 / 10)]
    \<and> map (\<lambda>cp. (fst cp, cluster_recommendation_count 10 (snd cp)))
         (filter (\<lambda>cp. fst cp \<noteq> - 1) [(0::int, 7 / 10), (1, 3 / 10), (- 1, 0)])
        = [(0, 7), (1, 3)]"
proof -
  let ?vc = "value_counts_normalize labels"
  let ?k = "min (nat (max 1 (py_round (real cap * p)))) (length (all_vectors st))"
  have mem: "(c, p) \<in> set ?vc" unfolding assms(7) by simp
  note e = value_counts_entry[OF mem]
  have "distinct (map fst pre @ c # map fst post)"
    using value_counts_distinct[of labels] unfolding assms(7) by simp
  then have 2: "c \<notin> fst ` set pre" "c \<notin> fst ` set post" by auto
  have 5: "\<forall>n. py_round (real cap * p) = n \<longleftrightarrow>
              \<bar>real_of_int n - real cap * p\<bar> < 1 / 2
            \<or> (\<bar>real_of_int n - real cap * p\<bar> = 1 / 2 \<and> even n)"
  proof (intro allI iffI)
    fix n assume "py_round (real cap * p) = n"
    then show "\<bar>real_of_int n - real cap * p\<bar> < 1 / 2
            \<or> (\<bar>real_of_int n - real cap * p\<bar> = 1 / 2 \<and> even n)"
      using py_round_nearest[of "real cap * p"] py_round_half_even[of "real cap * p"]
      by fastforce
  next
    fix n assume "\<bar>real_of_int n - real cap * p\<bar> < 1 / 2
            \<or> (\<bar>real_of_int n - real cap * p\<bar> = 1 / 2 \<and> even n)"
    then show "py_round (real cap * p) = n" by (rule py_round_unique)
  qed
  have all_in: "list_all (\<lambda>cp. fst cp \<in> set labels) ?vc"
    using value_counts_labels[of labels] by (auto simp: list_all_iff)
  then have pre_in: "list_all (\<lambda>cp. fst cp \<in> set labels) pre"
    unfolding assms(7) by simp
  from cluster_loop_total[OF assms(1,2,5,6,3,4) pre_in]
  obtain recs1 where pre: "cluster_loop lib cap st u prev uc labels pre recs = Inr recs1"
    by blast
  from cluster_vector_total[OF assms(1) e(1) assms(2)]
  obtain centroid where cv: "cluster_vector uc labels c = Inr centroid"
    and lc: "length centroid = d" by blast
  have k: "?k = n_neighbors cap p st"
    by (simp add: n_neighbors_def cluster_recommendation_count_def)
  have b: "0 < ?k" "?k \<le> length (all_vectors st)"
    using n_neighbors_bounds[OF assms(5), of cap p] unfolding k by auto
  have q: "centroid \<noteq> []" "list_all (\<lambda>v. length v = length centroid) (all_vectors st)"
    using assms(3,4) lc by auto
  from kneighbors_Inr[OF b q, of lib]
  obtain nbs where kn: "kneighbors lib ?k (all_vectors st) centroid = Inr nbs"
    and ln: "length nbs = ?k" by blast
  have bounds: "1 \<le> length nbs" "length nbs \<le> length (all_vectors st)"
    unfolding ln using b by linarith+
  have step: "cluster_loop lib cap st u prev uc labels ((c, p) # post) recs1 =
      (case neighbor_loop cap st u prev nbs recs1 of
         Inl e \<Rightarrow> Inl e
       | Inr recs2 \<Rightarrow> cluster_loop lib cap st u prev uc labels post recs2)"
    using assms(8) cv kn by (simp add: k)
  have eq: "cluster_loop lib cap st u prev uc labels ?vc recs =
      (case neighbor_loop cap st u prev nbs recs1 of
         Inl e \<Rightarrow> Inl e
       | Inr recs2 \<Rightarrow> cluster_loop lib cap st u prev uc labels post recs2)"
    unfolding assms(7) cluster_loop_append pre using step by simp
  have 6: "\<exists>recs1 centroid nbs.
          cluster_loop lib cap st u prev uc labels pre recs = Inr recs1
        \<and> cluster_vector uc labels c = Inr centroid
        \<and> kneighbors lib ?k (all_vectors st) centroid = Inr nbs
        \<and> length nbs = ?k
        \<and> 1 \<le> length nbs \<and> length nbs \<le> length (all_vectors st)
        \<and> cluster_loop lib cap st u prev uc labels ?vc recs =
            (case neighbor_loop cap st u prev nbs recs1 of
               Inl e \<Rightarrow> Inl e
             | Inr recs2 \<Rightarrow> cluster_loop lib cap st u prev uc labels post recs2)"
    using pre cv kn ln bounds eq
    by (intro exI[of _ recs1] exI[of _ centroid] exI[of _ nbs] conjI)
  have 7: "\<exists>out. cluster_loop lib cap st u prev uc labels ?vc recs = Inr out"
    by (rule cluster_loop_total[OF assms(1,2,5,6,3,4) all_in])
  have 8: "cluster_loop lib cap st u prev uc labels ?vc recs =
        cluster_loop lib cap st u prev uc labels (filter (\<lambda>cp. fst cp \<noteq> - 1) ?vc) recs"
    by (rule cluster_loop_skips_noise)
  have 9: "value_counts_normalize [0, 0, 0, 0, 0, 0, 0, 1, 1, 1] = [(0, 7 / 10), (1, 3 / 10)]"
    by (simp add: value_counts_normalize_def unique_def)
  have 10: "map (\<lambda>cp. (fst cp, cluster_recommendation_count 10 (snd cp)))
         (filter (\<lambda>cp. fst cp \<noteq> - 1) [(0::int, 7 / 10), (1, 3 / 10), (- 1, 0)])
        = [(0, 7), (1, 3)]"
    by (simp add: cluster_recommendation_count_def py_round_def frac_def)
  show ?thesis
    using e(1) 2 e(2,3,4) 5 6 7 8 9 10 by (intro conjI)
qed

text \<open>The theorem at a catalog of three rows and a user with two good items in one
  cluster: the proportion is 1, the slot count of 10 is clamped to 3, the query returns
  the three rows in increasing distance, and the loop appends them.\<close>
theorem cluster_slots_clamped_witness:
  "length [1::int, 1] = length [(1::int, [3::real, 0]), (2, [0, 4])]
   \<and> list_all (\<lambda>row. length (snd row) = 2) [(1::int, [3::real, 0]), (2, [0, 4])]
   \<and> (0::nat) < 2
   \<and> list_all (\<lambda>v. length v = 2) (all_vectors state_W)
   \<and> all_vectors state_W \<noteq> []
   \<and> length (all_vectors state_W) = length (content_df state_W)
   \<and> value_counts_normalize [1, 1] = [] @ (1, 1) # []
   \<and> (1::int) \<noteq> - 1
   \<and> py_round (real 10 * 1) = 10
   \<and> min (nat (max 1 (py_round (real 10 * 1)))) (length (all_vectors state_W)) = 3
   \<and> kneighbors (sklearn_exact []) 3 (all_vectors state_W) [3 / 2, 2]
        = Inr [(0, 2), (1 / 5, 1), (2 / 5, 0)]
   \<and> cluster_loop (sklearn_exact []) 10 state_W 7 {} [(1, [3, 0]), (2, [0, 4])] [1, 1]
        (value_counts_normalize [1, 1]) []
       = Inr [(7, 2000, 1), (7, 2, 4 / 5), (7, 1, 3 / 5)]"
proof -
  have h1: "length [1::int, 1] = length [(1::int, [3::real, 0]), (2, [0, 4])]" by simp
  have h2: "list_all (\<lambda>row. length (snd row) = 2) [(1::int, [3::real, 0]), (2, [0, 4])]"
    by simp
  have h3: "(0::nat) < 2" by simp
  have h4: "list_all (\<lambda>v. length v = 2) (all_vectors state_W)" by (simp add: state_W_def)
  have h5: "all_vectors state_W \<noteq> []" by (simp add: state_W_def)
  have h6: "length (all_vectors state_W) = length (content_df state_W)"
    by (simp add: state_W_def ClusteredKNN_init_def)
  have h7: "value_counts_normalize [1, 1] = [] @ (1, 1) # []"
    by (simp add: value_counts_normalize_def unique_def)
  have h8: "(1::int) \<noteq> - 1" by simp
  have r0: "py_round 10 = 10" by (simp add: py_round_def frac_def)
  have r: "py_round (real 10 * 1) = 10" by (simp add: r0)
  have m: "min (nat (max 1 (py_round (real 10 * 1)))) (length (all_vectors state_W)) = 3"
    by (simp add: r0 state_W_def)
  have k: "kneighbors (sklearn_exact []) 3 (all_vectors state_W) [3 / 2, 2]
        = Inr [(0, 2), (1 / 5, 1), (2 / 5, 0)]"
    by (simp add: kneighbors_def state_W_def cosine_distance_def sklearn_exact_def cosine_exact_345)
  from cluster_slots_clamped[OF h1 h2 h3 h4 h5 h6 h7 h8,
      where lib = "sklearn_exact []" and cap = 10 and u = 7 and prev = "{}" and recs = "[]"]
  obtain recs1 centroid nbs where
    pre: "cluster_loop (sklearn_exact []) 10 state_W 7 {} [(1, [3, 0]), (2, [0, 4])] [1, 1] [] []
            = Inr recs1"
    and cv: "cluster_vector [(1, [3, 0]), (2, [0, 4])] [1, 1] 1 = Inr centroid"
    and kn: "kneighbors (sklearn_exact [])
            (min (nat (max 1 (py_round (real 10 * 1)))) (length (all_vectors state_W)))
            (all_vectors state_W) centroid = Inr nbs"
    and eq: "cluster_loop (sklearn_exact []) 10 state_W 7 {} [(1, [3, 0]), (2, [0, 4])] [1, 1]
            (value_counts_normalize [1, 1]) [] =
            (case neighbor_loop 10 state_W 7 {} nbs recs1 of
               Inl e \<Rightarrow> Inl e
             | Inr recs2 \<Rightarrow>
                 cluster_loop (sklearn_exact []) 10 state_W 7 {} [(1, [3, 0]), (2, [0, 4])]
                   [1, 1] [] recs2)"
    by blast
  have recs1: "recs1 = []" using pre by simp
  have centroid: "centroid = [3 / 2, 2]" using cv centroid_W by simp
  have nbs: "nbs = [(0, 2), (1 / 5, 1), (2 / 5, 0)]"
    using kn unfolding m centroid k by simp
  have "cluster_loop (sklearn_exact []) 10 state_W 7 {} [(1, [3, 0]), (2, [0, 4])] [1, 1]
        (value_counts_normalize [1, 1]) []
       = Inr [(7, 2000, 1), (7, 2, 4 / 5), (7, 1, 3 / 5)]"
    unfolding eq recs1 nbs
    by (simp add: state_W_def ClusteredKNN_init_def iloc_def)
  then show ?thesis using h1 h2 h3 h4 h5 h6 h7 h8 r m k by (intro conjI)
qed

section \<open>Claim C7: the partition of a user's interactions\<close>

text \<open>
  Claim C7. After profile building has returned (any batch size from 1 on), the profile
  stored for a user of the interaction log has as \<^verbatim>\<open>previous_interactions\<close> exactly the
  union of the content ids the user rated 4 or 5 (good) and those the user rated 1 or 2
  (negative); its content is the catalog rows of the good ids, and the stored scores are
  the similarities of the positive-interest vector of these rows, neither of which has
  raised. Interactions rated 3 contribute to neither: the profile and the scores are the
  same when the rows rated 3 are removed from the log, and the loop body computes the
  same from a group with and without its rows rated 3.
\<close>
theorem profile_partition:
  assumes "1 \<le> batch_size"
    and "generate_user_profiles lib batch_size st = Some (Inr st')"
    and "u \<in> fst ` set (interactions_df st)"
  shows "\<exists>prof scores user_vector.
      DAList.lookup (user_profiles st') u = Some prof
    \<and> DAList.lookup (cosine_scores st') u = Some scores
    \<and> previous_interactions prof =
        {c. \<exists>r \<in> {4, 5}. (u, c, r) \<in> set (interactions_df st)}
        \<union> {c. \<exists>r \<in> {1, 2}. (u, c, r) \<in> set (interactions_df st)}
    \<and> content prof =
        filter (\<lambda>row. \<exists>r \<in> {4, 5}. (u, fst row, r) \<in> set (interactions_df st)) (content_df st)
    \<and> positive_vector (all_vectors st) (map snd (content prof)) = Inr user_vector
    \<and> cosine_similarity_row lib user_vector (all_vectors st) = Inr scores
    \<and> profile_of lib (content_df st) (filter (\<lambda>r. snd (snd r) \<noteq> 3) (interactions_df st)) u
        = prof
    \<and> user_scores lib (content_df st) (filter (\<lambda>r. snd (snd r) \<noteq> 3) (interactions_df st))
          (all_vectors st) u = Inr scores
    \<and> scores_of lib (content_df st) (filter (\<lambda>r. snd (snd r) \<noteq> 3) (interactions_df st))
          (all_vectors st) u = scores
    \<and> (\<forall>bc s ints. process_user lib bc s (u, filter (\<lambda>r. snd (snd r) \<noteq> 3) ints)
                      = process_user lib bc s (u, ints))"
proof -
  let ?idf = "interactions_df st"
  let ?prof = "profile_of lib (content_df st) ?idf u"
  let ?scores = "scores_of lib (content_df st) ?idf (all_vectors st) u"
  from generate_user_profiles_Inr[OF assms(1,2)]
  have pd: "profiles_done lib st (unique (map fst ?idf)) st'"
    and ok: "users_ok lib st (unique (map fst ?idf))" by auto
  have "\<not> isl (user_scores lib (content_df st) ?idf (all_vectors st) u)"
    using ok assms(3) unfolding users_ok_unique by blast
  then obtain scores where us: "user_scores lib (content_df st) ?idf (all_vectors st) u = Inr scores"
    by (cases "user_scores lib (content_df st) ?idf (all_vectors st) u") auto
  then have sc: "?scores = scores" by (rule scores_of_Inr)
  from us obtain user_vector where
    pv: "positive_vector (all_vectors st) (map snd (good_content_of (content_df st) ?idf u))
           = Inr user_vector"
    and cs: "cosine_similarity_row lib user_vector (all_vectors st) = Inr scores"
    by (auto simp: user_scores_def split: sum.splits)
  have 1: "DAList.lookup (user_profiles st') u = Some ?prof"
    and 2: "DAList.lookup (cosine_scores st') u = Some scores"
    using pd assms(3) sc by (simp_all add: profiles_done_def)
  have 3: "previous_interactions ?prof =
        {c. \<exists>r \<in> {4, 5}. (u, c, r) \<in> set ?idf} \<union> {c. \<exists>r \<in> {1, 2}. (u, c, r) \<in> set ?idf}"
    by (simp add: profile_of_def good_ids_set negative_ids_set)
  have 4: "content ?prof =
        filter (\<lambda>row. \<exists>r \<in> {4, 5}. (u, fst row, r) \<in> set ?idf) (content_df st)"
    by (simp add: profile_of_def good_content_of_def good_ids_set)
  have 5: "positive_vector (all_vectors st) (map snd (content ?prof)) = Inr user_vector"
    using pv by (simp add: profile_of_def)
  have 6: "profile_of lib (content_df st) (filter (\<lambda>r. snd (snd r) \<noteq> 3) ?idf) u = ?prof"
    by (simp add: profile_of_def good_content_of_def good_ids_drop_neutral)
  have 7: "user_scores lib (content_df st) (filter (\<lambda>r. snd (snd r) \<noteq> 3) ?idf) (all_vectors st) u
        = Inr scores"
    using us by (simp add: user_scores_def good_content_of_def good_ids_drop_neutral)
  have 8: "scores_of lib (content_df st) (filter (\<lambda>r. snd (snd r) \<noteq> 3) ?idf) (all_vectors st) u
        = scores"
    using 7 by (rule scores_of_Inr)
  have 9: "\<forall>bc s ints. process_user lib bc s (u, filter (\<lambda>r. snd (snd r) \<noteq> 3) ints)
                      = process_user lib bc s (u, ints)"
    by (simp add: process_user_drop_neutral)
  show ?thesis
    using 1 2 3 4 5 cs 6 7 8 9
    by (intro exI[of _ ?prof] exI[of _ scores] exI[of _ user_vector] conjI)
qed

text \<open>The theorem at a user who rated 101 with 5, 102 with 3 and 103 with 1, over a
  stacked catalog of three embeddings: the previous interactions are 101 and 103, the
  content is the row of 101, and the positive-interest vector is the embedding of 101.\<close>
theorem profile_partition_witness:
  "(1::int) \<le> 20
   \<and> 1 \<in> fst ` set (interactions_df example_R)
   \<and> (\<exists>st' prof. generate_user_profiles (sklearn_exact []) 20 example_R = Some (Inr st')
         \<and> DAList.lookup (user_profiles st') 1 = Some prof
         \<and> previous_interactions prof = {101, 103}
         \<and> content prof = [(101, [1, 0])]
         \<and> positive_vector (all_vectors example_R) (map snd (content prof)) = Inr [1, 0])"
proof -
  have a: "(1::int) \<le> 20" by simp
  have b: "1 \<in> fst ` set (interactions_df example_R)"
    by (simp add: example_R_def ClusteredKNN_init_def)
  have s: "vstack (map snd (content_df example_R)) = Inr (all_vectors example_R)"
    "0 < shape1 (all_vectors example_R)"
    by (simp_all add: example_R_def ClusteredKNN_init_def vstack_def shape1_def)
  obtain st' where g: "generate_user_profiles (sklearn_exact []) 20 example_R = Some (Inr st')"
    using generate_user_profiles_stacked[OF a s, of "sklearn_exact []"] by blast
  from profile_partition[OF a g b] obtain prof where
    p: "DAList.lookup (user_profiles st') 1 = Some prof"
    and prev: "previous_interactions prof =
        {c. \<exists>r \<in> {4, 5}. (1, c, r) \<in> set (interactions_df example_R)}
        \<union> {c. \<exists>r \<in> {1, 2}. (1, c, r) \<in> set (interactions_df example_R)}"
    and cont: "content prof =
        filter (\<lambda>row. \<exists>r \<in> {4, 5}. (1, fst row, r) \<in> set (interactions_df example_R))
          (content_df example_R)"
    by blast
  have 1: "previous_interactions prof = {101, 103}"
    unfolding prev by (auto simp: example_R_def ClusteredKNN_init_def)
  have 2: "content prof = [(101, [1, 0])]"
    unfolding cont by (simp add: example_R_def ClusteredKNN_init_def)
  have 3: "positive_vector (all_vectors example_R) (map snd (content prof)) = Inr [1, 0]"
    unfolding 2 by (simp add: positive_vector_def vstack_def mean_axis0_def)
  show ?thesis using a b g p 1 2 3 by blast
qed

section \<open>Claim C8: the batch size\<close>

text \<open>
  Claim C8. For every object, every library instance and every two batch sizes from 1
  on, profile building returns with both, and with the same outcome. Either both runs
  raise the same error (some user's scores cannot be computed, whatever the batches), or
  both succeed, and then the two results hold the same profile and the same similarity
  scores for every user id: the two dictionaries are equal as Python compares
  dictionaries, key by key. Recommendation generation then raises on both results or on
  neither, and the two output tables hold the same rows: they are equal as multisets,
  and for every user id the rows of that user are the same, in the same order. Only the
  order in which the users were inserted, and with it the order of the users' blocks in
  the table, which the specification declares to carry no meaning, depends on the
  batches (lemma \<open>example_T_key_order\<close>).
\<close>
theorem batch_size_does_not_matter:
  assumes "1 \<le> b1" and "1 \<le> b2"
  shows "(generate_user_profiles lib b1 st = Some (Inl ValueError)
          \<and> generate_user_profiles lib b2 st = Some (Inl ValueError))
    \<or> (\<exists>s1 s2.
      generate_user_profiles lib b1 st = Some (Inr s1)
    \<and> generate_user_profiles lib b2 st = Some (Inr s2)
    \<and> DAList.lookup (user_profiles s1) = DAList.lookup (user_profiles s2)
    \<and> DAList.lookup (cosine_scores s1) = DAList.lookup (cosine_scores s2)
    \<and> (isl (generate_recommendations lib s1) \<longleftrightarrow> isl (generate_recommendations lib s2))
    \<and> (\<forall>t1 t2. generate_recommendations lib s1 = Inr t1 \<and> generate_recommendations lib s2 = Inr t2
          \<longrightarrow> mset (recommendations_df t1) = mset (recommendations_df t2)
              \<and> (\<forall>u. filter (\<lambda>r. fst r = u) (recommendations_df t1)
                     = filter (\<lambda>r. fst r = u) (recommendations_df t2))))"
proof (cases "users_ok lib st (unique (map fst (interactions_df st)))")
  case False
  have "generate_user_profiles lib b1 st = Some (Inl ValueError)"
    using generate_user_profiles_terminates[OF assms(1), of lib st] False by auto
  moreover have "generate_user_profiles lib b2 st = Some (Inl ValueError)"
    using generate_user_profiles_terminates[OF assms(2), of lib st] False by auto
  ultimately show ?thesis by blast
next
  case True
  let ?us = "unique (map fst (interactions_df st))"
  obtain s1 where g1: "generate_user_profiles lib b1 st = Some (Inr s1)"
    and p1: "profiles_done lib st ?us s1"
    using generate_user_profiles_terminates[OF assms(1), of lib st] True by auto
  obtain s2 where g2: "generate_user_profiles lib b2 st = Some (Inr s2)"
    and p2: "profiles_done lib st ?us s2"
    using generate_user_profiles_terminates[OF assms(2), of lib st] True by auto
  have lp: "DAList.lookup (user_profiles s1) = DAList.lookup (user_profiles s2)"
    using p1 p2 by (intro ext) (simp add: profiles_done_def)
  have ls: "DAList.lookup (cosine_scores s1) = DAList.lookup (cosine_scores s2)"
    using p1 p2 by (intro ext) (simp add: profiles_done_def)
  have keys: "fst ` set (DAList.impl_of (user_profiles s1)) = fst ` set (DAList.impl_of (user_profiles s2))"
    by (simp add: alist_keys lp)
  have blocks: "\<And>u. user_block lib total_recommendations s1 u = user_block lib total_recommendations s2 u"
    using p1 p2 by (intro user_block_cong) (simp_all add: lp ls profiles_done_def)
  have e: "isl (generate_recommendations lib s1) \<longleftrightarrow> isl (generate_recommendations lib s2)"
    unfolding generate_recommendations_isl keys blocks ..
  have t: "\<forall>t1 t2. generate_recommendations lib s1 = Inr t1 \<and> generate_recommendations lib s2 = Inr t2
          \<longrightarrow> mset (recommendations_df t1) = mset (recommendations_df t2)
              \<and> (\<forall>u. filter (\<lambda>r. fst r = u) (recommendations_df t1)
                     = filter (\<lambda>r. fst r = u) (recommendations_df t2))"
    using same_blocks_same_rows[OF _ _ keys blocks] by blast
  have "\<exists>s1 s2.
      generate_user_profiles lib b1 st = Some (Inr s1)
    \<and> generate_user_profiles lib b2 st = Some (Inr s2)
    \<and> DAList.lookup (user_profiles s1) = DAList.lookup (user_profiles s2)
    \<and> DAList.lookup (cosine_scores s1) = DAList.lookup (cosine_scores s2)
    \<and> (isl (generate_recommendations lib s1) \<longleftrightarrow> isl (generate_recommendations lib s2))
    \<and> (\<forall>t1 t2. generate_recommendations lib s1 = Inr t1 \<and> generate_recommendations lib s2 = Inr t2
          \<longrightarrow> mset (recommendations_df t1) = mset (recommendations_df t2)
              \<and> (\<forall>u. filter (\<lambda>r. fst r = u) (recommendations_df t1)
                     = filter (\<lambda>r. fst r = u) (recommendations_df t2)))"
    using g1 g2 lp ls e t by (intro exI[of _ s1] exI[of _ s2] conjI)
  then show ?thesis by (rule disjI2)
qed

text \<open>The theorem at a log of two users over a stacked catalog and the batch sizes 1 and
  2: both runs succeed, the stored profiles and scores agree, while the users were
  inserted in different orders.\<close>
theorem batch_size_does_not_matter_witness:
  "(1::int) \<le> 1 \<and> (1::int) \<le> 2
   \<and> (\<exists>s1 s2. generate_user_profiles (sklearn_exact []) 1 example_T = Some (Inr s1)
         \<and> generate_user_profiles (sklearn_exact []) 2 example_T = Some (Inr s2)
         \<and> DAList.lookup (user_profiles s1) = DAList.lookup (user_profiles s2)
         \<and> DAList.lookup (cosine_scores s1) = DAList.lookup (cosine_scores s2)
         \<and> map fst (DAList.impl_of (user_profiles s1)) = [2, 1]
         \<and> map fst (DAList.impl_of (user_profiles s2)) = [1, 2])"
proof -
  have a: "(1::int) \<le> 1" and b: "(1::int) \<le> 2" by simp_all
  have s: "vstack (map snd (content_df example_T)) = Inr (all_vectors example_T)"
    "0 < shape1 (all_vectors example_T)"
    by (simp_all add: example_T_def ClusteredKNN_init_def vstack_def shape1_def)
  have "generate_user_profiles (sklearn_exact []) 1 example_T \<noteq> Some (Inl ValueError)"
    using generate_user_profiles_stacked[OF a s, of "sklearn_exact []"] by auto
  with batch_size_does_not_matter[OF a b, of "sklearn_exact []" example_T]
  obtain s1 s2 where g: "generate_user_profiles (sklearn_exact []) 1 example_T = Some (Inr s1)"
    "generate_user_profiles (sklearn_exact []) 2 example_T = Some (Inr s2)"
    and l: "DAList.lookup (user_profiles s1) = DAList.lookup (user_profiles s2)"
    "DAList.lookup (cosine_scores s1) = DAList.lookup (cosine_scores s2)"
    by blast
  have "map fst (DAList.impl_of (user_profiles s1)) = [2, 1]"
    "map fst (DAList.impl_of (user_profiles s2)) = [1, 2]"
    using example_T_key_order[of "sklearn_exact []"] g by simp_all
  then show ?thesis using a b g l
    by (intro conjI exI[of _ s1] exI[of _ s2])
qed

section \<open>Claim C9: users without good items\<close>

text \<open>
  Claim C9 with the condition it needs. Let the catalog stack (it is not empty and its
  embeddings have one length), let the embeddings have at least one component, and let a
  user of the interaction log have no good vector: no catalog row carries a content id
  that the user rated 4 or 5 (the user has no such rating, or only for ids that are not
  in the catalog). Then the loop body does not raise for a group of this user, and
  profile building returns without an error for every batch size from 1 on; the
  positive-interest vector of the user is the zero vector whose length is the embedding
  length of the catalog; the similarity of that vector to the catalog does not raise
  and gives one score per catalog row; these scores and the user's profile (no content,
  no clusters, the rated ids as previous interactions) are stored; and recommendation
  generation for that user does not raise. From a fresh object the whole run returns a
  table, and the rows of the user in it are the ranked rows of that pass.
\<close>
theorem empty_good_set_gives_zero_profile:
  assumes "vstack (map snd (content_df st)) = Inr m"
    and "0 < shape1 m"
    and "1 \<le> batch_size"
    and "u \<in> fst ` set (interactions_df st)"
    and "good_content_of (content_df st) (interactions_df st) u = []"
  shows "\<exists>st1 scores rows.
      generate_user_profiles lib batch_size (st\<lparr>all_vectors := m\<rparr>) = Some (Inr st1)
    \<and> positive_vector m (map snd (good_content_of (content_df st) (interactions_df st) u))
        = Inr (replicate (shape1 m) 0)
    \<and> list_all (\<lambda>v. length v = shape1 m) m
    \<and> cosine_similarity_row lib (replicate (shape1 m) 0) m = Inr scores
    \<and> length scores = length (content_df st)
    \<and> DAList.lookup (cosine_scores st1) u = Some scores
    \<and> DAList.lookup (user_profiles st1) u
        = Some \<lparr>content = [], clusters = [],
                previous_interactions =
                  good_ids (interactions_df st) u \<union> negative_ids (interactions_df st) u\<rparr>
    \<and> (\<forall>(bc::content_row list) (s::ClusteredKNN) (ints::interaction list).
          all_vectors s = m \<and>
          filter (\<lambda>row. fst row \<in> set (map (\<lambda>r. fst (snd r))
                    (filter (\<lambda>r. snd (snd r) \<in> {4, 5}) ints))) bc = []
          \<longrightarrow> \<not> isl (process_user lib bc s (u, ints)))
    \<and> user_block lib total_recommendations st1 u = Inr rows
    \<and> (user_profiles st = DAList.empty \<longrightarrow>
         (\<exists>st'. get_recommendations lib st = Some (Inr st') \<and>
            filter (\<lambda>r. fst r = u) (recommendations_df st')
              = map (\<lambda>r. (fst r, fst (snd r), snd (snd r), ''content_based'')) rows))"
proof -
  let ?us = "unique (map fst (interactions_df st))"
  let ?st0 = "st\<lparr>all_vectors := m\<rparr>"
  let ?zero = "replicate (shape1 m) (0::real)"
  have stacked: "vstack (map snd (content_df ?st0)) = Inr (all_vectors ?st0)"
    "0 < shape1 (all_vectors ?st0)"
    using assms(1,2) by simp_all
  obtain st1 where g: "generate_user_profiles lib batch_size ?st0 = Some (Inr st1)"
    and pd: "profiles_done lib ?st0 ?us st1"
    using generate_user_profiles_stacked[OF assms(3) stacked, of lib] by auto
  have gc: "good_content_of (content_df st) (interactions_df st) u = []"
    by (rule assms(5))
  have 2: "positive_vector m (map snd (good_content_of (content_df st) (interactions_df st) u))
        = Inr ?zero"
    by (simp add: gc positive_vector_def)
  have m: "m \<noteq> []" "length m = length (content_df st)"
    using vstack_shape(1,2)[OF assms(1)] by auto
  have 3: "list_all (\<lambda>v. length v = shape1 m) m"
    using vstack_shape(1,3)[OF assms(1)] by simp
  have z: "?zero \<noteq> []" using assms(2) by auto
  have 4: "cosine_similarity_row lib ?zero m = Inr (map (cosine_similarity lib ?zero) m)"
    using m(1) z 3 by (simp add: cosine_similarity_row_def)
  have len: "length (map (cosine_similarity lib ?zero) m) = length (content_df st)"
    using m(2) by simp
  have us: "user_scores lib (content_df st) (interactions_df st) m u
        = Inr (map (cosine_similarity lib ?zero) m)"
    by (simp add: user_scores_def 2 4)
  have 5: "DAList.lookup (cosine_scores st1) u = Some (map (cosine_similarity lib ?zero) m)"
    using pd assms(4) by (simp add: profiles_done_def scores_of_Inr[OF us])
  have 6: "DAList.lookup (user_profiles st1) u
        = Some \<lparr>content = [], clusters = [],
                previous_interactions =
                  good_ids (interactions_df st) u \<union> negative_ids (interactions_df st) u\<rparr>"
    using pd assms(4) by (simp add: profiles_done_def profile_of_def gc cluster_labels_def)
  have 7: "\<forall>(bc::content_row list) (s::ClusteredKNN) (ints::interaction list).
          all_vectors s = m \<and>
          filter (\<lambda>row. fst row \<in> set (map (\<lambda>r. fst (snd r))
                    (filter (\<lambda>r. snd (snd r) \<in> {4, 5}) ints))) bc = []
          \<longrightarrow> \<not> isl (process_user lib bc s (u, ints))"
  proof (intro allI impI)
    fix bc :: "content_row list" and s :: ClusteredKNN and ints :: "interaction list"
    assume a: "all_vectors s = m \<and>
          filter (\<lambda>row. fst row \<in> set (map (\<lambda>r. fst (snd r))
                    (filter (\<lambda>r. snd (snd r) \<in> {4, 5}) ints))) bc = []"
    have pv: "positive_vector m [] = Inr ?zero" by (simp add: positive_vector_def)
    show "\<not> isl (process_user lib bc s (u, ints))"
      unfolding process_user_def Let_def fst_conv snd_conv
      using a by (simp add: pv 4)
  qed
  obtain rows where 8: "user_block lib total_recommendations st1 u = Inr rows"
    using blocks_after_profiles[OF assms(1,2) pd, of u] assms(4) by auto
  have 9: "user_profiles st = DAList.empty \<longrightarrow>
         (\<exists>st'. get_recommendations lib st = Some (Inr st') \<and>
            filter (\<lambda>r. fst r = u) (recommendations_df st')
              = map (\<lambda>r. (fst r, fst (snd r), snd (snd r), ''content_based'')) rows)"
  proof
    assume fresh: "user_profiles st = DAList.empty"
    from pipeline_total[OF assms(1,2) fresh] obtain st' where
      run: "get_recommendations lib st = Some (Inr st')" by blast
    from pipeline_profiles[OF run] obtain m' st2 where
      m': "vstack (map snd (content_df st)) = Inr m'"
      and pd2: "profiles_done lib (st\<lparr>all_vectors := m'\<rparr>) ?us st2"
      and gr: "generate_recommendations lib st2 = Inr st'" by blast
    have mm: "m' = m" using m' assms(1) by simp
    have same: "user_block lib total_recommendations st2 u = user_block lib total_recommendations st1 u"
      using pd pd2 unfolding mm
      by (intro user_block_cong) (simp_all add: profiles_done_def)
    have key: "u \<in> fst ` set (DAList.impl_of (user_profiles st2))"
      using profiles_done_fresh_keys[OF pd2] fresh assms(4) by simp
    have "filter (\<lambda>r. fst r = u) (recommendations_df st')
              = map (\<lambda>r. (fst r, fst (snd r), snd (snd r), ''content_based'')) rows"
      using user_rows(1)[OF gr, of u] key same 8 by simp
    then show "\<exists>st'. get_recommendations lib st = Some (Inr st') \<and>
            filter (\<lambda>r. fst r = u) (recommendations_df st')
              = map (\<lambda>r. (fst r, fst (snd r), snd (snd r), ''content_based'')) rows"
      using run by blast
  qed
  show ?thesis
    using g 2 3 4 len 5 6 7 8 9
    by (intro exI[of _ st1] exI[of _ "map (cosine_similarity lib ?zero) m"] exI[of _ rows] conjI)
qed

text \<open>The theorem at a user who rated one item 3, one item 1 and an id that is not in the
  catalog 5, with a catalog of two embeddings of length 2: the scores are those of the
  zero vector, one per catalog row.\<close>
theorem empty_good_set_gives_zero_profile_witness:
  "vstack (map snd (content_df example_N)) = Inr [[1, 0], [0, 1]]
   \<and> 0 < shape1 [[1, 0], [0, 1]]
   \<and> (1::int) \<le> 20
   \<and> 1 \<in> fst ` set (interactions_df example_N)
   \<and> good_content_of (content_df example_N) (interactions_df example_N) 1 = []
   \<and> good_ids (interactions_df example_N) 1 = {999}
   \<and> (\<exists>st1. generate_user_profiles (sklearn_exact []) 20
                 (example_N\<lparr>all_vectors := [[1, 0], [0, 1]]\<rparr>) = Some (Inr st1)
            \<and> DAList.lookup (cosine_scores st1) 1 = Some [0, 0]
            \<and> DAList.lookup (user_profiles st1) 1
                 = Some \<lparr>content = [], clusters = [], previous_interactions = {999, 102}\<rparr>)"
proof -
  have a: "vstack (map snd (content_df example_N)) = Inr [[1, 0], [0, 1]]"
    by (simp add: example_N_def ClusteredKNN_init_def vstack_def)
  have e: "shape1 [[1, 0], [0, 1]] = 2" by (simp add: shape1_def)
  have f: "0 < shape1 [[1, 0], [0, 1]]" by (simp add: e)
  have b: "(1::int) \<le> 20" by simp
  have c: "1 \<in> fst ` set (interactions_df example_N)"
    by (simp add: example_N_def ClusteredKNN_init_def)
  have gi: "good_ids (interactions_df example_N) 1 = {999}"
    by (auto simp: example_N_def ClusteredKNN_init_def good_ids_def)
  have d: "good_content_of (content_df example_N) (interactions_df example_N) 1 = []"
    by (simp add: good_content_of_def gi) (simp add: example_N_def ClusteredKNN_init_def)
  have n: "negative_ids (interactions_df example_N) 1 = {102}"
    by (auto simp: example_N_def ClusteredKNN_init_def negative_ids_def)
  have z: "cosine_similarity_row (sklearn_exact []) (replicate (shape1 [[1, 0], [0, 1]]) 0)
             [[1, 0], [0, 1]] = Inr [0, 0]"
    by (simp add: e cosine_similarity_row_def sklearn_exact_def cosine_similarity_exact_def
        dot_def numeral_2_eq_2)
  from empty_good_set_gives_zero_profile[OF a f b c d, of "sklearn_exact []"]
  obtain st1 scores where "generate_user_profiles (sklearn_exact []) 20
                 (example_N\<lparr>all_vectors := [[1, 0], [0, 1]]\<rparr>) = Some (Inr st1)"
    "cosine_similarity_row (sklearn_exact []) (replicate (shape1 [[1, 0], [0, 1]]) 0)
             [[1, 0], [0, 1]] = Inr scores"
    "DAList.lookup (cosine_scores st1) 1 = Some scores"
    "DAList.lookup (user_profiles st1) 1
                 = Some \<lparr>content = [], clusters = [], previous_interactions = {999} \<union> {102}\<rparr>"
    unfolding gi n by blast
  then have "generate_user_profiles (sklearn_exact []) 20
                 (example_N\<lparr>all_vectors := [[1, 0], [0, 1]]\<rparr>) = Some (Inr st1)
            \<and> DAList.lookup (cosine_scores st1) 1 = Some [0, 0]
            \<and> DAList.lookup (user_profiles st1) 1
                 = Some \<lparr>content = [], clusters = [], previous_interactions = {999, 102}\<rparr>"
    using z by auto
  then show ?thesis using a f b c d gi by blast
qed

text \<open>
  Claim C9 as stated fails without that condition. The catalog below stacks, but its
  embeddings have no component; the only user has no rating of 4 or 5. The
  positive-interest vector is the zero vector of length 0, the cosine similarity rejects
  it, and profile building and the whole run end with that error.
\<close>
theorem empty_good_set_counterexample:
  "good_ids (interactions_df example_Z) 1 = {}
   \<and> 1 \<in> fst ` set (interactions_df example_Z)
   \<and> vstack (map snd (content_df example_Z)) = Inr [[], []]
   \<and> positive_vector [[], []]
        (map snd (good_content_of (content_df example_Z) (interactions_df example_Z) 1)) = Inr []
   \<and> cosine_similarity_row (sklearn_exact []) [] [[], []] = Inl ValueError
   \<and> generate_user_profiles (sklearn_exact []) 20 (example_Z\<lparr>all_vectors := [[], []]\<rparr>)
        = Some (Inl ValueError)
   \<and> get_recommendations (sklearn_exact []) example_Z = Some (Inl ValueError)
   \<and> returned_table (sklearn_exact []) example_Z = Some (Inl ValueError)"
proof -
  let ?st0 = "example_Z\<lparr>all_vectors := [[], []]\<rparr>"
  have gi: "good_ids (interactions_df example_Z) 1 = {}"
    by (simp add: example_Z_def ClusteredKNN_init_def good_ids_def)
  have c: "1 \<in> fst ` set (interactions_df example_Z)"
    by (simp add: example_Z_def ClusteredKNN_init_def)
  have vs: "vstack (map snd (content_df example_Z)) = Inr [[], []]"
    by (simp add: example_Z_def ClusteredKNN_init_def vstack_def)
  have pv: "positive_vector [[], []]
        (map snd (good_content_of (content_df example_Z) (interactions_df example_Z) 1)) = Inr []"
    by (simp add: good_content_of_def gi positive_vector_def shape1_def)
  have cs: "cosine_similarity_row (sklearn_exact []) [] [[], []] = Inl ValueError"
    by (simp add: cosine_similarity_row_def)
  have "user_scores (sklearn_exact []) (content_df ?st0) (interactions_df ?st0)
          (all_vectors ?st0) 1 = Inl ValueError"
    using pv cs by (simp add: user_scores_def)
  then have "\<not> users_ok (sklearn_exact []) ?st0 (unique (map fst (interactions_df ?st0)))"
    unfolding users_ok_unique using c by force
  then have g: "generate_user_profiles (sklearn_exact []) 20 ?st0 = Some (Inl ValueError)"
    using generate_user_profiles_terminates[of 20 "sklearn_exact []" ?st0] by auto
  have r: "get_recommendations (sklearn_exact []) example_Z = Some (Inl ValueError)"
    by (simp add: get_recommendations_def vs g)
  have t: "returned_table (sklearn_exact []) example_Z = Some (Inl ValueError)"
    by (simp add: returned_table_def r)
  show ?thesis using gi c vs pv cs g r t by (intro conjI)
qed

section \<open>Claim C10: which users appear in the output\<close>

text \<open>
  Claim C10, as the code has it. For a run from a fresh object, every user id of the
  returned table occurs in the interaction log, and the users that get a profile are
  exactly those of the log; a user id of the users table without interaction rows has
  neither. A user of the log appears in the table exactly when the ranked rows of that
  user are not empty, so a user all of whose pool items are previous interactions is
  missing from the table. The users table is never read: the returned table is the same
  for every users table.
\<close>
theorem output_users_within_log:
  assumes "get_recommendations lib (ClusteredKNN_init cdf idf us) = Some (Inr st')"
  shows "fst ` set (recommendations_df st') \<subseteq> fst ` set idf
     \<and> {k. DAList.lookup (user_profiles st') k \<noteq> None} = fst ` set idf
     \<and> (\<forall>u. u \<in> fst ` set (recommendations_df st') \<longleftrightarrow>
            u \<in> fst ` set idf \<and> projr (user_block lib total_recommendations st' u) \<noteq> [])
     \<and> (\<forall>us'. returned_table lib (ClusteredKNN_init cdf idf us')
               = returned_table lib (ClusteredKNN_init cdf idf us))"
proof -
  let ?st = "ClusteredKNN_init cdf idf us"
  have f: "interactions_df ?st = idf" "user_profiles ?st = DAList.empty"
    by (simp_all add: ClusteredKNN_init_def)
  from pipeline_profiles[OF assms] obtain m st1 where
    pd: "profiles_done lib (?st\<lparr>all_vectors := m\<rparr>) (unique (map fst (interactions_df ?st))) st1"
    and gr: "generate_recommendations lib st1 = Inr st'" by blast
  have keys: "fst ` set (DAList.impl_of (user_profiles st1)) = fst ` set idf"
    using profiles_done_fresh_keys[OF pd] f by auto
  have same: "\<And>u. user_block lib total_recommendations st' u = user_block lib total_recommendations st1 u"
    using generate_recommendations_keeps[OF gr] by (intro user_block_cong) simp_all
  have rows: "\<And>u. filter (\<lambda>r. fst r = u) (recommendations_df st') =
     (if u \<in> fst ` set idf
      then map (\<lambda>r. (fst r, fst (snd r), snd (snd r), ''content_based''))
             (projr (user_block lib total_recommendations st' u))
      else [])"
    using user_rows(1)[OF gr] unfolding keys same .
  have mem: "\<And>u. u \<in> fst ` set (recommendations_df st') \<longleftrightarrow>
      filter (\<lambda>r. fst r = u) (recommendations_df st') \<noteq> []"
    by (auto simp: filter_empty_conv)
  have 3: "\<forall>u. u \<in> fst ` set (recommendations_df st') \<longleftrightarrow>
            u \<in> fst ` set idf \<and> projr (user_block lib total_recommendations st' u) \<noteq> []"
    unfolding mem rows by simp
  then have 1: "fst ` set (recommendations_df st') \<subseteq> fst ` set idf" by blast
  have 2: "{k. DAList.lookup (user_profiles st') k \<noteq> None} = fst ` set idf"
    using keys generate_recommendations_keeps(1)[OF gr] by (simp add: alist_keys)
  have 4: "\<forall>us'. returned_table lib (ClusteredKNN_init cdf idf us') = returned_table lib ?st"
  proof
    fix us'
    have "ClusteredKNN_init cdf idf us' = ?st\<lparr>users_df := us'\<rparr>"
      by (simp add: ClusteredKNN_init_def)
    then have "returned_table lib (ClusteredKNN_init cdf idf us')
        = returned_table lib (?st\<lparr>users_df := us'\<rparr>)"
      by (rule arg_cong)
    then show "returned_table lib (ClusteredKNN_init cdf idf us') = returned_table lib ?st"
      by (simp only: returned_table_users_df)
  qed
  show ?thesis using 1 2 3 4 by (intro conjI)
qed

text \<open>The theorem at Example A: the table holds rows of user 1 only, the one user of the
  log.\<close>
theorem output_users_within_log_witness:
  "returned_table (sklearn_exact []) example_A =
       Some (Inr [(1, 104, 1, ''content_based''), (1, 104, 2, ''content_based'')])
   \<and> fst ` set [(1::int, 104::int, 1::nat, ''content_based''), (1, 104, 2, ''content_based'')] = {1}
   \<and> fst ` set (interactions_df example_A) = {1}"
proof -
  obtain st' where run: "get_recommendations (sklearn_exact []) example_A = Some (Inr st')"
    and t: "recommendations_df st' = [(1, 104, 1, ''content_based''), (1, 104, 2, ''content_based'')]"
    using example_A_evaluated[of "sklearn_exact []"] unfolding returned_table_Inr by blast
  from output_users_within_log[OF run[unfolded example_A_def]]
  have "fst ` set (recommendations_df st') \<subseteq> fst ` set [(1::int, 101::int, 5::int), (1, 102, 5), (1, 103, 1)]"
    by blast
  then show ?thesis
    using example_A_evaluated[of "sklearn_exact []"] unfolding t
    by (simp add: example_A_def ClusteredKNN_init_def)
qed

text \<open>
  Claim C10 as stated fails: the only user of the log has rated the only catalog item,
  the run returns an empty table, and so the set of user ids of the table is not the
  set of user ids of the log.
\<close>
theorem output_users_counterexample:
  "returned_table (sklearn_exact []) example_S = Some (Inr [])
   \<and> fst ` set (interactions_df example_S) = {1}
   \<and> fst ` set ([] :: recommendation list) \<noteq> fst ` set (interactions_df example_S)"
  by (simp add: example_S_evaluated) (simp add: example_S_def ClusteredKNN_init_def)

end
